(* ===== verification/Prelude.thy ===== *)
theory Prelude
  imports Main "HOL-Library.Word"
begin

text \<open>
  Shared vocabulary of the YRSSF development: the machine types of the C and C++ sources,
  the rule collections the component theories feed, and the generic facts on lists and
  words that carry their proofs.

  \<^item> \<open>u8\<close>, \<open>u16\<close>, \<open>u32\<close>, \<open>u64\<close> are the unsigned machine integers; signed ones are the
    same words read with \<open>sint\<close>.
  \<^item> C strings and byte buffers are lists; \<open>upd_seq\<close> is a run of stores \<open>p[i] = v\<close>.
  \<^item> \<open>xor_norm\<close> collects the rules that bring exclusive-or sums into a normal form,
    \<open>list_norm\<close> the rules that evaluate loops over lists of known length.
\<close>

unbundle bit_operations_syntax

type_synonym u8 = "8 word"
type_synonym u16 = "16 word"
type_synonym u32 = "32 word"
type_synonym u64 = "64 word"
type_synonym bytes = "u8 list"

named_theorems xor_norm \<open>normal form of exclusive-or sums\<close>
named_theorems list_norm \<open>evaluation of loops over lists of known length\<close>

section \<open>Exclusive or on words\<close>

lemma xor_cancel_left [simp, xor_norm]: "a XOR (a XOR b) = b" for a b :: "'a::len word"
  by (simp add: xor.assoc [symmetric])

lemma xor_cancel_right [simp]: "(b XOR a) XOR a = b" for a b :: "'a::len word"
  by (simp add: xor.assoc)

lemmas xor_ac [xor_norm] = xor.assoc xor.commute xor.left_commute

lemma word_1_and_cases: "x AND 1 = 0 \<or> x AND 1 = 1" for x :: "'a::len word"
  by (simp add: and_one_eq mod_2_eq_odd)

section \<open>Lists of known length\<close>

lemma length_16_exE:
  assumes "length xs = 16"
  obtains a b c d e f g h i j k l m n p q where "xs = [a,b,c,d,e,f,g,h,i,j,k,l,m,n,p,q]"
proof -
  from assms have "length xs = Suc (Suc (Suc (Suc (Suc (Suc (Suc (Suc (Suc (Suc (Suc (Suc (Suc
    (Suc (Suc (Suc 0)))))))))))))))" by simp
  then show ?thesis
    unfolding length_Suc_conv by (auto intro: that)
qed

lemma upt_4 [list_norm]: "[0..<4] = [0, 1, 2, 3]"
  by (simp add: upt_rec)

lemma upt_16 [list_norm]: "[0..<16] = [0,1,2,3,4,5,6,7,8,9,10,11,12,13,14,15]"
  by (simp add: upt_rec)

section \<open>Runs of stores\<close>

text \<open>A run of stores into an array: each pair is an index and the value written there.\<close>

definition upd_seq :: "(nat \<times> 'a) list \<Rightarrow> 'a list \<Rightarrow> 'a list" where
  "upd_seq us xs = fold (\<lambda>(i, v) xs. xs[i := v]) us xs"

lemma upd_seq_Nil [simp]: "upd_seq [] xs = xs"
  by (simp add: upd_seq_def)

lemma upd_seq_Cons [simp]: "upd_seq ((i, v) # us) xs = upd_seq us (xs[i := v])"
  by (simp add: upd_seq_def)

lemma length_upd_seq [simp]: "length (upd_seq us xs) = length xs"
  by (induction us arbitrary: xs) auto

text \<open>A \<open>for\<close> loop over a list of indices keeps what each iteration keeps.\<close>

lemma fold_invariant_length:
  assumes "\<And>x s. length (f x s) = length s"
  shows "length (fold f xs s) = length s"
  using assms by (induction xs arbitrary: s) auto

lemma fold_keeps:
  assumes "P s" and "\<And>x s. x \<in> set xs \<Longrightarrow> P s \<Longrightarrow> P (f x s)"
  shows "P (fold f xs s)"
  using assms by (induction xs arbitrary: s) auto

end
