(* ===== verification/Classes.thy ===== *)
theory Classes
  imports Prelude
begin

text \<open>
  The addresses and request codes of \<^verbatim>\<open>core/classes.hpp\<close>.  A \<open>location\<close> is ordered by the 64-bit number
  \<open>tolongnum\<close>, compared as a signed number, as the sets and maps of the program need it; the order
  is an instance of \<open>linorder\<close>, so the elements of a \<open>std::set\<close> of addresses are listed by
  \<open>sorted_list_of_set\<close>.
\<close>

unbundle bit_operations_syntax

datatype location = Location (ip: u32) (port: u16)

definition location_default :: location where
  "location_default = Location 0 0"

text \<open>The port is a \<open>short\<close>: it is extended with its sign and cut to 32 bits.\<close>

definition tolongnum :: "location \<Rightarrow> u64" where
  "tolongnum l =
    (let a = ucast (ip l) :: u64; p = scast (port l) :: u64;
         b1 = push_bit 32 (a AND 0xffffffff); b2 = p AND 0xffffffff
     in b1 OR b2)"

lemma mask32: "(0xffffffff :: u64) = mask 32"
  by (simp add: mask_eq_exp_minus_1)

lemma bit_tolongnum_ip: "n < 32 \<Longrightarrow> bit (tolongnum l) (n + 32) = bit (ip l) n"
  unfolding tolongnum_def mask32 Let_def by (auto simp: bit_simps min_def)

lemma bit_tolongnum_port: "n < 16 \<Longrightarrow> bit (tolongnum l) n = bit (port l) n"
  unfolding tolongnum_def mask32 Let_def by (cases "n = 15") (auto simp: bit_simps min_def)

lemma tolongnum_inject: "tolongnum a = tolongnum b \<longleftrightarrow> a = b"
proof
  assume eq: "tolongnum a = tolongnum b"
  have "ip a = ip b"
    by (rule bit_word_eqI) (use eq in \<open>simp flip: bit_tolongnum_ip\<close>)
  moreover have "port a = port b"
    by (rule bit_word_eqI) (use eq in \<open>simp flip: bit_tolongnum_port\<close>)
  ultimately show "a = b" by (cases a; cases b) simp
qed simp

instantiation location :: linorder
begin

definition less_eq_location :: "location \<Rightarrow> location \<Rightarrow> bool" where
  "less_eq_location a b \<longleftrightarrow> sint (tolongnum a) \<le> sint (tolongnum b)"

definition less_location :: "location \<Rightarrow> location \<Rightarrow> bool" where
  "less_location a b \<longleftrightarrow> sint (tolongnum a) < sint (tolongnum b)"

instance
  by standard (auto simp: less_eq_location_def less_location_def simp flip: tolongnum_inject word_eq_iff_signed)

end

section \<open>Request codes\<close>

datatype request =
    SUCCEED | FAIL | NEWSRC | GETSRC | DELSRC | SETSRC_APPEND | SETACL | SETPWD | LOGIN | NEWUSER | PLUS
  | GETSRCNAME | DELUSER | CONNECTUSER | P2PCONNECT | P2PCONNECT_C | LOGIP | GOLAST | SHELL
  | GETSERVERINFO | CONNECT | UPDATEKEY | LIVESRC | LIVE | REGISTER | CERT | GET_PUBLIC_KEY | LIVE_B | LIVE_E

fun request_code :: "request \<Rightarrow> u8" where
  "request_code SUCCEED = 0x30" | "request_code FAIL = 0x31" | "request_code NEWSRC = 0x32"
| "request_code GETSRC = 0x33" | "request_code DELSRC = 0x34" | "request_code SETSRC_APPEND = 0x35"
| "request_code SETACL = 0x36" | "request_code SETPWD = 0x37" | "request_code LOGIN = 0x38"
| "request_code NEWUSER = 0x39" | "request_code PLUS = 0x3A" | "request_code GETSRCNAME = 0x3B"
| "request_code DELUSER = 0x3C" | "request_code CONNECTUSER = 0x60" | "request_code P2PCONNECT = 0x61"
| "request_code P2PCONNECT_C = 0x62" | "request_code LOGIP = 0x63" | "request_code GOLAST = 0x64"
| "request_code SHELL = 0xBB" | "request_code GETSERVERINFO = 0xAA" | "request_code CONNECT = 0xAB"
| "request_code UPDATEKEY = 0xAC" | "request_code LIVESRC = 0xAD" | "request_code LIVE = 0xAE"
| "request_code REGISTER = 0xAF" | "request_code CERT = 0xB0" | "request_code GET_PUBLIC_KEY = 0xB1"
| "request_code LIVE_B = 0xB2" | "request_code LIVE_E = 0xB3"

lemma request_code_inject: "request_code a = request_code b \<longleftrightarrow> a = b"
  by (cases a; cases b) simp_all

end
