(* ===== verification/Func.thy ===== *)
theory Func
  imports Complex_Main Prelude "HOL-Library.Sublist"
begin

text \<open>
  The utilities of \<^verbatim>\<open>core/func.hpp\<close>: the string hashes offered to Lua scripts (\<open>RSHash\<close> is also the
  checksum of a packet), URL encoding and in-place decoding, prefix matching, hexadecimal time stamps,
  and the vector class with its three-dimensional geohash.

  Strings are lists of bytes.  \<open>char\<close> is signed, so a hash adds the sign-extended byte.  A C string read
  through a pointer is its list of bytes with the terminator; \<open>cbyte s i\<close> is the byte at an index, zero
  from the end on.  The vector class is a template; the model is polymorphic over an ordered field, so
  rounding of \<open>double\<close> is not part of it.
\<close>

unbundle bit_operations_syntax

definition cbyte :: "bytes \<Rightarrow> nat \<Rightarrow> u8" where
  "cbyte s i = (if i < length s then s ! i else 0)"

text \<open>A \<open>char\<close> as an operand of unsigned arithmetic.\<close>

abbreviation sx :: "u8 \<Rightarrow> u32" where "sx c \<equiv> scast c"

section \<open>Hashes\<close>

definition RSHash :: "bytes \<Rightarrow> nat \<Rightarrow> u32" where
  "RSHash str len = fst (fold (\<lambda>c (hash, a). (hash * a + sx c, a * 378551)) (take len str) (0, 63689))"

definition JSHash :: "bytes \<Rightarrow> nat \<Rightarrow> u32" where
  "JSHash str len =
    fold (\<lambda>c hash. hash XOR (push_bit 5 hash + sx c + drop_bit 2 hash)) (take len str) 1315423911"

definition PJWHash :: "bytes \<Rightarrow> nat \<Rightarrow> u32" where
  "PJWHash str len =
    fold (\<lambda>c hash.
      let hash = push_bit 4 hash + sx c; test = hash AND 0xF0000000
      in if test \<noteq> 0 then (hash XOR drop_bit 24 test) AND NOT 0xF0000000 else hash) (take len str) 0"

definition ELFHash :: "bytes \<Rightarrow> nat \<Rightarrow> u32" where
  "ELFHash str len =
    fold (\<lambda>c hash.
      let hash = push_bit 4 hash + sx c; x = hash AND 0xF0000000;
          hash = (if x \<noteq> 0 then hash XOR drop_bit 24 x else hash)
      in hash AND NOT x) (take len str) 0"

definition BKDRHash :: "bytes \<Rightarrow> nat \<Rightarrow> u32" where
  "BKDRHash str len = fold (\<lambda>c hash. hash * 131 + sx c) (take len str) 0"

definition SDBMHash :: "bytes \<Rightarrow> nat \<Rightarrow> u32" where
  "SDBMHash str len = fold (\<lambda>c hash. sx c + push_bit 6 hash + push_bit 16 hash - hash) (take len str) 0"

definition DJBHash :: "bytes \<Rightarrow> nat \<Rightarrow> u32" where
  "DJBHash str len = fold (\<lambda>c hash. (push_bit 5 hash + hash) + sx c) (take len str) 5381"

definition DEKHash :: "bytes \<Rightarrow> nat \<Rightarrow> u32" where
  "DEKHash str len =
    fold (\<lambda>c hash. (push_bit 5 hash XOR drop_bit 27 hash) XOR sx c) (take len str) (word_of_nat len)"

definition BPHash :: "bytes \<Rightarrow> nat \<Rightarrow> u32" where
  "BPHash str len = fold (\<lambda>c hash. push_bit 7 hash XOR sx c) (take len str) 0"

definition FNVHash :: "bytes \<Rightarrow> nat \<Rightarrow> u32" where
  "FNVHash str len = fold (\<lambda>c hash. (hash * 0x811C9DC5) XOR sx c) (take len str) 0"

definition APHash :: "bytes \<Rightarrow> nat \<Rightarrow> u32" where
  "APHash str len =
    fst (fold (\<lambda>c (hash, i :: nat).
      (hash XOR (if even i then push_bit 7 hash XOR sx c * drop_bit 3 hash
                 else NOT (push_bit 11 hash + (sx c XOR drop_bit 5 hash))), i + 1)) (take len str) (0xAAAAAAAA, 0))"

text \<open>The Lua functions \<open>Hash.*\<close> hash the string up to its terminator; a call without a string argument
  returns nothing.\<close>

definition lua_hash :: "(bytes \<Rightarrow> nat \<Rightarrow> u32) \<Rightarrow> bytes option \<Rightarrow> u32 option" where
  "lua_hash H arg =
    (case arg of None \<Rightarrow> None
     | Some s \<Rightarrow> (let s = takeWhile (\<lambda>c. c \<noteq> 0) s in Some (H s (length s))))"

section \<open>Numbers and random strings\<close>

text \<open>\<open>sprintf(c, "%8x ", *i)\<close> and the following store: the bytes written from \<open>c\<close> on.\<close>

definition hex_char :: "nat \<Rightarrow> u8" where
  "hex_char d = (if d < 10 then word_of_nat (48 + d) else word_of_nat (87 + d))"

fun hex_digits :: "nat \<Rightarrow> bytes" where
  "hex_digits n = (if n < 16 then [hex_char n] else hex_digits (n div 16) @ [hex_char (n mod 16)])"

declare hex_digits.simps [simp del]

definition fmt_8x :: "u32 \<Rightarrow> bytes" where
  "fmt_8x i = (let d = hex_digits (unat i) in replicate (8 - length d) 32 @ d)"

definition int2str :: "u32 \<Rightarrow> bytes" where
  "int2str i = (fmt_8x i @ [32, 0])[8 := 0]"

text \<open>\<open>sscanf(c, "%8x", i)\<close>: white space is skipped and at most eight digits are read; without a digit
  \<open>i\<close> keeps its value.\<close>

definition hex_val :: "u8 \<Rightarrow> nat option" where
  "hex_val c =
    (let n = unat c
     in if 48 \<le> n \<and> n \<le> 57 then Some (n - 48)
        else if 97 \<le> n \<and> n \<le> 102 then Some (n - 87)
        else if 65 \<le> n \<and> n \<le> 70 then Some (n - 55) else None)"

definition str2int :: "bytes \<Rightarrow> u32 \<Rightarrow> u32" where
  "str2int c i =
    (let ds = takeWhile (\<lambda>x. hex_val x \<noteq> None) (take 8 (dropWhile (\<lambda>x. x = 32) c))
     in if ds = [] then i else word_of_nat (foldl (\<lambda>n x. 16 * n + the (hex_val x)) 0 ds))"

text \<open>\<open>randnum\<close>: the static seed is the state; \<open>rnd st\<close> is what \<open>rand()\<close> returns after \<open>srand(st)\<close>.\<close>

definition randnum :: "(u32 \<Rightarrow> nat) \<Rightarrow> u32 \<Rightarrow> nat \<times> u32" where
  "randnum rnd st = (let st = st + 1; r = rnd st in (if r = 0 then 1 else r, st))"

text \<open>The array \<open>arr\<close> with its terminator, which \<open>sizeof\<close> counts.\<close>

definition randstr_arr :: bytes where
  "randstr_arr = map (\<lambda>c. word_of_nat (of_char c)) (''xcvbnmasdfghjklqwertyuiop'' @
     ''1234567890ZXCVBNMASDFGHJK'' @ ''LQWERTYUIOP'') @ [0]"

primrec randstr_loop :: "(u32 \<Rightarrow> nat) \<Rightarrow> nat \<Rightarrow> u32 \<Rightarrow> bytes \<times> u32" where
  "randstr_loop rnd 0 st = ([], st)"
| "randstr_loop rnd (Suc n) st =
    (let (r, st) = randnum rnd st; (cs, st) = randstr_loop rnd n st
     in (randstr_arr ! (r mod length randstr_arr) # cs, st))"

definition randstr :: "(u32 \<Rightarrow> nat) \<Rightarrow> u32 \<Rightarrow> bytes \<times> u32" where
  "randstr rnd st = (let (cs, st) = randstr_loop rnd 16 st in (cs @ [0], st))"

text \<open>\<open>wristr\<close>: copy at most sixteen bytes, up to and with the terminator.\<close>

fun wristr_loop :: "nat \<Rightarrow> nat \<Rightarrow> bytes \<Rightarrow> bytes \<Rightarrow> bytes" where
  "wristr_loop 0 i inp out = out"
| "wristr_loop (Suc n) i inp out =
    (if cbyte inp i = 0 then out[i := 0] else wristr_loop n (i + 1) inp (out[i := cbyte inp i]))"

definition wristr :: "bytes \<Rightarrow> bytes \<Rightarrow> bytes" where
  "wristr inp out = wristr_loop 16 0 inp out"

section \<open>URLs\<close>

definition hexchars :: bytes where
  "hexchars = map (\<lambda>c. word_of_nat (of_char c)) ''0123456789ABCDEF''"

definition tolower_byte :: "nat \<Rightarrow> nat" where
  "tolower_byte c = (if 65 \<le> c \<and> c \<le> 90 then c + 32 else c)"

definition htoi_digit :: "u8 \<Rightarrow> int" where
  "htoi_digit b = (let c = int (tolower_byte (unat b)) in if 48 \<le> c \<and> c \<le> 57 then c - 48 else c - 97 + 10)"

definition htoi :: "u8 \<Rightarrow> u8 \<Rightarrow> int" where
  "htoi a b = htoi_digit a * 16 + htoi_digit b"

definition isxdigit :: "u8 \<Rightarrow> bool" where
  "isxdigit c = (hex_val c \<noteq> None)"

definition url_reserved :: "u8 \<Rightarrow> bool" where
  "url_reserved c \<longleftrightarrow> (c < 48 \<and> c \<noteq> 45 \<and> c \<noteq> 46) \<or> (c < 65 \<and> c > 57) \<or> (c > 90 \<and> c < 97 \<and> c \<noteq> 95) \<or> c > 122"

definition url_encode_byte :: "u8 \<Rightarrow> bytes" where
  "url_encode_byte c =
    (if c = 32 then [43]
     else if url_reserved c then [37, hexchars ! unat (drop_bit 4 c), hexchars ! unat (c AND 15)]
     else [c])"

text \<open>The stores of the loop into the block \<open>calloc(1, 3*len+1)\<close>; \<open>None\<close> is a store outside it.\<close>

fun url_encode_loop :: "bytes \<Rightarrow> bytes \<Rightarrow> nat \<Rightarrow> (bytes \<times> nat) option" where
  "url_encode_loop [] start to =
    (if to < length start then Some (start[to := 0], to) else None)"
| "url_encode_loop (c # from) start to =
    (let e = url_encode_byte c
     in if to + length e \<le> length start
        then url_encode_loop from (take to start @ e @ drop (to + length e) start) (to + length e)
        else None)"

definition url_encode :: "bytes \<Rightarrow> nat \<Rightarrow> (bytes \<times> nat) option" where
  "url_encode s len = url_encode_loop (take len s) (replicate (3 * len + 1) 0) 0"

text \<open>The loop of \<open>url_decode\<close>, which reads at \<open>data\<close> and writes at \<open>dest\<close> of the same array.\<close>

function url_decode_loop :: "bytes \<Rightarrow> nat \<Rightarrow> nat \<Rightarrow> nat \<Rightarrow> bytes \<times> nat" where
  "url_decode_loop str dest data len =
    (if len = 0 then (str[dest := 0], dest)
     else
       (let len = len - 1; c = cbyte str data
        in if c = 43 then url_decode_loop (str[dest := 32]) (dest + 1) (data + 1) len
           else if c = 37 \<and> 2 \<le> len \<and> isxdigit (cbyte str (data + 1)) \<and> isxdigit (cbyte str (data + 2))
           then url_decode_loop (str[dest := word_of_int (htoi (cbyte str (data + 1)) (cbyte str (data + 2)))])
                  (dest + 1) (data + 3) (len - 2)
           else url_decode_loop (str[dest := c]) (dest + 1) (data + 1) len))"
  by pat_completeness auto
termination by (relation "measure (\<lambda>(str, dest, data, len). len)") auto

declare url_decode_loop.simps [simp del]

definition url_decode :: "bytes \<Rightarrow> nat \<Rightarrow> bytes \<times> nat" where
  "url_decode str len = url_decode_loop str 0 0 len"

text \<open>\<open>prefix_match\<close> on two C strings from the given positions on.\<close>

function prefix_match_from :: "bytes \<Rightarrow> nat \<Rightarrow> bytes \<Rightarrow> nat \<Rightarrow> bool" where
  "prefix_match_from s1 sp s2 p2 =
    (if cbyte s1 sp = 0 then True
     else if cbyte s1 sp \<noteq> cbyte s2 p2 then False
     else prefix_match_from s1 (sp + 1) s2 (p2 + 1))"
  by pat_completeness auto
termination
  by (relation "measure (\<lambda>(s1, sp, s2, p2). length s1 - sp)") (auto simp: cbyte_def split: if_splits)

declare prefix_match_from.simps [simp del]

definition prefix_match :: "bytes \<Rightarrow> bytes \<Rightarrow> bool" where
  "prefix_match s1 s2 = prefix_match_from s1 0 s2 0"

text \<open>\<open>nowtime\<close>: \<open>int2str\<close> into the static array of nine bytes; \<open>None\<close> is a store outside it.\<close>

definition nowtime :: "u32 \<Rightarrow> bytes option" where
  "nowtime now = (if length (int2str now) \<le> 9 then Some (int2str now) else None)"

section \<open>Vectors\<close>

record 'a vec3 =
  vx :: 'a
  vy :: 'a
  vz :: 'a

definition vec :: "'a \<Rightarrow> 'a \<Rightarrow> 'a \<Rightarrow> 'a vec3" where
  "vec a b c = \<lparr>vx = a, vy = b, vz = c\<rparr>"

definition vec_eq :: "'a vec3 \<Rightarrow> 'a vec3 \<Rightarrow> bool" where
  "vec_eq a i = (if vx a \<noteq> vx i then False else if vy a \<noteq> vy i then False else if vz a \<noteq> vz i then False else True)"

definition vec_add :: "'a::linordered_field vec3 \<Rightarrow> 'a vec3 \<Rightarrow> 'a vec3" where
  "vec_add a p = vec (vx a + vx p) (vy a + vy p) (vz a + vz p)"

definition vec_sub :: "'a::linordered_field vec3 \<Rightarrow> 'a vec3 \<Rightarrow> 'a vec3" where
  "vec_sub a p = vec (vx a - vx p) (vy a - vy p) (vz a - vz p)"

definition vec_scale :: "'a::linordered_field vec3 \<Rightarrow> 'a \<Rightarrow> 'a vec3" where
  "vec_scale a p = vec (p * vx a) (p * vy a) (p * vz a)"

definition vec_divide :: "'a::linordered_field vec3 \<Rightarrow> 'a \<Rightarrow> 'a vec3" where
  "vec_divide a p = vec (vx a / p) (vy a / p) (vz a / p)"

definition vec_cross :: "'a::linordered_field vec3 \<Rightarrow> 'a vec3 \<Rightarrow> 'a vec3" where
  "vec_cross a i =
    vec (vy a * vz i - vz a * vy i) (vz a * vx i - vx a * vz i) (vz a * vy i - vy a * vx i)"

text \<open>The recursion of \<open>GeoHash\<close> from \<open>begin\<close> to \<open>end\<close>, \<open>n\<close> characters apart; the result are the
  characters stored, the terminator last.\<close>

primrec GeoHash :: "nat \<Rightarrow> 'a::linordered_field \<Rightarrow> 'a vec3 \<Rightarrow> 'a vec3 \<Rightarrow> bytes" where
  "GeoHash 0 len p zero = [0]"
| "GeoHash (Suc n) len p zero =
    (if vx p > vx zero then
       if vy p > vy zero then
         if vz p > vz zero
         then 97 # GeoHash n (len / 2) p (vec (vx zero + len) (vy zero + len) (vz zero + len))
         else 98 # GeoHash n (len / 2) p (vec (vx zero + len) (vy zero + len) (vz zero - len))
       else
         if vz p > vz zero
         then 99 # GeoHash n (len / 2) p (vec (vx zero + len) (vy zero - len) (vz zero + len))
         else 100 # GeoHash n (len / 2) p (vec (vx zero + len) (vy zero - len) (vz zero - len))
     else
       if vy p > vy zero then
         if vz p > vz zero
         then 101 # GeoHash n (len / 2) p (vec (vx zero - len) (vy zero + len) (vz zero + len))
         else 102 # GeoHash n (len / 2) p (vec (vx zero - len) (vy zero + len) (vz zero - len))
       else
         if vz p > vz zero
         then 103 # GeoHash n (len / 2) p (vec (vx zero - len) (vy zero - len) (vz zero + len))
         else 104 # GeoHash n (len / 2) p (vec (vx zero - len) (vy zero - len) (vz zero - len)))"

text \<open>The loop of \<open>GeoHashDecode\<close> from the current value on; the result tells whether every character
  was valid.\<close>

definition geo_move :: "u8 \<Rightarrow> 'a::linordered_field \<Rightarrow> 'a vec3 \<Rightarrow> 'a vec3 option" where
  "geo_move c ll v =
    (if c = 97 then Some (vec (vx v + ll) (vy v + ll) (vz v + ll))
     else if c = 98 then Some (vec (vx v + ll) (vy v + ll) (vz v - ll))
     else if c = 99 then Some (vec (vx v + ll) (vy v - ll) (vz v + ll))
     else if c = 100 then Some (vec (vx v + ll) (vy v - ll) (vz v - ll))
     else if c = 101 then Some (vec (vx v - ll) (vy v + ll) (vz v + ll))
     else if c = 102 then Some (vec (vx v - ll) (vy v + ll) (vz v - ll))
     else if c = 103 then Some (vec (vx v - ll) (vy v - ll) (vz v + ll))
     else if c = 104 then Some (vec (vx v - ll) (vy v - ll) (vz v - ll))
     else None)"

fun geo_decode_loop :: "bytes \<Rightarrow> 'a::linordered_field \<Rightarrow> 'a vec3 \<Rightarrow> bool \<times> 'a vec3" where
  "geo_decode_loop [] ll v = (True, v)"
| "geo_decode_loop (c # str) ll v =
    (if c = 0 then (True, v)
     else case geo_move c ll v of None \<Rightarrow> (False, v) | Some v \<Rightarrow> geo_decode_loop str (ll / 2) v)"

definition GeoHashDecode :: "'a::linordered_field \<Rightarrow> bytes \<Rightarrow> bool \<times> 'a vec3" where
  "GeoHashDecode len s = geo_decode_loop s len (vec 0 0 0)"

section \<open>Hash lemmas\<close>

lemma high_bits: "(0xF0000000 :: u32) = push_bit 28 (mask 4)"
  by (simp add: mask_eq_exp_minus_1)

lemma elf_step:
  fixes h :: u32
  defines "x \<equiv> h AND 0xF0000000"
  shows "(if x \<noteq> 0 then h XOR drop_bit 24 x else h) AND NOT x =
    (if x \<noteq> 0 then (h XOR drop_bit 24 x) AND NOT 0xF0000000 else h)"
  unfolding x_def high_bits
  by (auto simp: bit_eq_iff bit_simps)

lemma fold_inv: "P a \<Longrightarrow> (\<And>c a. P a \<Longrightarrow> P (f c a)) \<Longrightarrow> P (fold f cs a)"
  by (induction cs arbitrary: a) auto

lemma pjw_step_high:
  fixes h :: u32
  shows "(let test = h AND 0xF0000000
      in if test \<noteq> 0 then (h XOR drop_bit 24 test) AND NOT 0xF0000000 else h) AND 0xF0000000 = 0"
  by (simp add: Let_def and.assoc)

lemma fold_cong_fun: "(\<And>c a. f c a = g c a) \<Longrightarrow> fold f cs a = fold g cs a"
  by (induction cs arbitrary: a) auto

section \<open>URL lemmas\<close>

text \<open>What decoding means, on the text alone.\<close>

fun udec :: "bytes \<Rightarrow> bytes" where
  "udec [] = []"
| "udec (c # cs) =
    (if c = 43 then 32 # udec cs
     else if c = 37 \<and> 2 \<le> length cs \<and> isxdigit (cs ! 0) \<and> isxdigit (cs ! 1)
     then word_of_int (htoi (cs ! 0) (cs ! 1)) # udec (drop 2 cs)
     else c # udec cs)"

lemma hexchars_digit: "n < 16 \<Longrightarrow> isxdigit (hexchars ! n) \<and> htoi_digit (hexchars ! n) = int n"
proof -
  have "\<forall>n \<in> set [0..<16]. isxdigit (hexchars ! n) \<and> htoi_digit (hexchars ! n) = int n"
    by (simp add: hexchars_def isxdigit_def hex_val_def htoi_digit_def tolower_byte_def upt_16)
  then show "n < 16 \<Longrightarrow> ?thesis" by simp
qed

lemma nibble_values:
  fixes c :: u8
  shows "unat (drop_bit 4 c) = unat c div 16" "unat (c AND 15) = unat c mod 16"
proof -
  have "c AND 15 = take_bit 4 c"
    by (simp add: take_bit_eq_mask mask_eq_exp_minus_1)
  then show "unat (c AND 15) = unat c mod 16"
    by (simp add: take_bit_eq_mod unat_mod)
  show "unat (drop_bit 4 c) = unat c div 16"
    by (simp add: drop_bit_eq_div unat_div)
qed

lemma nibbles_lt:
  fixes c :: u8
  shows "unat (drop_bit 4 c) < 16" "unat (c AND 15) < 16"
  using unsigned_less [of c, where 'a = nat] by (simp_all add: nibble_values)

lemma nibbles: "word_of_int (int (unat (drop_bit 4 c)) * 16 + int (unat (c AND 15))) = (c :: u8)"
proof -
  have "int (unat (drop_bit 4 c)) * 16 + int (unat (c AND 15)) = int (unat c)"
    unfolding nibble_values using div_mult_mod_eq [of "unat c" 16] by linarith
  then show ?thesis by simp
qed

lemma udec_encode_byte: "udec (url_encode_byte c @ cs) = c # udec cs"
  using hexchars_digit [OF nibbles_lt(1) [of c]] hexchars_digit [OF nibbles_lt(2) [of c]] nibbles [of c]
  by (auto simp: url_encode_byte_def htoi_def url_reserved_def)

lemma length_url_encode_byte: "length (url_encode_byte c) \<le> 3"
  by (simp add: url_encode_byte_def)

lemma udec_encode: "udec (concat (map url_encode_byte s)) = s"
  by (induction s) (simp_all add: udec_encode_byte)

lemma length_udec: "length (udec cs) \<le> length cs"
  by (induction cs rule: udec.induct) auto

text \<open>The array after decoding in place: the part before \<open>dest\<close> is kept, then comes the decoded text and
  the terminator.  Reading is never behind writing.\<close>

definition decoded :: "bytes \<Rightarrow> nat \<Rightarrow> bytes \<Rightarrow> bytes \<times> nat \<Rightarrow> bool" where
  "decoded str dest d r \<longleftrightarrow> (\<exists>rest. r = (take dest str @ d @ 0 # rest, dest + length d) \<and> length (fst r) = length str)"

lemma decoded_step:
  assumes "decoded (str[dest := v]) (dest + 1) d r" "dest < length str"
  shows "decoded str dest (v # d) r"
  using assms by (auto simp: decoded_def take_Suc_conv_app_nth)

lemma url_decode_loop_spec:
  assumes "dest \<le> data" "data + len < length str"
  shows "decoded str dest (udec (take len (drop data str))) (url_decode_loop str dest data len)"
  using assms
proof (induction str dest data len rule: url_decode_loop.induct)
  case (1 str dest data len)
  show ?case
  proof (cases len)
    case 0
    then show ?thesis
      using "1.prems" by (auto simp: url_decode_loop.simps [of str dest data 0] decoded_def upd_conv_take_nth_drop)
  next
    case (Suc n)
    note step = url_decode_loop.simps [of str dest data "Suc n"]
    let ?c = "str ! data"
    define cs where "cs = take n (drop (data + 1) str)"
    have at: "cbyte str data = ?c" and cut: "take len (drop data str) = ?c # cs"
      using Suc "1.prems" by (simp_all add: cbyte_def cs_def flip: Cons_nth_drop_Suc)
    have len_cs: "length cs = n" using Suc "1.prems" by (simp add: cs_def)
    have nth: "cbyte str (data + 1) = cs ! 0" "cbyte str (data + 2) = cs ! 1" if "2 \<le> n"
      using that Suc "1.prems" by (simp_all add: cbyte_def cs_def)
    have rest: "take m (drop (data + k) (str[dest := v])) = take m (drop (data + k) str)" if "0 < k" for m k v
      using that "1.prems"(1) by simp
    have lt: "dest < length str" using "1.prems" by simp
    have n: "len \<noteq> 0" "n = len - 1" using Suc by auto
    have bounds: "data + 1 + n < length str" "2 \<le> n \<Longrightarrow> data + 3 + (n - 2) < length str" "dest + 1 \<le> data + 1" "dest + 1 \<le> data + 3"
      using Suc "1.prems" by auto
    consider (plus) "?c = 43"
      | (hex) "?c \<noteq> 43" "?c = 37" "2 \<le> n" "isxdigit (cs ! 0)" "isxdigit (cs ! 1)"
      | (plain) "?c \<noteq> 43" "\<not> (?c = 37 \<and> 2 \<le> n \<and> isxdigit (cs ! 0) \<and> isxdigit (cs ! 1))"
      by blast
    then show ?thesis
    proof cases
      case plus
      have "decoded (str[dest := 32]) (dest + 1) (udec cs) (url_decode_loop (str[dest := 32]) (dest + 1) (data + 1) n)"
        using "1.IH"(1) [OF n refl] at plus bounds(1,3) rest [of 1 n 32] unfolding cs_def by simp
      from decoded_step [OF this lt] show ?thesis
        using plus Suc at cut by (simp add: step)
    next
      case hex
      let ?v = "word_of_int (htoi (cs ! 0) (cs ! 1)) :: u8"
      have "decoded (str[dest := ?v]) (dest + 1) (udec (take (n - 2) (drop (data + 3) str)))
          (url_decode_loop (str[dest := ?v]) (dest + 1) (data + 3) (n - 2))"
        using "1.IH"(2) [OF n refl] at hex nth bounds(2,4) rest [of 3 "n - 2" ?v] by simp
      moreover have "take (n - 2) (drop (data + 3) str) = drop 2 cs"
        by (simp add: cs_def drop_take numeral_eq_Suc)
      ultimately have "decoded str dest (?v # udec (drop 2 cs)) (url_decode_loop (str[dest := ?v]) (dest + 1) (data + 3) (n - 2))"
        using decoded_step lt by simp
      then show ?thesis
        using hex Suc at cut nth len_cs by (simp add: step)
    next
      case plain
      have no: "\<not> (cbyte str data = 37 \<and> 2 \<le> n \<and> isxdigit (cbyte str (data + 1)) \<and> isxdigit (cbyte str (data + 2)))"
        using plain(2) at nth by auto
      have "decoded (str[dest := ?c]) (dest + 1) (udec cs) (url_decode_loop (str[dest := ?c]) (dest + 1) (data + 1) n)"
        using "1.IH"(3) [OF n refl _ no] at plain(1) bounds(1,3) rest [of 1 n ?c] unfolding cs_def by simp
      from decoded_step [OF this lt] show ?thesis
        using plain Suc at cut no len_cs by (auto simp: step)
    qed
  qed
qed

lemma url_encode_loop_spec:
  assumes "to + 3 * length from < length start"
  shows "\<exists>rest. url_encode_loop from start to =
    Some (take to start @ concat (map url_encode_byte from) @ 0 # rest, to + length (concat (map url_encode_byte from))) \<and>
    length (take to start @ concat (map url_encode_byte from) @ 0 # rest) = length start"
  using assms
proof (induction "from" arbitrary: start to)
  case Nil
  then show ?case by (auto simp: upd_conv_take_nth_drop)
next
  case (Cons c "from")
  let ?e = "url_encode_byte c"
  let ?start = "take to start @ ?e @ drop (to + length ?e) start"
  have "to + length ?e + 3 * length from < length ?start" "length ?start = length start"
    using Cons.prems length_url_encode_byte [of c] by auto
  from Cons.IH [OF this(1)] this(2) Cons.prems show ?case
    by (auto simp: Let_def)
qed

section \<open>Text lemmas\<close>

lemma prefix_match_from_iff:
  "prefix_match_from s1 sp s2 p2 \<longleftrightarrow>
    prefix (takeWhile (\<lambda>c. c \<noteq> 0) (drop sp s1)) (takeWhile (\<lambda>c. c \<noteq> 0) (drop p2 s2))"
proof (induction s1 sp s2 p2 rule: prefix_match_from.induct)
  case (1 s1 sp s2 p2)
  have hd: "takeWhile (\<lambda>c. c \<noteq> 0) (drop p s) =
      (if cbyte s p = 0 then [] else cbyte s p # takeWhile (\<lambda>c. c \<noteq> 0) (drop (p + 1) s))" for s :: bytes and p
    by (cases "p < length s") (auto simp: cbyte_def simp flip: Cons_nth_drop_Suc)
  show ?case
    using 1 by (subst prefix_match_from.simps) (auto simp: hd [of sp s1] hd [of p2 s2])
qed

lemma hex_char_props: "d < 16 \<Longrightarrow> hex_val (hex_char d) = Some d \<and> hex_char d \<noteq> 32"
proof -
  have "\<forall>d \<in> set [0..<16]. hex_val (hex_char d) = Some d \<and> hex_char d \<noteq> 32"
    by (simp add: hex_val_def hex_char_def upt_16)
  then show "d < 16 \<Longrightarrow> ?thesis" by simp
qed

lemmas hex_val_char = hex_char_props [THEN conjunct1]

lemma hex_digits_props:
  "hex_digits n \<noteq> [] \<and> (\<forall>x \<in> set (hex_digits n). \<exists>d < 16. x = hex_char d) \<and>
    foldl (\<lambda>n x. 16 * n + the (hex_val x)) 0 (hex_digits n) = n"
proof (induction n rule: hex_digits.induct)
  case (1 n)
  show ?case
  proof (cases "n < 16")
    case True
    then show ?thesis by (auto simp: hex_digits.simps [of n] hex_val_char)
  next
    case False
    then show ?thesis
      using 1 mod_less_divisor [of 16 n] by (auto simp: hex_digits.simps [of n] hex_val_char simp del: mod_less_divisor)
  qed
qed

lemma length_hex_digits: "0 < k \<Longrightarrow> n < 16 ^ k \<Longrightarrow> length (hex_digits n) \<le> k"
proof (induction k arbitrary: n)
  case 0
  then show ?case by simp
next
  case (Suc k)
  show ?case
  proof (cases "n < 16")
    case True
    then show ?thesis by (simp add: hex_digits.simps [of n])
  next
    case False
    then have "0 < k" "n div 16 < 16 ^ k"
      using Suc.prems by (auto simp: less_mult_imp_div_less mult.commute intro!: gr0I)
    then show ?thesis
      using Suc.IH False by (simp add: hex_digits.simps [of n])
  qed
qed

lemma length_fmt_8x: "length (fmt_8x i) = 8"
proof -
  have "unat i < 16 ^ 8" using unsigned_less [of i, where 'a = nat] by simp
  from length_hex_digits [OF _ this] show ?thesis by (simp add: fmt_8x_def Let_def)
qed

lemma str2int_int2str: "str2int (int2str i) j = i"
proof -
  let ?d = "hex_digits (unat i)"
  obtain x xs where d: "?d = x # xs" "x \<noteq> 32"
    using hex_digits_props [of "unat i"] hex_char_props by (cases ?d) auto
  have len: "length ?d \<le> 8" and all: "\<forall>x \<in> set ?d. hex_val x \<noteq> None"
    using length_fmt_8x [of i] hex_digits_props [of "unat i"] hex_val_char
    by (auto simp: fmt_8x_def Let_def dest!: bspec)
  have "int2str i = fmt_8x i @ [0, 0]"
    by (simp add: int2str_def list_update_append length_fmt_8x)
  then have "dropWhile (\<lambda>x. x = 32) (int2str i) = ?d @ [0, 0]"
    using d by (simp add: fmt_8x_def dropWhile_append)
  moreover have "hex_val 0 = None" by (simp add: hex_val_def)
  then have "takeWhile (\<lambda>x. hex_val x \<noteq> None) (take 8 (?d @ [0, 0])) = ?d"
    using len all by (cases "8 - length ?d") (auto simp: takeWhile_append2 take_Cons')
  ultimately show ?thesis
    using hex_digits_props [of "unat i"] by (simp add: str2int_def)
qed

lemma int2str_split: "int2str i = fmt_8x i @ [0, 0]"
  by (simp add: int2str_def list_update_append length_fmt_8x)

lemma fmt_8x_inject: "fmt_8x i = fmt_8x j \<longleftrightarrow> i = j"
proof
  assume "fmt_8x i = fmt_8x j"
  then have "int2str i = int2str j" by (simp only: int2str_split)
  then show "i = j" by (metis str2int_int2str)
qed simp

lemma hex_char_nonzero: "d < 16 \<Longrightarrow> hex_char d \<noteq> 0"
  using hex_val_char [of d] by (auto simp: hex_val_def)

lemma fmt_8x_nonzero: "0 \<notin> set (fmt_8x i)"
proof -
  have "0 \<notin> set (hex_digits (unat i))"
    using hex_digits_props [of "unat i"] hex_char_nonzero by metis
  then show ?thesis by (auto simp: fmt_8x_def Let_def)
qed

lemma geohash_decode_path:
  assumes "0 < len" "\<bar>vx p - vx zero\<bar> \<le> 2 * len" "\<bar>vy p - vy zero\<bar> \<le> 2 * len" "\<bar>vz p - vz zero\<bar> \<le> 2 * len"
  shows "\<exists>v. geo_decode_loop (GeoHash n len p zero) len zero = (True, v) \<and>
    \<bar>vx p - vx v\<bar> \<le> 2 * len / 2 ^ n \<and> \<bar>vy p - vy v\<bar> \<le> 2 * len / 2 ^ n \<and> \<bar>vz p - vz v\<bar> \<le> 2 * len / 2 ^ n"
  using assms
proof (induction n arbitrary: len zero)
  case 0
  then show ?case by simp
next
  case (Suc n)
  define sgn' where "sgn' a b = (if a > b then len else - len)" for a b :: 'a
  define z where "z = vec (vx zero + sgn' (vx p) (vx zero)) (vy zero + sgn' (vy p) (vy zero)) (vz zero + sgn' (vz p) (vz zero))"
  have near: "\<bar>a - (b + sgn' a b)\<bar> \<le> 2 * (len / 2)" if "\<bar>a - b\<bar> \<le> 2 * len" for a b
    using that Suc.prems(1) by (auto simp: sgn'_def abs_le_iff)
  have move: "geo_decode_loop (GeoHash (Suc n) len p zero) len zero = geo_decode_loop (GeoHash n (len / 2) p z) (len / 2) z"
    by (auto simp: z_def sgn'_def geo_move_def)
  have "0 < len / 2" using Suc.prems(1) by simp
  moreover have "\<bar>vx p - vx z\<bar> \<le> 2 * (len / 2)" "\<bar>vy p - vy z\<bar> \<le> 2 * (len / 2)" "\<bar>vz p - vz z\<bar> \<le> 2 * (len / 2)"
    using near Suc.prems(2-4) by (simp_all add: z_def vec_def)
  ultimately show ?case
    using Suc.IH [of "len / 2" z] unfolding move by (simp add: field_simps)
qed

section \<open>Properties\<close>

text \<open>URL encoding fits its allocation and is undone by decoding in place: for every byte string,
  the encoder stores inside the \<open>3*len+1\<close> bytes it allocates, and the decoder, which overwrites the
  array it reads, restores the string, its terminator and its length.\<close>

theorem url_roundtrip:
  "\<exists>buf n rest. url_encode s (length s) = Some (buf, n) \<and> url_decode buf n = (s @ 0 # rest, length s) \<and>
    length (s @ 0 # rest) = length buf"
proof -
  let ?e = "concat (map url_encode_byte s)"
  obtain rest where enc: "url_encode s (length s) = Some (?e @ 0 # rest, length ?e)"
    using url_encode_loop_spec [of 0 s "replicate (3 * length s + 1) 0"] by (auto simp: url_encode_def)
  have "decoded (?e @ 0 # rest) 0 s (url_decode (?e @ 0 # rest) (length ?e))"
    using url_decode_loop_spec [of 0 0 "length ?e" "?e @ 0 # rest"] by (simp add: url_decode_def udec_encode)
  with enc show ?thesis by (auto simp: decoded_def)
qed

text \<open>Decoding in place computes the decoding of the text, although reads and writes go to the same
  array.\<close>

theorem url_decode_in_place:
  assumes "len < length str"
  shows "\<exists>rest. url_decode str len = (udec (take len str) @ 0 # rest, length (udec (take len str))) \<and>
    length (fst (url_decode str len)) = length str"
  using url_decode_loop_spec [of 0 0 len str] assms by (auto simp: url_decode_def decoded_def)

theorem url_decode_in_place_witness:
  "\<exists>rest. url_decode [37, 52, 49, 43, 98, 0] 5 = (udec (take 5 [37, 52, 49, 43, 98, 0]) @ 0 # rest, 3) \<and>
    length (fst (url_decode [37, 52, 49, 43, 98, 0] 5)) = 6"
  using url_decode_in_place [of 5 "[37, 52, 49, 43, 98, 0]"]
  by (simp add: isxdigit_def hex_val_def numeral_3_eq_3)

text \<open>\<open>PJWHash\<close> and \<open>ELFHash\<close> are the same function, and its value has 28 bits.\<close>

theorem PJWHash_ELFHash: "PJWHash str len = ELFHash str len \<and> PJWHash str len AND 0xF0000000 = 0"
proof
  show "PJWHash str len = ELFHash str len"
    unfolding PJWHash_def ELFHash_def by (intro fold_cong_fun) (simp only: Let_def elf_step)
  show "PJWHash str len AND 0xF0000000 = 0"
    unfolding PJWHash_def using pjw_step_high by (intro fold_inv [where P = "\<lambda>h. h AND 0xF0000000 = 0"]) (auto simp: Let_def)
qed

text \<open>The shift-and-add hashes are the polynomial hashes they stand for: \<open>SDBMHash\<close> multiplies by
  65599 and \<open>DJBHash\<close> by 33, modulo \<open>2^32\<close>.\<close>

theorem shift_hashes_polynomial:
  "SDBMHash str len = fold (\<lambda>c h. h * 65599 + sx c) (take len str) 0"
  "DJBHash str len = fold (\<lambda>c h. h * 33 + sx c) (take len str) 5381"
  unfolding SDBMHash_def DJBHash_def
  by (intro fold_cong_fun, simp add: push_bit_eq_mult algebra_simps)+

text \<open>\<open>prefix_match\<close> decides the prefix order of C strings.\<close>

theorem prefix_match_prefix:
  "prefix_match s1 s2 \<longleftrightarrow> prefix (takeWhile (\<lambda>c. c \<noteq> 0) s1) (takeWhile (\<lambda>c. c \<noteq> 0) s2)"
  using prefix_match_from_iff [of s1 0 s2 0] by (simp add: prefix_match_def)

text \<open>Reading a printed number gives the number, for all 32-bit values.\<close>

theorem int2str_roundtrip: "str2int (int2str i) j = i"
  by (rule str2int_int2str)

text \<open>The time stamp does not fit its static array: printing with \<open>%8x\<close> and a space stores ten bytes
  into nine, for every time.\<close>

theorem nowtime_overflow: "nowtime now = None"
  by (simp add: nowtime_def int2str_def length_fmt_8x)

text \<open>A random password may contain the terminator: the modulus counts it, so some numbers pick it.\<close>

theorem randstr_terminator:
  assumes "rnd (st + 1) = 61"
  shows "\<exists>cs st'. randstr rnd st = (0 # cs, st')"
proof -
  have arr: "length randstr_arr = 62" "randstr_arr ! 61 = 0"
    by (simp_all add: randstr_arr_def)
  obtain cs st' where "randstr_loop rnd 15 (st + 1) = (cs, st')"
    by fastforce
  then have "randstr_loop rnd (Suc 15) st = (0 # cs, st')"
    using assms arr unfolding randstr_loop.simps by (simp add: randnum_def)
  then show ?thesis
    by (simp add: randstr_def)
qed

theorem randstr_terminator_witness: "\<exists>cs st'. randstr (\<lambda>_. 61) 7 = (0 # cs, st')"
  by (rule randstr_terminator) simp

text \<open>A geohash decodes to a point near the one it encodes: every character halves the error of each
  coordinate, for points in the cube of the given size.\<close>

theorem geohash_accuracy:
  fixes p :: "'a::linordered_field vec3"
  assumes "0 < len" "\<bar>vx p\<bar> \<le> 2 * len" "\<bar>vy p\<bar> \<le> 2 * len" "\<bar>vz p\<bar> \<le> 2 * len"
  shows "\<exists>v. GeoHashDecode len (GeoHash n len p (vec 0 0 0)) = (True, v) \<and>
    \<bar>vx p - vx v\<bar> \<le> 2 * len / 2 ^ n \<and> \<bar>vy p - vy v\<bar> \<le> 2 * len / 2 ^ n \<and> \<bar>vz p - vz v\<bar> \<le> 2 * len / 2 ^ n"
  using geohash_decode_path [of len p "vec 0 0 0" n] assms by (simp add: GeoHashDecode_def vec_def)

theorem geohash_accuracy_witness:
  "\<exists>v. GeoHashDecode (4 :: rat) (GeoHash 3 (4 :: rat) (vec 1 (-2) 7) (vec 0 0 0)) = (True, v) \<and>
    \<bar>1 - vx v\<bar> \<le> 1 \<and> \<bar>- 2 - vy v\<bar> \<le> 1 \<and> \<bar>7 - vz v\<bar> \<le> 1"
  using geohash_accuracy [of "4 :: rat" "vec 1 (-2) 7" 3] by (simp add: vec_def)

text \<open>The third component of the vector product is wrong: the product of the unit vectors along the
  first two axes is zero, and not the third unit vector.\<close>

theorem vec_cross_wrong:
  "vec_cross (vec (1 :: 'a::linordered_field) 0 0) (vec 0 1 0) = vec 0 0 0"
  by (simp add: vec_cross_def vec_def)

end
