(* ===== verification/Aes.thy ===== *)
theory Aes
  imports Prelude
begin

text \<open>
  The AES-128 block cipher of \<^verbatim>\<open>core/aes/aes.c\<close>: the substitution tables, the key
  schedule, the round functions on the 4x4 state, the cipher and its inverse, and the ECB and
  CBC entry points.  The packet encryption of \<^verbatim>\<open>core/crypt.hpp\<close> and the registration
  packet of \<^verbatim>\<open>core/ysdb.hpp\<close> call the ECB entry points.

  The file-scope variables of the source are the record \<open>aes\<close>; \<open>state\<close> is the caller's
  output block, a list of sixteen bytes in which \<open>(*state)[i][j]\<close> is element \<open>4 * i + j\<close>.
  Loops with constant bounds are folds over their index range, with the stores in source order.
\<close>

section \<open>Constants and tables\<close>

definition Nb :: nat where "Nb = 4"
definition Nk :: nat where "Nk = 4"
definition KEYLEN :: nat where "KEYLEN = 16"
definition Nr :: nat where "Nr = 10"

lemmas aes_consts [simp] = Nb_def Nk_def KEYLEN_def Nr_def

definition sbox :: bytes where
  "sbox = [0x63, 0x7c, 0x77, 0x7b, 0xf2, 0x6b, 0x6f, 0xc5, 0x30, 0x01, 0x67, 0x2b, 0xfe, 0xd7, 0xab, 0x76,
    0xca, 0x82, 0xc9, 0x7d, 0xfa, 0x59, 0x47, 0xf0, 0xad, 0xd4, 0xa2, 0xaf, 0x9c, 0xa4, 0x72, 0xc0,
    0xb7, 0xfd, 0x93, 0x26, 0x36, 0x3f, 0xf7, 0xcc, 0x34, 0xa5, 0xe5, 0xf1, 0x71, 0xd8, 0x31, 0x15,
    0x04, 0xc7, 0x23, 0xc3, 0x18, 0x96, 0x05, 0x9a, 0x07, 0x12, 0x80, 0xe2, 0xeb, 0x27, 0xb2, 0x75,
    0x09, 0x83, 0x2c, 0x1a, 0x1b, 0x6e, 0x5a, 0xa0, 0x52, 0x3b, 0xd6, 0xb3, 0x29, 0xe3, 0x2f, 0x84,
    0x53, 0xd1, 0x00, 0xed, 0x20, 0xfc, 0xb1, 0x5b, 0x6a, 0xcb, 0xbe, 0x39, 0x4a, 0x4c, 0x58, 0xcf,
    0xd0, 0xef, 0xaa, 0xfb, 0x43, 0x4d, 0x33, 0x85, 0x45, 0xf9, 0x02, 0x7f, 0x50, 0x3c, 0x9f, 0xa8,
    0x51, 0xa3, 0x40, 0x8f, 0x92, 0x9d, 0x38, 0xf5, 0xbc, 0xb6, 0xda, 0x21, 0x10, 0xff, 0xf3, 0xd2,
    0xcd, 0x0c, 0x13, 0xec, 0x5f, 0x97, 0x44, 0x17, 0xc4, 0xa7, 0x7e, 0x3d, 0x64, 0x5d, 0x19, 0x73,
    0x60, 0x81, 0x4f, 0xdc, 0x22, 0x2a, 0x90, 0x88, 0x46, 0xee, 0xb8, 0x14, 0xde, 0x5e, 0x0b, 0xdb,
    0xe0, 0x32, 0x3a, 0x0a, 0x49, 0x06, 0x24, 0x5c, 0xc2, 0xd3, 0xac, 0x62, 0x91, 0x95, 0xe4, 0x79,
    0xe7, 0xc8, 0x37, 0x6d, 0x8d, 0xd5, 0x4e, 0xa9, 0x6c, 0x56, 0xf4, 0xea, 0x65, 0x7a, 0xae, 0x08,
    0xba, 0x78, 0x25, 0x2e, 0x1c, 0xa6, 0xb4, 0xc6, 0xe8, 0xdd, 0x74, 0x1f, 0x4b, 0xbd, 0x8b, 0x8a,
    0x70, 0x3e, 0xb5, 0x66, 0x48, 0x03, 0xf6, 0x0e, 0x61, 0x35, 0x57, 0xb9, 0x86, 0xc1, 0x1d, 0x9e,
    0xe1, 0xf8, 0x98, 0x11, 0x69, 0xd9, 0x8e, 0x94, 0x9b, 0x1e, 0x87, 0xe9, 0xce, 0x55, 0x28, 0xdf,
    0x8c, 0xa1, 0x89, 0x0d, 0xbf, 0xe6, 0x42, 0x68, 0x41, 0x99, 0x2d, 0x0f, 0xb0, 0x54, 0xbb, 0x16]"

definition rsbox :: bytes where
  "rsbox = [0x52, 0x09, 0x6a, 0xd5, 0x30, 0x36, 0xa5, 0x38, 0xbf, 0x40, 0xa3, 0x9e, 0x81, 0xf3, 0xd7, 0xfb,
    0x7c, 0xe3, 0x39, 0x82, 0x9b, 0x2f, 0xff, 0x87, 0x34, 0x8e, 0x43, 0x44, 0xc4, 0xde, 0xe9, 0xcb,
    0x54, 0x7b, 0x94, 0x32, 0xa6, 0xc2, 0x23, 0x3d, 0xee, 0x4c, 0x95, 0x0b, 0x42, 0xfa, 0xc3, 0x4e,
    0x08, 0x2e, 0xa1, 0x66, 0x28, 0xd9, 0x24, 0xb2, 0x76, 0x5b, 0xa2, 0x49, 0x6d, 0x8b, 0xd1, 0x25,
    0x72, 0xf8, 0xf6, 0x64, 0x86, 0x68, 0x98, 0x16, 0xd4, 0xa4, 0x5c, 0xcc, 0x5d, 0x65, 0xb6, 0x92,
    0x6c, 0x70, 0x48, 0x50, 0xfd, 0xed, 0xb9, 0xda, 0x5e, 0x15, 0x46, 0x57, 0xa7, 0x8d, 0x9d, 0x84,
    0x90, 0xd8, 0xab, 0x00, 0x8c, 0xbc, 0xd3, 0x0a, 0xf7, 0xe4, 0x58, 0x05, 0xb8, 0xb3, 0x45, 0x06,
    0xd0, 0x2c, 0x1e, 0x8f, 0xca, 0x3f, 0x0f, 0x02, 0xc1, 0xaf, 0xbd, 0x03, 0x01, 0x13, 0x8a, 0x6b,
    0x3a, 0x91, 0x11, 0x41, 0x4f, 0x67, 0xdc, 0xea, 0x97, 0xf2, 0xcf, 0xce, 0xf0, 0xb4, 0xe6, 0x73,
    0x96, 0xac, 0x74, 0x22, 0xe7, 0xad, 0x35, 0x85, 0xe2, 0xf9, 0x37, 0xe8, 0x1c, 0x75, 0xdf, 0x6e,
    0x47, 0xf1, 0x1a, 0x71, 0x1d, 0x29, 0xc5, 0x89, 0x6f, 0xb7, 0x62, 0x0e, 0xaa, 0x18, 0xbe, 0x1b,
    0xfc, 0x56, 0x3e, 0x4b, 0xc6, 0xd2, 0x79, 0x20, 0x9a, 0xdb, 0xc0, 0xfe, 0x78, 0xcd, 0x5a, 0xf4,
    0x1f, 0xdd, 0xa8, 0x33, 0x88, 0x07, 0xc7, 0x31, 0xb1, 0x12, 0x10, 0x59, 0x27, 0x80, 0xec, 0x5f,
    0x60, 0x51, 0x7f, 0xa9, 0x19, 0xb5, 0x4a, 0x0d, 0x2d, 0xe5, 0x7a, 0x9f, 0x93, 0xc9, 0x9c, 0xef,
    0xa0, 0xe0, 0x3b, 0x4d, 0xae, 0x2a, 0xf5, 0xb0, 0xc8, 0xeb, 0xbb, 0x3c, 0x83, 0x53, 0x99, 0x61,
    0x17, 0x2b, 0x04, 0x7e, 0xba, 0x77, 0xd6, 0x26, 0xe1, 0x69, 0x14, 0x63, 0x55, 0x21, 0x0c, 0x7d]"

definition Rcon :: bytes where
  "Rcon = [0x8d, 0x01, 0x02, 0x04, 0x08, 0x10, 0x20, 0x40, 0x80, 0x1b, 0x36, 0x6c, 0xd8, 0xab, 0x4d, 0x9a,
    0x2f, 0x5e, 0xbc, 0x63, 0xc6, 0x97, 0x35, 0x6a, 0xd4, 0xb3, 0x7d, 0xfa, 0xef, 0xc5, 0x91, 0x39,
    0x72, 0xe4, 0xd3, 0xbd, 0x61, 0xc2, 0x9f, 0x25, 0x4a, 0x94, 0x33, 0x66, 0xcc, 0x83, 0x1d, 0x3a,
    0x74, 0xe8, 0xcb, 0x8d, 0x01, 0x02, 0x04, 0x08, 0x10, 0x20, 0x40, 0x80, 0x1b, 0x36, 0x6c, 0xd8,
    0xab, 0x4d, 0x9a, 0x2f, 0x5e, 0xbc, 0x63, 0xc6, 0x97, 0x35, 0x6a, 0xd4, 0xb3, 0x7d, 0xfa, 0xef,
    0xc5, 0x91, 0x39, 0x72, 0xe4, 0xd3, 0xbd, 0x61, 0xc2, 0x9f, 0x25, 0x4a, 0x94, 0x33, 0x66, 0xcc,
    0x83, 0x1d, 0x3a, 0x74, 0xe8, 0xcb, 0x8d, 0x01, 0x02, 0x04, 0x08, 0x10, 0x20, 0x40, 0x80, 0x1b,
    0x36, 0x6c, 0xd8, 0xab, 0x4d, 0x9a, 0x2f, 0x5e, 0xbc, 0x63, 0xc6, 0x97, 0x35, 0x6a, 0xd4, 0xb3,
    0x7d, 0xfa, 0xef, 0xc5, 0x91, 0x39, 0x72, 0xe4, 0xd3, 0xbd, 0x61, 0xc2, 0x9f, 0x25, 0x4a, 0x94,
    0x33, 0x66, 0xcc, 0x83, 0x1d, 0x3a, 0x74, 0xe8, 0xcb, 0x8d, 0x01, 0x02, 0x04, 0x08, 0x10, 0x20,
    0x40, 0x80, 0x1b, 0x36, 0x6c, 0xd8, 0xab, 0x4d, 0x9a, 0x2f, 0x5e, 0xbc, 0x63, 0xc6, 0x97, 0x35,
    0x6a, 0xd4, 0xb3, 0x7d, 0xfa, 0xef, 0xc5, 0x91, 0x39, 0x72, 0xe4, 0xd3, 0xbd, 0x61, 0xc2, 0x9f,
    0x25, 0x4a, 0x94, 0x33, 0x66, 0xcc, 0x83, 0x1d, 0x3a, 0x74, 0xe8, 0xcb, 0x8d, 0x01, 0x02, 0x04,
    0x08, 0x10, 0x20, 0x40, 0x80, 0x1b, 0x36, 0x6c, 0xd8, 0xab, 0x4d, 0x9a, 0x2f, 0x5e, 0xbc, 0x63,
    0xc6, 0x97, 0x35, 0x6a, 0xd4, 0xb3, 0x7d, 0xfa, 0xef, 0xc5, 0x91, 0x39, 0x72, 0xe4, 0xd3, 0xbd,
    0x61, 0xc2, 0x9f, 0x25, 0x4a, 0x94, 0x33, 0x66, 0xcc, 0x83, 0x1d, 0x3a, 0x74, 0xe8, 0xcb]"

text \<open>The static variables \<open>RoundKey\<close> and \<open>Iv\<close>; the bytes \<open>Iv\<close> points to are kept here.\<close>

record aes =
  RoundKey :: bytes
  Iv :: bytes

section \<open>Private functions\<close>

definition getSBoxValue :: "u8 \<Rightarrow> u8" where
  "getSBoxValue num = sbox ! unat num"

definition getSBoxInvert :: "u8 \<Rightarrow> u8" where
  "getSBoxInvert num = rsbox ! unat num"

text \<open>One iteration of the second loop of \<open>KeyExpansion\<close>, for the word with index \<open>i\<close>: the
  array \<open>tempa\<close> after the branch, and the four stores.\<close>

definition KeyExpansion_tempa :: "nat \<Rightarrow> bytes \<Rightarrow> bytes" where
  "KeyExpansion_tempa i rk =
    (let tempa = map (\<lambda>j. rk ! ((i - 1) * 4 + j)) [0..<4]
     in if i mod Nk = 0 then
          (let k = tempa ! 0;
               tempa = tempa[0 := tempa ! 1];
               tempa = tempa[1 := tempa ! 2];
               tempa = tempa[2 := tempa ! 3];
               tempa = tempa[3 := k];
               tempa = map getSBoxValue tempa
           in tempa[0 := tempa ! 0 XOR Rcon ! (i div Nk)])
        else if 6 < Nk \<and> i mod Nk = 4 then map getSBoxValue tempa
        else tempa)"

definition KeyExpansion_word :: "nat \<Rightarrow> bytes \<Rightarrow> bytes" where
  "KeyExpansion_word i rk =
    (let tempa = KeyExpansion_tempa i rk
     in fold (\<lambda>j rk. rk[i * 4 + j := rk ! ((i - Nk) * 4 + j) XOR tempa ! j]) [0..<4] rk)"

definition KeyExpansion :: "bytes \<Rightarrow> bytes \<Rightarrow> bytes" where
  "KeyExpansion key rk =
    (let rk = fold (\<lambda>i rk. fold (\<lambda>j rk. rk[i * 4 + j := key ! (i * 4 + j)]) [0..<4] rk) [0..<Nk] rk
     in fold KeyExpansion_word [Nk..<Nb * (Nr + 1)] rk)"

definition AddRoundKey :: "bytes \<Rightarrow> nat \<Rightarrow> bytes \<Rightarrow> bytes" where
  "AddRoundKey rk round st =
    fold (\<lambda>i st. fold (\<lambda>j st. st[4 * i + j := st ! (4 * i + j) XOR rk ! (round * Nb * 4 + i * Nb + j)])
      [0..<4] st) [0..<4] st"

definition SubBytes :: "bytes \<Rightarrow> bytes" where
  "SubBytes st =
    fold (\<lambda>i st. fold (\<lambda>j st. st[4 * j + i := getSBoxValue (st ! (4 * j + i))]) [0..<4] st) [0..<4] st"

definition st_get :: "bytes \<Rightarrow> nat \<Rightarrow> nat \<Rightarrow> u8" where
  "st_get st i j = st ! (4 * i + j)"

definition st_set :: "bytes \<Rightarrow> nat \<Rightarrow> nat \<Rightarrow> u8 \<Rightarrow> bytes" where
  "st_set st i j v = st[4 * i + j := v]"

definition ShiftRows :: "bytes \<Rightarrow> bytes" where
  "ShiftRows st =
    (let temp = st_get st 0 1;
         st = st_set st 0 1 (st_get st 1 1);
         st = st_set st 1 1 (st_get st 2 1);
         st = st_set st 2 1 (st_get st 3 1);
         st = st_set st 3 1 temp;
         temp = st_get st 0 2;
         st = st_set st 0 2 (st_get st 2 2);
         st = st_set st 2 2 temp;
         temp = st_get st 1 2;
         st = st_set st 1 2 (st_get st 3 2);
         st = st_set st 3 2 temp;
         temp = st_get st 0 3;
         st = st_set st 0 3 (st_get st 3 3);
         st = st_set st 3 3 (st_get st 2 3);
         st = st_set st 2 3 (st_get st 1 3);
         st = st_set st 1 3 temp
     in st)"

definition xtime :: "u8 \<Rightarrow> u8" where
  "xtime x = push_bit 1 x XOR ((drop_bit 7 x AND 1) * 0x1b)"

text \<open>The body of the loop of \<open>MixColumns\<close> for column \<open>i\<close>.\<close>

definition MixColumn :: "nat \<Rightarrow> bytes \<Rightarrow> bytes" where
  "MixColumn i st =
    (let t = st_get st i 0;
         Tmp = st_get st i 0 XOR st_get st i 1 XOR st_get st i 2 XOR st_get st i 3;
         Tm = xtime (st_get st i 0 XOR st_get st i 1);
         st = st_set st i 0 (st_get st i 0 XOR (Tm XOR Tmp));
         Tm = xtime (st_get st i 1 XOR st_get st i 2);
         st = st_set st i 1 (st_get st i 1 XOR (Tm XOR Tmp));
         Tm = xtime (st_get st i 2 XOR st_get st i 3);
         st = st_set st i 2 (st_get st i 2 XOR (Tm XOR Tmp));
         Tm = xtime (st_get st i 3 XOR t)
     in st_set st i 3 (st_get st i 3 XOR (Tm XOR Tmp)))"

definition MixColumns :: "bytes \<Rightarrow> bytes" where
  "MixColumns st = fold MixColumn [0..<4] st"

definition Multiply :: "u8 \<Rightarrow> u8 \<Rightarrow> u8" where
  "Multiply x y =
    ((y AND 1) * x) XOR
    ((drop_bit 1 y AND 1) * xtime x) XOR
    ((drop_bit 2 y AND 1) * xtime (xtime x)) XOR
    ((drop_bit 3 y AND 1) * xtime (xtime (xtime x))) XOR
    ((drop_bit 4 y AND 1) * xtime (xtime (xtime (xtime x))))"

definition InvMixColumn :: "nat \<Rightarrow> bytes \<Rightarrow> bytes" where
  "InvMixColumn i st =
    (let a = st_get st i 0; b = st_get st i 1; c = st_get st i 2; d = st_get st i 3;
         st = st_set st i 0 (Multiply a 0x0e XOR Multiply b 0x0b XOR Multiply c 0x0d XOR Multiply d 0x09);
         st = st_set st i 1 (Multiply a 0x09 XOR Multiply b 0x0e XOR Multiply c 0x0b XOR Multiply d 0x0d);
         st = st_set st i 2 (Multiply a 0x0d XOR Multiply b 0x09 XOR Multiply c 0x0e XOR Multiply d 0x0b)
     in st_set st i 3 (Multiply a 0x0b XOR Multiply b 0x0d XOR Multiply c 0x09 XOR Multiply d 0x0e))"

definition InvMixColumns :: "bytes \<Rightarrow> bytes" where
  "InvMixColumns st = fold InvMixColumn [0..<4] st"

definition InvSubBytes :: "bytes \<Rightarrow> bytes" where
  "InvSubBytes st =
    fold (\<lambda>i st. fold (\<lambda>j st. st[4 * j + i := getSBoxInvert (st ! (4 * j + i))]) [0..<4] st) [0..<4] st"

definition InvShiftRows :: "bytes \<Rightarrow> bytes" where
  "InvShiftRows st =
    (let temp = st_get st 3 1;
         st = st_set st 3 1 (st_get st 2 1);
         st = st_set st 2 1 (st_get st 1 1);
         st = st_set st 1 1 (st_get st 0 1);
         st = st_set st 0 1 temp;
         temp = st_get st 0 2;
         st = st_set st 0 2 (st_get st 2 2);
         st = st_set st 2 2 temp;
         temp = st_get st 1 2;
         st = st_set st 1 2 (st_get st 3 2);
         st = st_set st 3 2 temp;
         temp = st_get st 0 3;
         st = st_set st 0 3 (st_get st 1 3);
         st = st_set st 1 3 (st_get st 2 3);
         st = st_set st 2 3 (st_get st 3 3);
         st = st_set st 3 3 temp
     in st)"

definition Cipher :: "bytes \<Rightarrow> bytes \<Rightarrow> bytes" where
  "Cipher rk st =
    (let st = AddRoundKey rk 0 st;
         st = fold (\<lambda>round st. AddRoundKey rk round (MixColumns (ShiftRows (SubBytes st)))) [1..<Nr] st
     in AddRoundKey rk Nr (ShiftRows (SubBytes st)))"

definition InvCipher :: "bytes \<Rightarrow> bytes \<Rightarrow> bytes" where
  "InvCipher rk st =
    (let st = AddRoundKey rk Nr st;
         st = fold (\<lambda>round st. InvMixColumns (AddRoundKey rk round (InvSubBytes (InvShiftRows st))))
                (rev [1..<Nr]) st
     in AddRoundKey rk 0 (InvSubBytes (InvShiftRows st)))"

definition BlockCopy :: "bytes \<Rightarrow> bytes \<Rightarrow> bytes" where
  "BlockCopy output input = fold (\<lambda>i out. out[i := input ! i]) [0..<KEYLEN] output"

section \<open>Public functions: ECB\<close>

definition AES128_ECB_encrypt :: "aes \<Rightarrow> bytes \<Rightarrow> bytes \<Rightarrow> bytes \<Rightarrow> aes \<times> bytes" where
  "AES128_ECB_encrypt g input key output =
    (let output = BlockCopy output input;
         g = g\<lparr>RoundKey := KeyExpansion key (RoundKey g)\<rparr>
     in (g, Cipher (RoundKey g) output))"

definition AES128_ECB_decrypt :: "aes \<Rightarrow> bytes \<Rightarrow> bytes \<Rightarrow> bytes \<Rightarrow> aes \<times> bytes" where
  "AES128_ECB_decrypt g input key output =
    (let output = BlockCopy output input;
         g = g\<lparr>RoundKey := KeyExpansion key (RoundKey g)\<rparr>
     in (g, InvCipher (RoundKey g) output))"

section \<open>Public functions: CBC\<close>

definition XorWithIv :: "bytes \<Rightarrow> bytes \<Rightarrow> bytes" where
  "XorWithIv iv buf = fold (\<lambda>i buf. buf[i := buf ! i XOR iv ! i]) [0..<KEYLEN] buf"

text \<open>The sixteen bytes at an offset of a buffer; an access past the end of the buffer is \<open>None\<close>,
  since the source checks no bounds.\<close>

definition block_at :: "nat \<Rightarrow> bytes \<Rightarrow> bytes option" where
  "block_at off buf = (if off + 16 \<le> length buf then Some (take 16 (drop off buf)) else None)"

definition put_block :: "nat \<Rightarrow> bytes \<Rightarrow> bytes \<Rightarrow> bytes" where
  "put_block off b buf = take off buf @ b @ drop (off + 16) buf"

text \<open>The block loops.  The state is the bytes \<open>Iv\<close> points to, the input and the output buffer;
  the encryption loop stores the masked block back into the input buffer.\<close>

fun cbc_encrypt_blocks ::
  "bytes \<Rightarrow> nat list \<Rightarrow> bytes \<times> bytes \<times> bytes \<Rightarrow> (bytes \<times> bytes \<times> bytes) option" where
  "cbc_encrypt_blocks rk [] s = Some s"
| "cbc_encrypt_blocks rk (off # offs) (iv, inp, out) =
    (case block_at off inp of
      None \<Rightarrow> None
    | Some b \<Rightarrow>
        (let b = XorWithIv iv b; inp = put_block off b inp
         in case block_at off out of
              None \<Rightarrow> None
            | Some c \<Rightarrow>
                (let c = Cipher rk (BlockCopy c b)
                 in cbc_encrypt_blocks rk offs (c, inp, put_block off c out))))"

fun cbc_decrypt_blocks ::
  "bytes \<Rightarrow> nat list \<Rightarrow> bytes \<times> bytes \<times> bytes \<Rightarrow> (bytes \<times> bytes \<times> bytes) option" where
  "cbc_decrypt_blocks rk [] s = Some s"
| "cbc_decrypt_blocks rk (off # offs) (iv, inp, out) =
    (case (block_at off inp, block_at off out) of
      (Some b, Some c) \<Rightarrow>
        (let c = XorWithIv iv (InvCipher rk (BlockCopy c b))
         in cbc_decrypt_blocks rk offs (b, inp, put_block off c out))
    | _ \<Rightarrow> None)"

definition cbc_offsets :: "nat \<Rightarrow> nat list" where
  "cbc_offsets len = map ((*) KEYLEN) [0..<(len + (KEYLEN - 1)) div KEYLEN]"

text \<open>The block after the last full one, copied, zero padded and transformed by \<open>f\<close>.\<close>

definition cbc_remainder :: "(bytes \<Rightarrow> bytes) \<Rightarrow> nat \<Rightarrow> nat \<Rightarrow> bytes \<Rightarrow> bytes \<Rightarrow> bytes option" where
  "cbc_remainder f rem off inp out =
    (case (block_at off inp, block_at off out) of
      (Some b, Some c) \<Rightarrow>
        Some (put_block off (f (take rem (BlockCopy c b) @ replicate (KEYLEN - rem) 0)) out)
    | _ \<Rightarrow> None)"

definition cbc_setup :: "aes \<Rightarrow> bytes \<Rightarrow> bytes \<Rightarrow> bytes option \<Rightarrow> bytes option \<Rightarrow> (aes \<times> bytes) option" where
  "cbc_setup g output input key iv =
    (case (block_at 0 input, block_at 0 output) of
      (Some b, Some c) \<Rightarrow>
        (let output = put_block 0 (BlockCopy c b) output;
             g = (case key of None \<Rightarrow> g | Some k \<Rightarrow> g\<lparr>RoundKey := KeyExpansion k (RoundKey g)\<rparr>);
             g = (case iv of None \<Rightarrow> g | Some v \<Rightarrow> g\<lparr>Iv := v\<rparr>)
         in Some (g, output))
    | _ \<Rightarrow> None)"

definition AES128_CBC_encrypt_buffer ::
  "aes \<Rightarrow> bytes \<Rightarrow> bytes \<Rightarrow> u32 \<Rightarrow> bytes option \<Rightarrow> bytes option \<Rightarrow> (aes \<times> bytes \<times> bytes) option" where
  "AES128_CBC_encrypt_buffer g output input len key iv =
    (case cbc_setup g output input key iv of
      None \<Rightarrow> None
    | Some (g, output) \<Rightarrow>
        (case cbc_encrypt_blocks (RoundKey g) (cbc_offsets (unat len)) (Iv g, input, output) of
          None \<Rightarrow> None
        | Some (iv', input, output) \<Rightarrow>
            (let g = g\<lparr>Iv := iv'\<rparr>; rem = unat len mod KEYLEN
             in if rem = 0 then Some (g, output, input)
                else map_option (\<lambda>output. (g, output, input))
                  (cbc_remainder (Cipher (RoundKey g)) rem
                    (KEYLEN * length (cbc_offsets (unat len))) input output))))"

definition AES128_CBC_decrypt_buffer ::
  "aes \<Rightarrow> bytes \<Rightarrow> bytes \<Rightarrow> u32 \<Rightarrow> bytes option \<Rightarrow> bytes option \<Rightarrow> (aes \<times> bytes \<times> bytes) option" where
  "AES128_CBC_decrypt_buffer g output input len key iv =
    (case cbc_setup g output input key iv of
      None \<Rightarrow> None
    | Some (g, output) \<Rightarrow>
        (case cbc_decrypt_blocks (RoundKey g) (cbc_offsets (unat len)) (Iv g, input, output) of
          None \<Rightarrow> None
        | Some (iv', input, output) \<Rightarrow>
            (let g = g\<lparr>Iv := iv'\<rparr>; rem = unat len mod KEYLEN
             in if rem = 0 then Some (g, output, input)
                else map_option (\<lambda>output. (g, output, input))
                  (cbc_remainder (InvCipher (RoundKey g)) rem
                    (KEYLEN * length (cbc_offsets (unat len))) input output))))"

section \<open>The S-box tables are inverse to each other\<close>

lemma rsbox_sbox_table: "map (\<lambda>b. rsbox ! unat b) sbox = map word_of_nat [0..<256]"
  by code_simp

lemma length_sbox [simp]: "length sbox = 256"
  by (simp add: sbox_def)

lemma getSBox_inverse [simp]: "getSBoxInvert (getSBoxValue x) = x"
proof -
  have x: "unat x < 256"
    using unsigned_less [of x] by simp
  have "map (\<lambda>b. rsbox ! unat b) sbox ! unat x = map word_of_nat [0..<256] ! unat x"
    by (simp only: rsbox_sbox_table)
  with x have "rsbox ! unat (sbox ! unat x) = word_of_nat (unat x)"
    by simp
  then show ?thesis
    by (simp add: getSBoxInvert_def getSBoxValue_def)
qed

section \<open>Each round function and its inverse\<close>

lemma st_set_length [simp]: "length (st_set st i j v) = length st"
  by (simp add: st_set_def)

lemma length_AddRoundKey [simp]: "length (AddRoundKey rk r st) = length st"
  by (simp add: AddRoundKey_def fold_invariant_length)

lemma length_SubBytes [simp]: "length (SubBytes st) = length st"
  by (simp add: SubBytes_def fold_invariant_length)

lemma length_InvSubBytes [simp]: "length (InvSubBytes st) = length st"
  by (simp add: InvSubBytes_def fold_invariant_length)

lemma length_ShiftRows [simp]: "length (ShiftRows st) = length st"
  by (simp add: ShiftRows_def Let_def)

lemma length_MixColumns [simp]: "length (MixColumns st) = length st"
  unfolding MixColumns_def by (rule fold_invariant_length) (simp add: MixColumn_def Let_def)

lemma length_InvShiftRows [simp]: "length (InvShiftRows st) = length st"
  by (simp add: InvShiftRows_def Let_def)

lemma length_InvMixColumns [simp]: "length (InvMixColumns st) = length st"
  unfolding InvMixColumns_def by (rule fold_invariant_length) (simp add: InvMixColumn_def Let_def)

lemma length_BlockCopy [simp]: "length (BlockCopy out inp) = length out"
  by (simp add: BlockCopy_def fold_invariant_length)

lemma length_16_nth: "length xs = 16 \<Longrightarrow> xs = map ((!) xs) [0..<16]"
  by (simp add: list_eq_iff_nth_eq)

lemma SubBytes_map: "length st = 16 \<Longrightarrow> SubBytes st = map getSBoxValue st"
  by (erule length_16_exE) (simp add: SubBytes_def list_norm)

lemma InvSubBytes_map: "length st = 16 \<Longrightarrow> InvSubBytes st = map getSBoxInvert st"
  by (erule length_16_exE) (simp add: InvSubBytes_def list_norm)

lemma InvSubBytes_SubBytes: "length st = 16 \<Longrightarrow> InvSubBytes (SubBytes st) = st"
  by (simp add: SubBytes_map InvSubBytes_map comp_def)

lemma InvShiftRows_ShiftRows: "length st = 16 \<Longrightarrow> InvShiftRows (ShiftRows st) = st"
  by (erule length_16_exE) (simp add: ShiftRows_def InvShiftRows_def st_get_def st_set_def Let_def)

lemma AddRoundKey_twice: "length st = 16 \<Longrightarrow> AddRoundKey rk r (AddRoundKey rk r st) = st"
  by (erule length_16_exE) (simp add: AddRoundKey_def list_norm)

lemma xtime_xor: "xtime (a XOR b) = xtime a XOR xtime b"
proof -
  have "((x XOR y) AND 1) * 0x1b = ((x AND 1) * 0x1b) XOR ((y AND 1) * (0x1b :: u8))" for x y :: u8
    using word_1_and_cases [of x] word_1_and_cases [of y] by (auto simp: bit.conj_xor_distrib2)
  then show ?thesis
    by (simp add: xtime_def push_bit_xor drop_bit_xor xor_norm)
qed

lemma BlockCopy_16: "length out = 16 \<Longrightarrow> length inp = 16 \<Longrightarrow> BlockCopy out inp = inp"
  by (elim length_16_exE) (simp add: BlockCopy_def list_norm)


text \<open>The column transforms on four bytes, as \<open>MixColumns\<close> and \<open>InvMixColumns\<close> apply them.\<close>

definition mix4 :: "u8 \<Rightarrow> u8 \<Rightarrow> u8 \<Rightarrow> u8 \<Rightarrow> bytes" where
  "mix4 a b c d =
    [xtime a XOR xtime b XOR b XOR c XOR d,
     a XOR xtime b XOR xtime c XOR c XOR d,
     a XOR b XOR xtime c XOR xtime d XOR d,
     xtime a XOR a XOR b XOR c XOR xtime d]"

lemma MixColumns_mix4:
  "MixColumns [a,b,c,d,e,f,g,h,i,j,k,l,m,n,p,q] = mix4 a b c d @ mix4 e f g h @ mix4 i j k l @ mix4 m n p q"
  by (simp add: MixColumns_def MixColumn_def st_get_def st_set_def Let_def list_norm mix4_def
      xtime_xor xor_norm)

lemma Multiply_consts:
  "Multiply x 0x0e = xtime x XOR xtime (xtime x) XOR xtime (xtime (xtime x))"
  "Multiply x 0x0b = x XOR xtime x XOR xtime (xtime (xtime x))"
  "Multiply x 0x0d = x XOR xtime (xtime x) XOR xtime (xtime (xtime x))"
  "Multiply x 0x09 = x XOR xtime (xtime (xtime x))"
  by (simp_all add: Multiply_def)

definition invmix4 :: "u8 \<Rightarrow> u8 \<Rightarrow> u8 \<Rightarrow> u8 \<Rightarrow> bytes" where
  "invmix4 a b c d =
    [Multiply a 0x0e XOR Multiply b 0x0b XOR Multiply c 0x0d XOR Multiply d 0x09,
     Multiply a 0x09 XOR Multiply b 0x0e XOR Multiply c 0x0b XOR Multiply d 0x0d,
     Multiply a 0x0d XOR Multiply b 0x09 XOR Multiply c 0x0e XOR Multiply d 0x0b,
     Multiply a 0x0b XOR Multiply b 0x0d XOR Multiply c 0x09 XOR Multiply d 0x0e]"

lemma InvMixColumns_invmix4:
  "InvMixColumns [a,b,c,d,e,f,g,h,i,j,k,l,m,n,p,q] =
    invmix4 a b c d @ invmix4 e f g h @ invmix4 i j k l @ invmix4 m n p q"
  by (simp add: InvMixColumns_def InvMixColumn_def st_get_def st_set_def Let_def list_norm invmix4_def)

lemma invmix4_mix4:
  "mix4 w x y z = [a, b, c, d] \<Longrightarrow> invmix4 a b c d = [w, x, y, z]"
  by (auto simp: mix4_def invmix4_def Multiply_consts xtime_xor xor_norm)

lemma mix4_obtains:
  obtains a' b' c' d' where "mix4 a b c d = [a', b', c', d']"
  by (simp add: mix4_def)

lemma InvMixColumns_MixColumns:
  assumes "length st = 16"
  shows "InvMixColumns (MixColumns st) = st"
proof -
  from assms obtain a b c d e f g h i j k l m n p q
    where st: "st = [a,b,c,d,e,f,g,h,i,j,k,l,m,n,p,q]" by (rule length_16_exE)
  obtain a' b' c' d' where 1: "mix4 a b c d = [a', b', c', d']" by (rule mix4_obtains)
  obtain e' f' g' h' where 2: "mix4 e f g h = [e', f', g', h']" by (rule mix4_obtains)
  obtain i' j' k' l' where 3: "mix4 i j k l = [i', j', k', l']" by (rule mix4_obtains)
  obtain m' n' p' q' where 4: "mix4 m n p q = [m', n', p', q']" by (rule mix4_obtains)
  show ?thesis
    using invmix4_mix4 [OF 1] invmix4_mix4 [OF 2] invmix4_mix4 [OF 3] invmix4_mix4 [OF 4]
    by (simp add: st MixColumns_mix4 1 2 3 4 InvMixColumns_invmix4)
qed

lemmas round_inverse = InvSubBytes_SubBytes InvShiftRows_ShiftRows InvMixColumns_MixColumns
  AddRoundKey_twice

section \<open>The cipher and its inverse\<close>

lemma cipher_rounds_length:
  "length (fold (\<lambda>r st. AddRoundKey rk r (MixColumns (ShiftRows (SubBytes st)))) rs st) = length st"
  by (rule fold_invariant_length) simp

lemma cipher_rounds_inverse:
  assumes "length st = 16"
  shows "fold (\<lambda>r st. InvMixColumns (AddRoundKey rk r (InvSubBytes (InvShiftRows st)))) (rev rs)
           (ShiftRows (SubBytes
             (fold (\<lambda>r st. AddRoundKey rk r (MixColumns (ShiftRows (SubBytes st)))) rs st)))
         = ShiftRows (SubBytes st)"
  using assms
  by (induction rs rule: rev_induct) (simp_all add: round_inverse cipher_rounds_length)

lemma InvCipher_Cipher: "length st = 16 \<Longrightarrow> InvCipher rk (Cipher rk st) = st"
  by (simp add: InvCipher_def Cipher_def Let_def round_inverse cipher_rounds_inverse
      cipher_rounds_length)

lemma length_InvCipher [simp]: "length (InvCipher rk st) = length st"
  by (simp add: InvCipher_def Let_def fold_invariant_length)

lemma length_Cipher [simp]: "length (Cipher rk st) = length st"
  by (simp add: Cipher_def Let_def cipher_rounds_length)

section \<open>The key schedule\<close>

lemma length_KeyExpansion_word [simp]: "length (KeyExpansion_word i rk) = length rk"
  by (simp add: KeyExpansion_word_def Let_def fold_invariant_length)

text \<open>The recurrence of the schedule: word \<open>i\<close> is word \<open>i - 4\<close> plus the transformed
  predecessor, and nothing else changes.\<close>

lemma KeyExpansion_word_nth:
  assumes "4 \<le> i" "4 * i + 4 \<le> length rk" "k < length rk"
  shows "KeyExpansion_word i rk ! k =
    (if 4 * i \<le> k \<and> k < 4 * i + 4 then rk ! (k - 16) XOR KeyExpansion_tempa i rk ! (k - 4 * i)
     else rk ! k)"
proof -
  define t where "t = KeyExpansion_tempa i rk"
  have "i * 4 - 16 + j \<noteq> i * 4 + l" if "j < 4" for j l
    using assms(1) that by arith
  then have *: "KeyExpansion_word i rk =
    rk[i * 4 := rk ! (i * 4 - 16) XOR t ! 0, i * 4 + 1 := rk ! (i * 4 - 15) XOR t ! 1,
       i * 4 + 2 := rk ! (i * 4 - 14) XOR t ! 2, i * 4 + 3 := rk ! (i * 4 - 13) XOR t ! 3]"
    using assms by (simp add: KeyExpansion_word_def t_def [symmetric] upt_4 diff_mult_distrib)
  consider "k < 4 * i" | "k = 4 * i" | "k = 4 * i + 1" | "k = 4 * i + 2" | "k = 4 * i + 3" | "4 * i + 4 \<le> k"
    by linarith
  then show ?thesis
    unfolding t_def [symmetric] * using assms
    by cases (auto simp: nth_list_update mult.commute)
qed

text \<open>Word \<open>i\<close> depends on the words before it only, so what \<open>RoundKey\<close> held before the
  call does not matter.\<close>

lemma KeyExpansion_tempa_cong:
  assumes "\<And>k. k < 4 * i \<Longrightarrow> rk ! k = rk' ! k" and "0 < i"
  shows "KeyExpansion_tempa i rk = KeyExpansion_tempa i rk'"
proof -
  have "map (\<lambda>j. rk ! ((i - 1) * 4 + j)) [0..<4] = map (\<lambda>j. rk' ! ((i - 1) * 4 + j)) [0..<4]"
    using assms(2) by (intro map_cong refl assms(1)) auto
  then show ?thesis
    by (simp only: KeyExpansion_tempa_def)
qed

lemma KeyExpansion_word_agree:
  assumes "length rk = 176" "length rk' = 176" "4 \<le> i" "i < 44"
    and "\<And>k. k < 4 * i \<Longrightarrow> rk ! k = rk' ! k" and "k < 4 * Suc i"
  shows "KeyExpansion_word i rk ! k = KeyExpansion_word i rk' ! k"
proof -
  have "KeyExpansion_tempa i rk = KeyExpansion_tempa i rk'"
    using assms(3,5) by (intro KeyExpansion_tempa_cong) auto
  then show ?thesis
    using assms by (simp add: KeyExpansion_word_nth)
qed

lemma KeyExpansion_words_agree:
  assumes "length rk = 176" "length rk' = 176" "4 \<le> m" "m \<le> n" "n \<le> 44"
    and "\<And>k. k < 4 * m \<Longrightarrow> rk ! k = rk' ! k" and "k < 4 * n"
  shows "fold KeyExpansion_word [m..<n] rk ! k = fold KeyExpansion_word [m..<n] rk' ! k"
  using assms(4-7)
proof (induction n arbitrary: k)
  case 0
  then show ?case by simp
next
  case (Suc n)
  show ?case
  proof (cases "m = Suc n")
    case True
    with Suc.prems show ?thesis by simp
  next
    case False
    with Suc.prems have "m \<le> n" by simp
    then show ?thesis
      using Suc assms(1-3)
      by (simp add: fold_invariant_length KeyExpansion_word_agree)
  qed
qed

lemma KeyExpansion_first:
  assumes "length rk = 176" "k < 16"
  shows "fold (\<lambda>i rk. fold (\<lambda>j rk. rk[i * 4 + j := key ! (i * 4 + j)]) [0..<4] rk) [0..<4] rk ! k = key ! k"
proof -
  from assms(2) have "k \<in> {0..<16}" by simp
  then have "k \<in> set [0,1,2,3,4,5,6,7,8,9,10,11,12,13,14,15]" by (simp only: upt_16 [symmetric] set_upt)
  then show ?thesis using assms(1) by (auto simp: upt_4 numeral_2_eq_2)
qed

lemma length_KeyExpansion [simp]: "length (KeyExpansion key rk) = length rk"
  by (simp add: KeyExpansion_def Let_def fold_invariant_length)

lemma KeyExpansion_range: "Nb * (Nr + 1) = 44" "Nk = 4"
  by simp_all

lemma KeyExpansion_old_irrelevant:
  assumes "length rk = 176" "length rk' = 176"
  shows "KeyExpansion key rk = KeyExpansion key rk'"
proof (rule nth_equalityI)
  show "length (KeyExpansion key rk) = length (KeyExpansion key rk')"
    using assms by simp
next
  fix k assume "k < length (KeyExpansion key rk)"
  with assms have "k < 4 * 44" by simp
  then show "KeyExpansion key rk ! k = KeyExpansion key rk' ! k"
    unfolding KeyExpansion_def Let_def KeyExpansion_range using assms
    by (intro KeyExpansion_words_agree) (auto simp: fold_invariant_length KeyExpansion_first)
qed

section \<open>Properties of the block cipher\<close>

text \<open>C31. Decrypting a block that was encrypted under the same key gives the block back,
  whatever the static variables and the output buffers held before either call.\<close>

theorem ECB_roundtrip:
  assumes "length input = 16" "length out1 = 16" "length out2 = 16"
    and "length (RoundKey g1) = 176" "length (RoundKey g2) = 176"
  shows "snd (AES128_ECB_decrypt g2 (snd (AES128_ECB_encrypt g1 input key out1)) key out2) = input"
  using assms KeyExpansion_old_irrelevant [of "RoundKey g2" "RoundKey g1" key]
  by (simp add: AES128_ECB_encrypt_def AES128_ECB_decrypt_def Let_def BlockCopy_16 InvCipher_Cipher)

definition aes_init :: aes where
  "aes_init = \<lparr>RoundKey = replicate 176 0, Iv = []\<rparr>"


section \<open>CBC mode against its block equations\<close>

text \<open>The textbook equations: each plaintext block is masked with the previous ciphertext block.\<close>

fun cbc_enc_spec :: "bytes \<Rightarrow> bytes \<Rightarrow> bytes list \<Rightarrow> bytes list" where
  "cbc_enc_spec rk iv [] = []"
| "cbc_enc_spec rk iv (b # bs) = (let c = Cipher rk (map2 (XOR) b iv) in c # cbc_enc_spec rk c bs)"

fun cbc_dec_spec :: "bytes \<Rightarrow> bytes \<Rightarrow> bytes list \<Rightarrow> bytes list" where
  "cbc_dec_spec rk iv [] = []"
| "cbc_dec_spec rk iv (c # cs) = map2 (XOR) (InvCipher rk c) iv # cbc_dec_spec rk c cs"

lemma XorWithIv_map2: "length iv = 16 \<Longrightarrow> length b = 16 \<Longrightarrow> XorWithIv iv b = map2 (XOR) b iv"
  by (elim length_16_exE) (simp add: XorWithIv_def list_norm)

lemma map2_xor_twice: "length b = length iv \<Longrightarrow> map2 (XOR) (map2 (XOR) b iv) iv = (b :: bytes)"
  by (induction b iv rule: list_induct2) auto

lemma cbc_enc_spec_lengths:
  "length iv = 16 \<Longrightarrow> \<forall>b \<in> set bs. length b = 16 \<Longrightarrow> \<forall>c \<in> set (cbc_enc_spec rk iv bs). length c = 16"
proof (induction bs arbitrary: iv)
  case Nil
  then show ?case by simp
next
  case (Cons b bs)
  have "\<forall>c \<in> set (cbc_enc_spec rk (Cipher rk (map2 (XOR) b iv)) bs). length c = 16"
    using Cons.prems by (intro Cons.IH) auto
  with Cons.prems show ?case by (simp add: Let_def)
qed

lemma length_cbc_enc_spec [simp]: "length (cbc_enc_spec rk iv bs) = length bs"
  by (induction bs arbitrary: iv) (auto simp: Let_def)

lemma cbc_spec_inverse:
  "length iv = 16 \<Longrightarrow> \<forall>b \<in> set bs. length b = 16 \<Longrightarrow> cbc_dec_spec rk iv (cbc_enc_spec rk iv bs) = bs"
  by (induction bs arbitrary: iv) (auto simp: Let_def InvCipher_Cipher map2_xor_twice)

lemma block_at_append: "length pre = n \<Longrightarrow> length b = 16 \<Longrightarrow> block_at n (pre @ b @ post) = Some b"
  by (auto simp: block_at_def)

lemma put_block_append: "length pre = n \<Longrightarrow> length b = 16 \<Longrightarrow> put_block n c (pre @ b @ post) = pre @ c @ post"
  by (auto simp: put_block_def)

lemma offsets_Suc: "map (\<lambda>k. b + 16 * k) [0..<Suc n] = b # map (\<lambda>k. (b + 16) + 16 * k) [0..<n]"
  by (simp add: upt_conv_Cons map_Suc_upt [symmetric] del: upt_Suc)

lemma cbc_encrypt_blocks_spec:
  assumes "length bs = length cs" "length iv = 16" "length prei = length preo"
    "\<forall>b \<in> set bs. length b = 16" "\<forall>c \<in> set cs. length c = 16"
  shows "\<exists>iv' inp'. cbc_encrypt_blocks rk (map (\<lambda>k. length prei + 16 * k) [0..<length bs])
      (iv, prei @ concat bs, preo @ concat cs) = Some (iv', inp', preo @ concat (cbc_enc_spec rk iv bs))"
  using assms
proof (induction bs cs arbitrary: iv prei preo rule: list_induct2)
  case Nil
  then show ?case by simp
next
  case (Cons b bs c cs)
  let ?x = "map2 (XOR) b iv" and ?pi = "prei @ map2 (XOR) b iv"
  let ?c = "Cipher rk ?x"
  have "\<exists>iv' inp'. cbc_encrypt_blocks rk (map (\<lambda>k. length ?pi + 16 * k) [0..<length bs])
      (?c, ?pi @ concat bs, (preo @ ?c) @ concat cs) = Some (iv', inp', (preo @ ?c) @ concat (cbc_enc_spec rk ?c bs))"
    using Cons.prems by (intro Cons.IH) auto
  then show ?case
    using Cons.prems
    by (simp add: offsets_Suc block_at_append put_block_append XorWithIv_map2 BlockCopy_16 Let_def
        del: upt_Suc)
qed

lemma cbc_decrypt_blocks_spec:
  assumes "length bs = length cs" "length iv = 16" "length prei = length preo"
    "\<forall>b \<in> set bs. length b = 16" "\<forall>c \<in> set cs. length c = 16"
  shows "\<exists>iv'. cbc_decrypt_blocks rk (map (\<lambda>k. length prei + 16 * k) [0..<length bs])
      (iv, prei @ concat bs, preo @ concat cs) =
        Some (iv', prei @ concat bs, preo @ concat (cbc_dec_spec rk iv bs))"
  using assms
proof (induction bs cs arbitrary: iv prei preo rule: list_induct2)
  case Nil
  then show ?case by simp
next
  case (Cons b bs c cs)
  let ?d = "map2 (XOR) (InvCipher rk b) iv" and ?pi = "prei @ b"
  have "\<exists>iv'. cbc_decrypt_blocks rk (map (\<lambda>k. length ?pi + 16 * k) [0..<length bs])
      (b, ?pi @ concat bs, (preo @ ?d) @ concat cs) =
        Some (iv', ?pi @ concat bs, (preo @ ?d) @ concat (cbc_dec_spec rk b bs))"
    using Cons.prems by (intro Cons.IH) auto
  then show ?case
    using Cons.prems
    by (simp add: offsets_Suc block_at_append put_block_append XorWithIv_map2 BlockCopy_16 Let_def
        del: upt_Suc)
qed


text \<open>Cutting a buffer into its blocks.\<close>

definition blocks_of :: "bytes \<Rightarrow> bytes list" where
  "blocks_of xs = map (\<lambda>k. take 16 (drop (16 * k) xs)) [0..<length xs div 16]"

lemma concat_blocks:
  "length xs = 16 * n \<Longrightarrow> concat (map (\<lambda>k. take 16 (drop (16 * k) xs)) [0..<n]) = xs"
proof (induction n arbitrary: xs)
  case 0
  then show ?case by simp
next
  case (Suc n)
  have "concat (map (\<lambda>k. take 16 (drop (16 * k) (drop 16 xs))) [0..<n]) = drop 16 xs"
    using Suc.prems by (intro Suc.IH) simp
  then show ?case
    by (simp add: upt_conv_Cons map_Suc_upt [symmetric] add.commute comp_def del: upt_Suc)
qed

lemma blocks_of_props:
  assumes "16 dvd length xs"
  shows "concat (blocks_of xs) = xs" "\<forall>b \<in> set (blocks_of xs). length b = 16"
    "length (blocks_of xs) = length xs div 16"
  using assms by (auto simp: blocks_of_def concat_blocks)

lemma put_first_block:
  "length b = 16 \<Longrightarrow> 16 \<le> length out \<Longrightarrow> length (put_block 0 b out) = length out"
  by (simp add: put_block_def)

lemma cbc_offsets_blocks:
  "16 dvd n \<Longrightarrow> cbc_offsets n = map (\<lambda>k. length ([] :: bytes) + 16 * k) [0..<n div 16]"
  by (auto simp: cbc_offsets_def)

lemma cbc_setup_ok:
  assumes "16 \<le> length input" "16 \<le> length output"
  shows "\<exists>out. cbc_setup g output input (Some key) (Some iv) =
      Some (g\<lparr>RoundKey := KeyExpansion key (RoundKey g), Iv := iv\<rparr>, out) \<and> length out = length output"
  using assms by (auto simp: cbc_setup_def block_at_def put_first_block)

lemma cbc_encrypt_value:
  assumes "16 dvd unat len" "unat len = length input" "0 < length input"
    and "length output = length input" "length iv = 16"
  shows "\<exists>g' input'. AES128_CBC_encrypt_buffer g output input len (Some key) (Some iv) =
     Some (g', concat (cbc_enc_spec (KeyExpansion key (RoundKey g)) iv (blocks_of input)), input')"
proof -
  have "16 \<le> length input"
    using assms(1,2,3) by (auto dest: dvd_imp_le)
  then obtain out where set: "cbc_setup g output input (Some key) (Some iv) =
      Some (g\<lparr>RoundKey := KeyExpansion key (RoundKey g), Iv := iv\<rparr>, out)"
    and out: "length out = length input"
    using cbc_setup_ok [of input "output"] assms(4) by metis
  have "16 dvd length input" "16 dvd length out"
    using assms out by simp_all
  note bi = blocks_of_props [OF this(1)] and bo = blocks_of_props [OF this(2)]
  have off: "cbc_offsets (unat len) = map (\<lambda>k. length ([] :: bytes) + 16 * k) [0..<length (blocks_of input)]"
    using cbc_offsets_blocks [OF assms(1)] assms(2) bi(3) by simp
  have "\<exists>iv' inp'. cbc_encrypt_blocks (KeyExpansion key (RoundKey g))
      (map (\<lambda>k. length ([] :: bytes) + 16 * k) [0..<length (blocks_of input)])
      (iv, [] @ concat (blocks_of input), [] @ concat (blocks_of out)) =
      Some (iv', inp', [] @ concat (cbc_enc_spec (KeyExpansion key (RoundKey g)) iv (blocks_of input)))"
    using assms(5) out bi bo by (intro cbc_encrypt_blocks_spec) auto
  with off show ?thesis
    using assms(1) set bi(1) bo(1) by (auto simp: AES128_CBC_encrypt_buffer_def)
qed


lemma cbc_decrypt_value:
  assumes "16 dvd unat len" "unat len = length input" "0 < length input"
    and "length output = length input" "length iv = 16"
  shows "\<exists>g'. AES128_CBC_decrypt_buffer g output input len (Some key) (Some iv) =
     Some (g', concat (cbc_dec_spec (KeyExpansion key (RoundKey g)) iv (blocks_of input)), input)"
proof -
  have "16 \<le> length input"
    using assms(1,2,3) by (auto dest: dvd_imp_le)
  then obtain out where set: "cbc_setup g output input (Some key) (Some iv) =
      Some (g\<lparr>RoundKey := KeyExpansion key (RoundKey g), Iv := iv\<rparr>, out)"
    and out: "length out = length input"
    using cbc_setup_ok [of input "output"] assms(4) by metis
  have "16 dvd length input" "16 dvd length out"
    using assms out by simp_all
  note bi = blocks_of_props [OF this(1)] and bo = blocks_of_props [OF this(2)]
  have off: "cbc_offsets (unat len) = map (\<lambda>k. length ([] :: bytes) + 16 * k) [0..<length (blocks_of input)]"
    using cbc_offsets_blocks [OF assms(1)] assms(2) bi(3) by simp
  have "\<exists>iv'. cbc_decrypt_blocks (KeyExpansion key (RoundKey g))
      (map (\<lambda>k. length ([] :: bytes) + 16 * k) [0..<length (blocks_of input)])
      (iv, [] @ concat (blocks_of input), [] @ concat (blocks_of out)) =
      Some (iv', [] @ concat (blocks_of input),
        [] @ concat (cbc_dec_spec (KeyExpansion key (RoundKey g)) iv (blocks_of input)))"
    using assms(5) out bi bo by (intro cbc_decrypt_blocks_spec) auto
  with off show ?thesis
    using assms(1) set bi(1) bo(1) by (auto simp: AES128_CBC_decrypt_buffer_def)
qed

lemma blocks_of_concat:
  assumes "\<forall>b \<in> set bs. length b = 16"
  shows "blocks_of (concat bs) = bs"
proof -
  have len: "length (concat bs) = 16 * length bs"
    using assms by (induction bs) auto
  have "map (\<lambda>k. take 16 (drop (16 * k) (concat bs))) [0..<length bs] = bs"
    using assms
  proof (induction bs)
    case Nil
    then show ?case by simp
  next
    case (Cons b bs)
    then show ?case
      by (simp add: upt_conv_Cons map_Suc_upt [symmetric] comp_def del: upt_Suc)
  qed
  with len show ?thesis by (simp add: blocks_of_def)
qed

text \<open>CBC decryption of a CBC-encrypted buffer of whole blocks gives the plaintext back,
  with both calls running to completion.\<close>

theorem CBC_roundtrip:
  assumes "16 dvd unat len" "unat len = length input" "0 < length input"
    and "length output1 = length input" "length output2 = length input" "length iv = 16"
    and "length (RoundKey g1) = 176" "length (RoundKey g2) = 176"
  shows "\<exists>g1' c input' g2'.
     AES128_CBC_encrypt_buffer g1 output1 input len (Some key) (Some iv) = Some (g1', c, input') \<and>
     AES128_CBC_decrypt_buffer g2 output2 c len (Some key) (Some iv) = Some (g2', input, c)"
proof -
  let ?rk = "KeyExpansion key (RoundKey g1)"
  define c where "c = concat (cbc_enc_spec ?rk iv (blocks_of input))"
  have bi: "concat (blocks_of input) = input" "\<forall>b \<in> set (blocks_of input). length b = 16"
    "length (blocks_of input) = length input div 16"
    using blocks_of_props [of input] assms(1,2) by simp_all
  have cl: "\<forall>b \<in> set (cbc_enc_spec ?rk iv (blocks_of input)). length b = 16"
    using bi(2) assms(6) by (rule cbc_enc_spec_lengths [rotated])
  have bc: "blocks_of c = cbc_enc_spec ?rk iv (blocks_of input)"
    unfolding c_def using cl by (rule blocks_of_concat)
  have "length c = sum_list (map length (cbc_enc_spec ?rk iv (blocks_of input)))"
    by (simp add: c_def length_concat)
  also have "\<dots> = sum_list (map (\<lambda>_. 16) (cbc_enc_spec ?rk iv (blocks_of input)))"
    using cl by (metis (mono_tags, lifting) map_eq_conv)
  also have "\<dots> = length input"
    using bi(3) assms(1,2) by (simp add: sum_list_triv)
  finally have lc: "length c = length input" .
  obtain g1' input' where e:
    "AES128_CBC_encrypt_buffer g1 output1 input len (Some key) (Some iv) = Some (g1', c, input')"
    using cbc_encrypt_value [OF assms(1,2,3,4,6), of g1 key] unfolding c_def by blast
  obtain g2' where d: "AES128_CBC_decrypt_buffer g2 output2 c len (Some key) (Some iv) =
     Some (g2', concat (cbc_dec_spec (KeyExpansion key (RoundKey g2)) iv (blocks_of c)), c)"
    using cbc_decrypt_value [of len c output2 iv g2 key] assms lc by auto
  have "concat (cbc_dec_spec (KeyExpansion key (RoundKey g2)) iv (blocks_of c)) = input"
    using KeyExpansion_old_irrelevant [OF assms(8,7), of key] cbc_spec_inverse [OF assms(6) bi(2)] bi(1)
    by (simp add: bc)
  with e d show ?thesis by auto
qed

lemma block_at_Some: "block_at off buf = Some b \<Longrightarrow> length b = 16 \<and> off + 16 \<le> length buf"
  by (auto simp: block_at_def split: if_splits)

lemma length_put_block: "length b = 16 \<Longrightarrow> off + 16 \<le> length buf \<Longrightarrow> length (put_block off b buf) = length buf"
  by (simp add: put_block_def)

lemma length_XorWithIv [simp]: "length (XorWithIv iv b) = length b"
  by (simp add: XorWithIv_def fold_invariant_length)

lemma cbc_encrypt_blocks_length:
  "cbc_encrypt_blocks rk offs (iv, inp, out) = Some (iv', inp', out') \<Longrightarrow>
    length inp' = length inp \<and> length out' = length out"
proof (induction offs arbitrary: iv inp out)
  case Nil
  then show ?case by simp
next
  case (Cons off offs)
  from Cons.prems obtain b c where b: "block_at off inp = Some b" and c: "block_at off out = Some c"
    and r: "cbc_encrypt_blocks rk offs (Cipher rk (BlockCopy c (XorWithIv iv b)),
      put_block off (XorWithIv iv b) inp, put_block off (Cipher rk (BlockCopy c (XorWithIv iv b))) out)
      = Some (iv', inp', out')"
    by (auto simp: Let_def split: option.splits)
  from Cons.IH [OF r] block_at_Some [OF b] block_at_Some [OF c] show ?case
    by (simp add: length_put_block)
qed

lemma cbc_decrypt_blocks_length:
  "cbc_decrypt_blocks rk offs (iv, inp, out) = Some (iv', inp', out') \<Longrightarrow>
    length inp' = length inp \<and> length out' = length out"
proof (induction offs arbitrary: iv inp out)
  case Nil
  then show ?case by simp
next
  case (Cons off offs)
  from Cons.prems obtain b c where b: "block_at off inp = Some b" and c: "block_at off out = Some c"
    and r: "cbc_decrypt_blocks rk offs
      (b, inp, put_block off (XorWithIv iv (InvCipher rk (BlockCopy c b))) out) = Some (iv', inp', out')"
    by (auto simp: Let_def split: option.splits)
  from Cons.IH [OF r] block_at_Some [OF b] block_at_Some [OF c] show ?case
    by (simp add: length_put_block)
qed

lemma cbc_remainder_None: "length inp < off + 16 \<Longrightarrow> cbc_remainder f r off inp out = None"
  by (simp add: cbc_remainder_def block_at_def)

text \<open>For a buffer whose length is no multiple of sixteen both CBC routines touch one block
  past the padded end: with buffers of exactly the padded size they run out of bounds.\<close>

theorem CBC_remainder_out_of_bounds:
  assumes "unat len mod 16 \<noteq> 0" "length input = 16 * ((unat len + 15) div 16)"
  shows "AES128_CBC_encrypt_buffer g output input len key iv = None \<and>
    AES128_CBC_decrypt_buffer g output input len key iv = None"
proof -
  have off: "16 * length (cbc_offsets (unat len)) = length input"
    using assms(2) by (simp add: cbc_offsets_def)
  have e: "cbc_remainder f r (length input) inp out = None" if "length inp = length input" for f r inp out
    using that by (simp add: cbc_remainder_None)
  show ?thesis
    using assms(1)
    by (auto simp: AES128_CBC_encrypt_buffer_def AES128_CBC_decrypt_buffer_def off Let_def e
        split: option.splits dest!: cbc_encrypt_blocks_length cbc_decrypt_blocks_length)
qed

text \<open>Witnesses: two blocks of text under the key and vector of the source's comment.\<close>

definition nist_key :: bytes where
  "nist_key = [0x2b,0x7e,0x15,0x16,0x28,0xae,0xd2,0xa6,0xab,0xf7,0x15,0x88,0x09,0xcf,0x4f,0x3c]"

definition nist_block :: bytes where
  "nist_block = [0x6b,0xc1,0xbe,0xe2,0x2e,0x40,0x9f,0x96,0xe9,0x3d,0x7e,0x11,0x73,0x93,0x17,0x2a]"

theorem ECB_roundtrip_witness:
  "snd (AES128_ECB_decrypt aes_init
     (snd (AES128_ECB_encrypt aes_init nist_block nist_key (replicate 16 0))) nist_key (replicate 16 0))
   = nist_block"
  by (rule ECB_roundtrip) (simp_all add: aes_init_def nist_block_def)

theorem CBC_roundtrip_witness:
  "\<exists>g1' c input' g2'.
     AES128_CBC_encrypt_buffer aes_init (replicate 32 0) (nist_block @ nist_block) 32
       (Some nist_key) (Some (replicate 16 1)) = Some (g1', c, input') \<and>
     AES128_CBC_decrypt_buffer aes_init (replicate 32 0) c 32
       (Some nist_key) (Some (replicate 16 1)) = Some (g2', nist_block @ nist_block, c)"
  by (rule CBC_roundtrip) (simp_all add: aes_init_def nist_block_def)

theorem CBC_remainder_out_of_bounds_witness:
  "AES128_CBC_encrypt_buffer aes_init (replicate 32 0) (nist_block @ nist_block) 20
     (Some nist_key) (Some (replicate 16 1)) = None \<and>
   AES128_CBC_decrypt_buffer aes_init (replicate 32 0) (nist_block @ nist_block) 20
     (Some nist_key) (Some (replicate 16 1)) = None"
  by (rule CBC_remainder_out_of_bounds) (simp_all add: nist_block_def)

end
