(* ===== verification/Base64.thy ===== *)
theory Base64
  imports Prelude
begin

text \<open>
  Base 64 as in \<^verbatim>\<open>core/base64.hpp\<close>, used for keys in the database and the configuration.
  \<open>encode\<close> writes four characters for three bytes; \<open>decode\<close> skips white space, rejects other
  characters and stores the bytes through an unchecked pointer.  The decoder is modelled by the bytes it
  stores, so that a client can compare their number with the room it has.
\<close>

unbundle bit_operations_syntax

section \<open>Tables\<close>

definition codes :: bytes where
  "codes = map (\<lambda>c. word_of_nat (of_char c)) ''ABCDEFGHIJKLMNOPQRSTUVWXYZabcdefghijklmnopqrstuvwxyz0123456789+/''"

definition map_table :: bytes where
  "map_table = [
     255, 255, 255, 255, 255, 255, 255, 255, 255, 255, 253, 255, 255, 253, 255, 255,
     255, 255, 255, 255, 255, 255, 255, 255, 255, 255, 255, 255, 255, 255, 255, 255,
     253, 255, 255, 255, 255, 255, 255, 255, 255, 255, 255, 62, 255, 255, 255, 63,
     52, 53, 54, 55, 56, 57, 58, 59, 60, 61, 255, 255, 255, 254, 255, 255,
     255, 0, 1, 2, 3, 4, 5, 6, 7, 8, 9, 10, 11, 12, 13, 14,
     15, 16, 17, 18, 19, 20, 21, 22, 23, 24, 25, 255, 255, 255, 255, 255,
     255, 26, 27, 28, 29, 30, 31, 32, 33, 34, 35, 36, 37, 38, 39, 40,
     41, 42, 43, 44, 45, 46, 47, 48, 49, 50, 51, 255, 255, 255, 255, 255,
     255, 255, 255, 255, 255, 255, 255, 255, 255, 255, 255, 255, 255, 255, 255, 255,
     255, 255, 255, 255, 255, 255, 255, 255, 255, 255, 255, 255, 255, 255, 255, 255,
     255, 255, 255, 255, 255, 255, 255, 255, 255, 255, 255, 255, 255, 255, 255, 255,
     255, 255, 255, 255, 255, 255, 255, 255, 255, 255, 255, 255, 255, 255, 255, 255,
     255, 255, 255, 255, 255, 255, 255, 255, 255, 255, 255, 255, 255, 255, 255, 255,
     255, 255, 255, 255, 255, 255, 255, 255, 255, 255, 255, 255, 255, 255, 255, 255,
     255, 255, 255, 255, 255, 255, 255, 255, 255, 255, 255, 255, 255, 255, 255, 255,
     255, 255, 255, 255, 255, 255, 255, 255, 255, 255, 255, 255, 255, 255, 255, 255]"

section \<open>Encoding\<close>

definition code :: "u8 \<Rightarrow> u8" where
  "code x = codes ! unat x"

text \<open>The loop over whole groups of three bytes, and the padded last group.\<close>

fun encode_loop :: "bytes \<Rightarrow> bytes" where
  "encode_loop (a # b # c # inp) =
    [code (drop_bit 2 a), code (push_bit 4 (a AND 3) + drop_bit 4 b),
     code (push_bit 2 (b AND 0xf) + drop_bit 6 c), code (c AND 0x3f)] @ encode_loop inp"
| "encode_loop [a, b] =
    [code (drop_bit 2 a), code (push_bit 4 (a AND 3) + drop_bit 4 b), code (push_bit 2 (b AND 0xf)), 61]"
| "encode_loop [a] = [code (drop_bit 2 a), code (push_bit 4 (a AND 3)), 61, 61]"
| "encode_loop [] = []"

text \<open>The bytes stored at \<open>out\<close>, the terminator last, and the returned length.\<close>

definition encode :: "bytes \<Rightarrow> nat \<Rightarrow> bytes \<times> nat" where
  "encode inp len = (let out = encode_loop (take len inp) in (out @ [0], length out))"

section \<open>Decoding\<close>

text \<open>The variables of the loop: the accumulator \<open>t\<close>, the number \<open>y\<close> of characters in it, and \<open>g\<close>; the
  result is the list of bytes stored, \<open>None\<close> the return of \<open>-1\<close>.\<close>

fun decode_loop :: "bytes \<Rightarrow> u64 \<Rightarrow> nat \<Rightarrow> int \<Rightarrow> bytes option" where
  "decode_loop [] t y g = Some []"
| "decode_loop (x # inp) t y g =
    (if x = 0 then Some []
     else
       (let c = map_table ! unat x
        in if c = 255 then None
           else if c = 253 then decode_loop inp t y g
           else
             (let g = (if c = 254 then g - 1 else g); c = (if c = 254 then 0 else c);
                  t = push_bit 6 t OR ucast c
              in if y + 1 = 4
                 then map_option (append ([ucast (drop_bit 16 t AND 255)] @
                       (if g > 1 then [ucast (drop_bit 8 t AND 255)] else []) @
                       (if g > 2 then [ucast (t AND 255)] else []))) (decode_loop inp 0 0 g)
                 else decode_loop inp t (y + 1) g)))"

definition decode :: "bytes \<Rightarrow> bytes option" where
  "decode inp = decode_loop inp 0 0 3"

section \<open>Decoding a group\<close>

lemma codes_list: "codes = [65, 66, 67, 68, 69, 70, 71, 72, 73, 74, 75, 76, 77, 78, 79, 80, 81, 82, 83, 84, 85, 86, 87, 88, 89, 90,
    97, 98, 99, 100, 101, 102, 103, 104, 105, 106, 107, 108, 109, 110, 111, 112, 113, 114, 115, 116, 117, 118, 119, 120, 121, 122,
    48, 49, 50, 51, 52, 53, 54, 55, 56, 57, 43, 47]"
  by (simp add: codes_def)

lemma map_code_table: "map (\<lambda>x. map_table ! unat x) codes = map word_of_nat [0..<64] \<and> 0 \<notin> set codes"
  unfolding codes_list by code_simp

lemma map_code: "x < 64 \<Longrightarrow> map_table ! unat (code x) = x \<and> code x \<noteq> 0"
proof -
  assume "x < 64"
  then have n: "unat x < length codes" "unat x < 64" by (simp_all add: word_less_nat_alt codes_list)
  have "map_table ! unat (codes ! unat x) = map (\<lambda>x. map_table ! unat x) codes ! unat x"
    using n by simp
  also have "\<dots> = x" using map_code_table n by simp
  finally show ?thesis
    using map_code_table nth_mem [OF n(1)] by (auto simp: code_def)
qed

text \<open>The three bytes of a group and its four six-bit values.\<close>

definition sextets :: "u8 \<Rightarrow> u8 \<Rightarrow> u8 \<Rightarrow> u8 list" where
  "sextets a b c = [drop_bit 2 a, push_bit 4 (a AND 3) + drop_bit 4 b, push_bit 2 (b AND 0xf) + drop_bit 6 c, c AND 0x3f]"

lemma and_masks: "x AND 3 = take_bit 2 x" "x AND 15 = take_bit 4 x" "x AND 63 = take_bit 6 x" "y AND 255 = take_bit 8 y"
  for x :: u8 and y :: u64
  by (simp_all only: take_bit_eq_mask) (simp_all add: mask_eq_exp_minus_1)

lemma sextets_or:
  "push_bit 4 (take_bit 2 a) + drop_bit 4 b = push_bit 4 (take_bit 2 a) OR drop_bit 4 (b :: u8)"
  "push_bit 2 (take_bit 4 b) + drop_bit 6 c = push_bit 2 (take_bit 4 b) OR drop_bit 6 (c :: u8)"
  by (rule disjunctive_add_eq_or; auto simp: bit_eq_iff bit_push_bit_iff bit_take_bit_iff bit_drop_bit_eq bit_and_iff dest: bit_imp_le_length)+

lemma less_64_iff: "x < 64 \<longleftrightarrow> take_bit 6 x = x" for x :: u8
  using mod_less_divisor [of 64 "unat x"]
  by (auto simp: take_bit_eq_mod word_less_nat_alt word_unat_eq_iff unat_mod simp del: mod_less_divisor)

lemma sextets_lt: "\<forall>x \<in> set (sextets a b c). x < 64"
  by (auto simp: sextets_def and_masks sextets_or less_64_iff bit_eq_iff bit_simps dest: bit_imp_le_length)

definition group :: "u8 \<Rightarrow> u8 \<Rightarrow> u8 \<Rightarrow> u8 \<Rightarrow> u64" where
  "group w x y z = push_bit 6 (push_bit 6 (push_bit 6 (push_bit 6 0 OR ucast w) OR ucast x) OR ucast y) OR ucast z"

lemma less_8_cases: "(n :: nat) < 8 \<Longrightarrow> n = 0 \<or> n = 1 \<or> n = 2 \<or> n = 3 \<or> n = 4 \<or> n = 5 \<or> n = 6 \<or> n = 7"
  by arith

lemma bit_out_of_range: "8 \<le> n \<Longrightarrow> \<not> bit (v :: u8) n"
  by (auto dest: bit_imp_le_length)

lemma group_bytes:
  assumes "sextets a b c = [w, x, y, z]"
  shows "ucast (drop_bit 16 (group w x y z) AND 255) = a" "ucast (drop_bit 8 (group w x y z) AND 255) = b"
    "ucast (group w x y z AND 255) = c"
proof -
  have v: "w = drop_bit 2 a" "x = push_bit 4 (take_bit 2 a) OR drop_bit 4 b"
    "y = push_bit 2 (take_bit 4 b) OR drop_bit 6 c" "z = take_bit 6 c"
    using assms by (simp_all add: sextets_def and_masks sextets_or)
  have eq: "u = v'" if "\<And>n. n = 0 \<or> n = 1 \<or> n = 2 \<or> n = 3 \<or> n = 4 \<or> n = 5 \<or> n = 6 \<or> n = 7 \<Longrightarrow> bit u n = bit v' n" for u v' :: u8
    using less_8_cases that by (intro bit_word_eqI) auto
  show "ucast (drop_bit 16 (group w x y z) AND 255) = a" "ucast (drop_bit 8 (group w x y z) AND 255) = b"
    "ucast (group w x y z AND 255) = c"
    unfolding v and_masks
    by (rule eq, elim disjE; simp add: group_def bit_simps bit_out_of_range flip: numeral_2_eq_2 numeral_3_eq_3)+
qed

lemma value_not_special: "(v :: u8) < 64 \<Longrightarrow> v \<noteq> 255 \<and> v \<noteq> 254 \<and> v \<noteq> 253"
  by (auto simp: word_less_nat_alt)

lemma map_pad: "map_table ! 61 = 254"
  by (simp add: map_table_def)

lemma decode_code:
  assumes "v < 64"
  shows "decode_loop (code v # inp) t y g =
    (let t = push_bit 6 t OR ucast v
     in if y + 1 = 4
        then map_option (append ([ucast (drop_bit 16 t AND 255)] @
              (if g > 1 then [ucast (drop_bit 8 t AND 255)] else []) @
              (if g > 2 then [ucast (t AND 255)] else []))) (decode_loop inp 0 0 g)
        else decode_loop inp t (y + 1) g)"
  using map_code [OF assms] value_not_special [OF assms] by simp

lemma decode_pad:
  "decode_loop (61 # inp) t y g =
    (let t = push_bit 6 t OR ucast (0 :: u8); g = g - 1
     in if y + 1 = 4
        then map_option (append ([ucast (drop_bit 16 t AND 255)] @
              (if g > 1 then [ucast (drop_bit 8 t AND 255)] else []) @
              (if g > 2 then [ucast (t AND 255)] else []))) (decode_loop inp 0 0 g)
        else decode_loop inp t (y + 1) g)"
  by (simp add: map_pad Let_def)

lemma sextets_bounds:
  assumes "sextets a b c = [w, x, y, z]"
  shows "w < 64" "x < 64" "y < 64" "z < 64"
  using sextets_lt [of a b c] assms by simp_all

lemma decode_group:
  assumes "sextets a b c = [w, x, y, z]"
  shows "decode_loop (code w # code x # code y # code z # inp) 0 0 3 = map_option (append [a, b, c]) (decode_loop inp 0 0 3)"
    and "c = 0 \<Longrightarrow> decode_loop (code w # code x # code y # 61 # inp) 0 0 3 = map_option (append [a, b]) (decode_loop inp 0 0 2)"
    and "b = 0 \<Longrightarrow> c = 0 \<Longrightarrow> decode_loop (code w # code x # 61 # 61 # inp) 0 0 3 = map_option (append [a]) (decode_loop inp 0 0 1)"
proof -
  note lt = sextets_bounds [OF assms]
  note bytes = group_bytes [OF assms, unfolded group_def]
  show "decode_loop (code w # code x # code y # code z # inp) 0 0 3 = map_option (append [a, b, c]) (decode_loop inp 0 0 3)"
    by (simp only: decode_code [OF lt(1)] decode_code [OF lt(2)] decode_code [OF lt(3)] decode_code [OF lt(4)] Let_def bytes)
      (simp add: bytes)
  show "decode_loop (code w # code x # code y # 61 # inp) 0 0 3 = map_option (append [a, b]) (decode_loop inp 0 0 2)" if "c = 0"
  proof -
    have "z = 0" using assms that by (simp add: sextets_def)
    then show ?thesis
      using bytes by (simp only: decode_code [OF lt(1)] decode_code [OF lt(2)] decode_code [OF lt(3)] decode_pad Let_def) simp
  qed
  show "decode_loop (code w # code x # 61 # 61 # inp) 0 0 3 = map_option (append [a]) (decode_loop inp 0 0 1)" if "b = 0" "c = 0"
  proof -
    have "y = 0" "z = 0" using assms that by (simp_all add: sextets_def)
    then show ?thesis
      using bytes by (simp only: decode_code [OF lt(1)] decode_code [OF lt(2)] decode_pad Let_def) simp
  qed
qed

text \<open>The stored bytes are at most three for every four characters, whatever the text.\<close>

lemma decode_loop_length:
  "y < 4 \<Longrightarrow> decode_loop inp t y g = Some out \<Longrightarrow> length out \<le> 3 * ((y + length inp) div 4)"
proof (induction inp arbitrary: t y g out)
  case (Cons x inp)
  consider (stop) "x = 0" | (space) "x \<noteq> 0" "map_table ! unat x = 253"
    | (char) "x \<noteq> 0" "map_table ! unat x \<noteq> 253" "map_table ! unat x \<noteq> 255"
    using Cons.prems(2) by (cases "x = 0"; cases "map_table ! unat x = 255") auto
  then show ?case
  proof cases
    case stop
    with Cons.prems show ?thesis by simp
  next
    case space
    then have "decode_loop inp t y g = Some out" using Cons.prems(2) by simp
    have "length out \<le> 3 * ((y + length inp) div 4)"
      using Cons.IH [OF Cons.prems(1) \<open>decode_loop inp t y g = Some out\<close>] .
    also have "\<dots> \<le> 3 * ((y + length (x # inp)) div 4)"
      by (intro mult_le_mono2 div_le_mono) simp
    finally show ?thesis .
  next
    case char
    obtain t' g' where step: "decode_loop (x # inp) t y g =
        (if y + 1 = 4 then map_option (append ([ucast (drop_bit 16 t' AND 255)] @
            (if g' > 1 then [ucast (drop_bit 8 t' AND 255)] else []) @
            (if g' > 2 then [ucast (t' AND 255)] else []))) (decode_loop inp 0 0 g')
         else decode_loop inp t' (y + 1) g')"
      using char by (simp add: Let_def)
    show ?thesis
    proof (cases "y + 1 = 4")
      case True
      with step Cons.prems(2) obtain o' where "decode_loop inp 0 0 g' = Some o'" "length out \<le> 3 + length o'"
        by auto
      moreover have "(y + length (x # inp)) div 4 = length inp div 4 + 1"
        using True by simp
      ultimately show ?thesis
        using Cons.IH [of 0 0 g' o'] by simp
    next
      case False
      with step Cons.prems(2) have "decode_loop inp t' (y + 1) g' = Some out" by simp
      from Cons.IH [OF _ this] Cons.prems(1) False show ?thesis by simp
    qed
  qed
qed simp

lemma decode_encode_loop: "decode_loop (encode_loop s @ [0]) 0 0 3 = Some s"
proof (induction s rule: encode_loop.induct)
  case (1 a b c inp)
  then show ?case using decode_group(1) [of a b c, OF sextets_def] by (simp add: decode_code)
next
  case (2 a b)
  then show ?case using decode_group(2) [of a b 0, OF sextets_def] by simp
next
  case (3 a)
  then show ?case using decode_group(3) [of a 0 0, OF sextets_def] by simp
qed simp

lemma length_encode_loop: "length (encode_loop s) = 4 * ((length s + 2) div 3)"
proof (induction s rule: encode_loop.induct)
  case (1 a b c inp)
  have "(length (a # b # c # inp) + 2) div 3 = (length inp + 2 + 3) div 3" by simp
  also have "\<dots> = (length inp + 2) div 3 + 1" by (rule div_add_self2) simp
  finally show ?case using 1 by (simp del: length_Cons)
qed auto

section \<open>Properties\<close>

text \<open>Encoding writes the length it announces, four characters for every three bytes begun, and
  decoding the text gives the byte string back, whatever its length.\<close>

theorem base64_roundtrip:
  "snd (encode s (length s)) = 4 * ((length s + 2) div 3) \<and> decode (fst (encode s (length s))) = Some s"
  by (simp add: decode_def encode_def Let_def decode_encode_loop length_encode_loop)

end
