(* ===== verification/Crypt.thy ===== *)
theory Crypt
  imports Aes Base64 Func
begin

text \<open>
  Packets and their encryption: \<^verbatim>\<open>core/nint.hpp\<close> (integers in network byte order), the packet structs of
  \<^verbatim>\<open>core/classes.hpp\<close> and \<^verbatim>\<open>core/crypt.hpp\<close>.

  A packet is the array of bytes that is sent.  The structs have natural alignment: \<open>crypt\<close> is byte 0,
  \<open>userid\<close>, \<open>unique\<close>, \<open>len\<close> and \<open>hash\<close> are at 4, 8, 12 and 16, \<open>password\<close> starts at 20, \<open>mode\<close> is at 36,
  \<open>globalMode\<close> at 37, \<open>function\<close> at 38, and the header has 56 bytes.  The two encryption functions are
  templates over the struct, which enters through the offset of \<open>endchunk\<close> and the size.

  The interface \<open>block_cipher\<close> is what the packet code needs of a cipher.  It is interpreted on the AES
  of the theory \<open>Aes\<close>.
\<close>

unbundle bit_operations_syntax

section \<open>Integers in network byte order\<close>

definition htonl_bytes :: "u32 \<Rightarrow> bytes" where
  "htonl_bytes v = [ucast (drop_bit 24 v), ucast (drop_bit 16 v), ucast (drop_bit 8 v), ucast v]"

definition ntohl_bytes :: "bytes \<Rightarrow> u32" where
  "ntohl_bytes b = push_bit 24 (ucast (b ! 0)) OR push_bit 16 (ucast (b ! 1)) OR push_bit 8 (ucast (b ! 2)) OR ucast (b ! 3)"

text \<open>The classes \<open>nint32\<close> and \<open>nint64\<close> as the bytes they occupy.\<close>

definition nint32_set :: "u32 \<Rightarrow> bytes" where
  "nint32_set v = htonl_bytes v"

definition nint32_val :: "bytes \<Rightarrow> u32" where
  "nint32_val b = ntohl_bytes b"

definition nint64_set :: "u64 \<Rightarrow> bytes" where
  "nint64_set value =
    (let s = ucast (value div 0x100000000) :: u32; z = ucast (value - ucast s * 0x100000000) :: u32
     in htonl_bytes s @ htonl_bytes z)"

definition nint64_get :: "bytes \<Rightarrow> u64" where
  "nint64_get b = ucast (ntohl_bytes (take 4 b)) * 0x100000000 + ucast (ntohl_bytes (drop 4 b))"

section \<open>Packets\<close>

text \<open>\<open>SOURCE_CHUNK_SIZE\<close>, and a struct as the offset of \<open>endchunk\<close> and its size.\<close>

definition SOURCE_CHUNK_SIZE :: nat where "SOURCE_CHUNK_SIZE = 4096"

record layout =
  endchunk :: nat
  size_of :: nat

definition netQuery :: layout where
  "netQuery = \<lparr>endchunk = 108, size_of = 124\<rparr>"

definition netSource :: layout where
  "netSource = \<lparr>endchunk = 76 + SOURCE_CHUNK_SIZE, size_of = 92 + SOURCE_CHUNK_SIZE\<rparr>"

text \<open>A field of the header as the slice of bytes at its offset.\<close>

definition field :: "nat \<Rightarrow> nat \<Rightarrow> bytes \<Rightarrow> bytes" where
  "field off n p = take n (drop off p)"

definition set_field :: "nat \<Rightarrow> bytes \<Rightarrow> bytes \<Rightarrow> bytes" where
  "set_field off v p = take off p @ v @ drop (off + length v) p"

definition header_unique :: nat where "header_unique = 8"
definition header_len :: nat where "header_len = 12"
definition header_hash :: nat where "header_hash = 16"
definition header_password :: nat where "header_password = 20"

section \<open>Keys\<close>

text \<open>\<open>aesblock::tobase64\<close>, and \<open>aesblock::getbase64\<close>, whose buffer of 64 bytes holds indeterminate
  values \<open>buf\<close> before.\<close>

definition tobase64 :: "bytes \<Rightarrow> bytes" where
  "tobase64 data = fst (encode data 16)"

definition getbase64 :: "bytes \<Rightarrow> bytes \<Rightarrow> bytes \<Rightarrow> bytes" where
  "getbase64 buf data inp =
    (if 64 < length inp then data
     else (case decode (inp @ [0]) of
       None \<Rightarrow> take 16 buf
     | Some out \<Rightarrow> take 16 (out @ drop (length out) buf)))"

section \<open>Encryption of a packet\<close>

text \<open>The loop over the blocks from \<open>unique\<close> on: the block at \<open>here\<close> is replaced while \<open>here\<close> is before the
  end, so the last block may reach into \<open>endchunk\<close>.\<close>

function block_loop :: "(bytes \<Rightarrow> bytes) \<Rightarrow> nat \<Rightarrow> nat \<Rightarrow> bytes \<Rightarrow> bytes" where
  "block_loop f here end p =
    (if here < end then block_loop f (here + 16) end (set_field here (f (field here 16 p)) p) else p)"
  by pat_completeness auto
termination by (relation "measure (\<lambda>(f, here, end, p). end - here)") auto

declare block_loop.simps [simp del]

text \<open>One call of the cipher.  The static round keys are computed anew in every call, so the state before
  does not matter (lemma \<open>aes_any_state\<close>).\<close>

definition aes_encrypt_block :: "bytes \<Rightarrow> bytes \<Rightarrow> bytes" where
  "aes_encrypt_block key b = snd (AES128_ECB_encrypt aes_init b key (replicate 16 0))"

definition aes_decrypt_block :: "bytes \<Rightarrow> bytes \<Rightarrow> bytes" where
  "aes_decrypt_block key b = snd (AES128_ECB_decrypt aes_init b key (replicate 16 0))"

definition packet_seal :: "layout \<Rightarrow> bytes \<Rightarrow> bytes" where
  "packet_seal lay p =
    (let p = p[0 := 116]; len = endchunk lay - header_password;
         p = set_field header_len (nint32_set (word_of_nat len)) p
     in set_field header_hash (nint32_set (RSHash (drop header_password p) len)) p)"

definition crypt_encode :: "(bytes \<Rightarrow> bytes) \<Rightarrow> layout \<Rightarrow> bytes \<Rightarrow> bytes" where
  "crypt_encode enc lay p =
    (if p ! 0 = 116 then p else block_loop enc header_unique (endchunk lay) (packet_seal lay p))"

definition crypt_decode :: "(bytes \<Rightarrow> bytes) \<Rightarrow> layout \<Rightarrow> bytes \<Rightarrow> bytes" where
  "crypt_decode dec lay p =
    (if p ! 0 \<noteq> 116 then p
     else
       (let p = block_loop dec header_unique (endchunk lay) (p[0 := 102]);
            hash_d = nint32_val (field header_hash 4 p);
            len = sint (nint32_val (field header_len 4 p))
        in if int (endchunk lay - header_password) < len \<or> len < 0 then replicate (size_of lay) 0
           else if hash_d \<noteq> RSHash (drop header_password p) (nat len) then replicate (size_of lay) 0
           else p))"

section \<open>The block loop\<close>

text \<open>The blocks of a byte list that start before offset \<open>e\<close>, each replaced.\<close>

function blocks_map :: "(bytes \<Rightarrow> bytes) \<Rightarrow> nat \<Rightarrow> bytes \<Rightarrow> bytes" where
  "blocks_map f e q = (if e = 0 then q else f (take 16 q) @ blocks_map f (e - 16) (drop 16 q))"
  by pat_completeness auto
termination by (relation "measure (\<lambda>(f, e, q). e)") auto

declare blocks_map.simps [simp del]

definition room :: "nat \<Rightarrow> bytes \<Rightarrow> bool" where
  "room e q \<longleftrightarrow> e = 0 \<or> e + 15 \<le> length q"

lemma room_drop: "room e q \<Longrightarrow> e \<noteq> 0 \<Longrightarrow> 16 \<le> length q \<and> room (e - 16) (drop 16 q)"
  by (auto simp: room_def)

lemma length_blocks_map:
  "(\<And>b. length b = 16 \<Longrightarrow> length (f b) = 16) \<Longrightarrow> room e q \<Longrightarrow> length (blocks_map f e q) = length q"
proof (induction f e q rule: blocks_map.induct)
  case (1 f e q)
  then show ?case
    using room_drop [of e q] by (subst blocks_map.simps) auto
qed

lemma blocks_map_append:
  assumes "length q1 = 16 * k" "\<And>b. length b = 16 \<Longrightarrow> length (f b) = 16"
  shows "blocks_map f (16 * k + m) (q1 @ q2) = blocks_map f (16 * k) q1 @ blocks_map f m q2"
  using assms(1)
proof (induction k arbitrary: q1)
  case 0
  then show ?case by (simp add: blocks_map.simps [of f 0])
next
  case (Suc k)
  have "blocks_map f (16 * Suc k + m) (q1 @ q2) =
      f (take 16 q1) @ blocks_map f (16 * k + m) (drop 16 q1 @ q2)"
    using Suc.prems by (subst blocks_map.simps) simp
  also have "\<dots> = f (take 16 q1) @ blocks_map f (16 * k) (drop 16 q1) @ blocks_map f m q2"
    using Suc.prems by (subst Suc.IH) simp_all
  finally show ?case
    using blocks_map.simps [of f "16 * Suc k" q1] by simp
qed

lemma blocks_map_round: "blocks_map f (16 * k + 1 + j) q = blocks_map f (16 * Suc k) q" if "j < 16"
  using that
proof (induction k arbitrary: q)
  case 0
  then show ?case
    by (simp add: blocks_map.simps [of f "Suc j"] blocks_map.simps [of f 16] blocks_map.simps [of f 0])
next
  case (Suc k)
  then show ?case
    by (subst (1 2) blocks_map.simps) (simp add: add.commute)
qed

lemma block_loop_blocks_map:
  assumes "\<And>b. length b = 16 \<Longrightarrow> length (f b) = 16" "here \<le> length p" "room (end - here) (drop here p)"
  shows "block_loop f here end p = take here p @ blocks_map f (end - here) (drop here p)"
  using assms
proof (induction f here "end" p rule: block_loop.induct)
  case (1 f here "end" p)
  show ?case
  proof (cases "here < end")
    case False
    then show ?thesis by (subst block_loop.simps, subst blocks_map.simps) simp
  next
    case True
    let ?b = "f (field here 16 p)"
    let ?p = "set_field here ?b p"
    have r: "16 \<le> length (drop here p)" "room (end - here - 16) (drop 16 (drop here p))"
      using room_drop [OF "1.prems"(3)] True by auto
    have b: "length ?b = 16" using r(1) "1.prems"(1) by (simp add: field_def)
    have parts: "take (here + 16) ?p = take here p @ ?b" "drop (here + 16) ?p = drop 16 (drop here p)"
      "here + 16 \<le> length ?p"
      using b r(1) "1.prems"(2) by (simp_all add: set_field_def add.commute)
    have "block_loop f (here + 16) end ?p =
        take (here + 16) ?p @ blocks_map f (end - (here + 16)) (drop (here + 16) ?p)"
      using True "1.prems"(1) parts r(2) by (intro "1.IH") simp_all
    moreover have "blocks_map f (end - here) (drop here p) = ?b @ blocks_map f (end - (here + 16)) (drop 16 (drop here p))"
      using True by (subst blocks_map.simps) (simp add: field_def)
    ultimately show ?thesis
      using True by (subst block_loop.simps) (simp only: parts if_True append_assoc)
  qed
qed

section \<open>Fields\<close>

lemma length_set_field [simp]: "off + length v \<le> length p \<Longrightarrow> length (set_field off v p) = length p"
  by (simp add: set_field_def)

lemma field_set_same: "off + length v \<le> length p \<Longrightarrow> n = length v \<Longrightarrow> field off n (set_field off v p) = v"
  by (simp add: field_def set_field_def)

lemma field_set_before: "n + off \<le> off' \<Longrightarrow> off' \<le> length p \<Longrightarrow> field off n (set_field off' v p) = field off n p"
  by (simp add: field_def set_field_def take_drop min_def)

lemma drop_set_after: "off + length v \<le> k \<Longrightarrow> off \<le> length p \<Longrightarrow> drop k (set_field off v p) = drop k p"
  by (simp add: set_field_def drop_append min_def)

lemma field_upd0: "0 < off \<Longrightarrow> field off n (p[0 := v]) = field off n p"
  by (simp add: field_def)

lemma ntohl_htonl: "ntohl_bytes (htonl_bytes v) = v"
proof (rule bit_word_eqI)
  fix n assume "n < LENGTH(32)"
  then consider "n < 8" | "8 \<le> n" "n < 16" | "16 \<le> n" "n < 24" | "24 \<le> n" "n < 32" by fastforce
  then show "bit (ntohl_bytes (htonl_bytes v)) n = bit v n"
    by cases (auto simp: ntohl_bytes_def htonl_bytes_def bit_simps)
qed

lemma nint32_roundtrip [simp]: "nint32_val (nint32_set v) = v"
  by (simp add: nint32_val_def nint32_set_def ntohl_htonl)

lemma length_nint32 [simp]: "length (nint32_set v) = 4"
  by (simp add: nint32_set_def htonl_bytes_def)

text \<open>A struct with a whole block behind the payload, as all packets have.\<close>

definition layout_ok :: "layout \<Rightarrow> bool" where
  "layout_ok lay \<longleftrightarrow> 56 \<le> endchunk lay \<and> endchunk lay + 16 \<le> size_of lay \<and> size_of lay < 2 ^ 31"

lemma layouts_ok: "layout_ok netQuery" "layout_ok netSource"
  by (simp_all add: layout_ok_def netQuery_def netSource_def SOURCE_CHUNK_SIZE_def)

lemma length_packet_seal: "20 \<le> length p \<Longrightarrow> length (packet_seal lay p) = length p"
  by (simp add: packet_seal_def Let_def header_len_def header_hash_def)

lemma packet_seal_crypt: "20 \<le> length p \<Longrightarrow> packet_seal lay p ! 0 = 116"
  by (cases p) (simp_all add: packet_seal_def Let_def header_len_def header_hash_def set_field_def nth_append)

lemma packet_seal_fields:
  assumes "layout_ok lay" "length p = size_of lay"
  shows "sint (nint32_val (field header_len 4 (packet_seal lay p))) = int (endchunk lay - header_password)"
    and "nint32_val (field header_hash 4 (packet_seal lay p)) =
      RSHash (drop header_password (packet_seal lay p)) (endchunk lay - header_password)"
    and "drop header_password (packet_seal lay p) = drop header_password p"
proof -
  let ?len = "endchunk lay - header_password"
  let ?p1 = "set_field header_len (nint32_set (word_of_nat ?len)) (p[0 := 116])"
  have seal: "packet_seal lay p = set_field header_hash (nint32_set (RSHash (drop header_password ?p1) ?len)) ?p1"
    by (simp add: packet_seal_def Let_def)
  have size: "72 \<le> length p" "?len < 2 ^ 31"
    using assms by (auto simp: layout_ok_def header_password_def)
  have l1: "length ?p1 = length p"
    using size by (simp add: header_len_def)
  have d1: "drop header_password ?p1 = drop header_password p"
    using size by (simp add: drop_set_after header_len_def header_password_def)
  have d2: "drop header_password (packet_seal lay p) = drop header_password ?p1"
    unfolding seal using size l1 by (intro drop_set_after) (simp_all add: header_hash_def header_password_def)
  show "drop header_password (packet_seal lay p) = drop header_password p"
    using d1 d2 by simp
  show "nint32_val (field header_hash 4 (packet_seal lay p)) = RSHash (drop header_password (packet_seal lay p)) ?len"
    unfolding d2 unfolding seal using size l1 by (subst field_set_same) (simp_all add: header_hash_def)
  have "field header_len 4 (packet_seal lay p) = field header_len 4 ?p1"
    unfolding seal using size l1 by (intro field_set_before) (simp_all add: header_hash_def header_len_def)
  also have "\<dots> = nint32_set (word_of_nat ?len)"
    using size by (intro field_set_same) (simp_all add: header_len_def)
  finally show "sint (nint32_val (field header_len 4 (packet_seal lay p))) = int ?len"
    using size(2) by (simp add: signed_of_nat signed_take_bit_int_eq_self)
qed

section \<open>The cipher a packet needs\<close>

locale block_cipher =
  fixes enc :: "bytes \<Rightarrow> bytes" and dec :: "bytes \<Rightarrow> bytes"
  assumes length_enc: "length b = 16 \<Longrightarrow> length (enc b) = 16"
    and length_dec: "length b = 16 \<Longrightarrow> length (dec b) = 16"
    and dec_enc: "length b = 16 \<Longrightarrow> dec (enc b) = b"
begin

lemma blocks_inverse: "room e q \<Longrightarrow> blocks_map dec e (blocks_map enc e q) = q"
proof (induction e arbitrary: q rule: less_induct)
  case (less e)
  show ?case
  proof (cases "e = 0")
    case True
    then show ?thesis by (simp add: blocks_map.simps [where e = 0])
  next
    case False
    note r = room_drop [OF less.prems False]
    have "blocks_map enc e q = enc (take 16 q) @ blocks_map enc (e - 16) (drop 16 q)"
      using False by (simp add: blocks_map.simps [where e = e])
    then have "blocks_map dec e (blocks_map enc e q) =
        dec (enc (take 16 q)) @ blocks_map dec (e - 16) (blocks_map enc (e - 16) (drop 16 q))"
      using False r length_enc [of "take 16 q"] by (simp add: blocks_map.simps [where e = e and f = dec])
    then show ?thesis
      using less.IH [of "e - 16"] False r dec_enc [of "take 16 q"] by simp
  qed
qed

text \<open>Decrypting all blocks undoes encrypting them, in place.\<close>

lemma block_loop_inverse:
  assumes "here \<le> length p" "room (end - here) (drop here p)"
  shows "block_loop dec here end (block_loop enc here end p) = p"
proof -
  let ?q = "blocks_map enc (end - here) (drop here p)"
  have e: "block_loop enc here end p = take here p @ ?q"
    by (rule block_loop_blocks_map [OF length_enc assms])
  have len: "length ?q = length (drop here p)"
    by (rule length_blocks_map [OF length_enc assms(2)])
  have "block_loop dec here end (take here p @ ?q) = take here p @ blocks_map dec (end - here) ?q"
    using assms len by (subst block_loop_blocks_map [OF length_dec]) (simp_all add: room_def)
  then show ?thesis
    using e blocks_inverse [OF assms(2)] by simp
qed

text \<open>A packet that fits its struct survives encryption and decryption, apart from the fields the
  encryption fills in.\<close>

lemma packet_roundtrip:
  assumes "layout_ok lay" "length p = size_of lay" "p ! 0 \<noteq> 116"
  shows "crypt_decode dec lay (crypt_encode enc lay p) = (packet_seal lay p)[0 := 102]"
proof -
  let ?s = "packet_seal lay p" and ?e = "endchunk lay"
  let ?c = "block_loop enc header_unique ?e ?s"
  have len: "length ?s = length p" and rm: "room (?e - 8) (drop 8 ?s)" and l8: "8 \<le> length ?s"
    using assms(1,2) length_packet_seal [of p lay] by (auto simp: layout_ok_def room_def)
  have c: "?c = take 8 ?s @ blocks_map enc (?e - 8) (drop 8 ?s)"
    unfolding header_unique_def by (rule block_loop_blocks_map [OF length_enc l8 rm])
  have "?c[0 := 102] = block_loop enc 8 ?e (?s[0 := 102])"
    using l8 rm by (subst block_loop_blocks_map [OF length_enc]) (simp_all add: c take_update_swap list_update_append)
  then have d: "block_loop dec header_unique ?e (?c[0 := 102]) = ?s[0 := 102]"
    unfolding header_unique_def using l8 rm by (simp add: block_loop_inverse)
  have "?c ! 0 = 116"
    using l8 packet_seal_crypt [of p lay] assms(1,2) by (simp add: c nth_append layout_ok_def)
  then show ?thesis
    using assms(3) d packet_seal_fields [OF assms(1,2)]
    by (simp add: crypt_decode_def crypt_encode_def Let_def field_upd0 header_len_def header_hash_def header_password_def)
qed

end

context block_cipher
begin

text \<open>A query is encrypted as the short struct and decrypted as the long one, in a buffer in which other
  bytes follow it: the receiver accepts it and finds its first 120 bytes.\<close>

lemma query_in_source:
  assumes "length p = 124" "p ! 0 \<noteq> 116" "length pad = 4064"
  shows "take 120 (crypt_decode dec netSource (crypt_encode enc netQuery p @ pad)) = take 120 ((packet_seal netQuery p)[0 := 102])"
proof -
  let ?s = "packet_seal netQuery p"
  have lp: "length p = size_of netQuery" using assms(1) by (simp add: netQuery_def)
  have ls: "length ?s = 124" "?s ! 0 = 116" using assms(1) length_packet_seal [of p] packet_seal_crypt [of p] by simp_all
  define E where "E = blocks_map enc 112 (take 112 (drop 8 ?s))"
  define R where "R = drop 112 (drop 8 ?s) @ pad"
  have c97: "blocks_map f 112 q = blocks_map f 97 q" for f q
    using blocks_map_round [where j = 0 and k = 6 and f = f and q = q] by simp
  have eE: "length E = 112"
    unfolding E_def c97 by (subst length_blocks_map [OF length_enc]) (simp_all add: ls room_def)
  have "blocks_map enc 100 (drop 8 ?s) = blocks_map enc 112 (drop 8 ?s)"
    using blocks_map_round [where j = 3 and k = 6 and f = enc and q = "drop 8 ?s"] by simp
  also have "\<dots> = blocks_map enc 112 (take 112 (drop 8 ?s) @ drop 112 (drop 8 ?s))"
    by (simp only: append_take_drop_id)
  also have "\<dots> = E @ drop 112 (drop 8 ?s)"
    using blocks_map_append [where f = enc and k = 7 and m = 0 and ?q1.0 = "take 112 (drop 8 ?s)" and ?q2.0 = "drop 112 (drop 8 ?s)"] length_enc ls
    by (simp add: E_def blocks_map.simps [of enc 0])
  finally have b: "blocks_map enc 100 (drop 8 ?s) = E @ drop 112 (drop 8 ?s)" .
  have "block_loop enc 8 108 ?s = take 8 ?s @ blocks_map enc 100 (drop 8 ?s)"
    using block_loop_blocks_map [of enc 8 ?s 108] length_enc ls by (simp add: room_def)
  then have sealed: "crypt_encode enc netQuery p @ pad = take 8 ?s @ E @ R"
    using assms(2) b by (simp add: crypt_encode_def R_def netQuery_def header_unique_def)
  have R: "length R = 4068" using assms(3) ls by (simp add: R_def)
  let ?d = "(take 8 ?s @ E @ R)[0 := 102]"
  have hd: "?d = take 8 (?s[0 := 102]) @ E @ R"
    using ls by (simp add: list_update_append take_update_swap)
  define D where "D = block_loop dec 8 4172 ?d"
  have "D = take 8 ?d @ blocks_map dec 4164 (drop 8 ?d)"
    unfolding D_def using block_loop_blocks_map [of dec 8 ?d 4172] length_dec ls eE R by (simp add: room_def)
  also have "\<dots> = take 8 (?s[0 := 102]) @ blocks_map dec 4164 (E @ R)"
    unfolding hd using ls by simp
  also have "blocks_map dec 4164 (E @ R) = blocks_map dec 112 E @ blocks_map dec 4052 R"
    using blocks_map_append [where f = dec and k = 7 and m = 4052 and ?q1.0 = E and ?q2.0 = R] length_dec eE by simp
  also have "blocks_map dec 112 E = take 112 (drop 8 ?s)"
    unfolding E_def c97 by (rule blocks_inverse) (simp add: room_def ls)
  finally have D: "take 120 D = take 120 (?s[0 := 102])"
    using ls by (simp add: take_add [of 8 112, simplified] take_update_swap list_update_append)
  have fields: "field off n D = field off n ?s" if "off + n \<le> 120" "0 < off" for off n
    using arg_cong [OF D, of "\<lambda>x. take n (drop off x)"] that
    by (simp add: field_def drop_take min_absorb1 le_diff_conv2)
  have "take 88 (drop 20 D) = take 88 (drop 20 ?s)"
    using fields [of 20 88] by (simp add: field_def)
  then have h: "RSHash (drop 20 D) 88 = RSHash (drop 20 ?s) 88" by (simp add: RSHash_def)
  note f = packet_seal_fields [OF layouts_ok(1) lp]
  have "crypt_decode dec netSource (take 8 ?s @ E @ R) = D"
    using ls f fields [of 12 4] fields [of 16 4] h
    by (simp add: crypt_decode_def Let_def nth_append netSource_def netQuery_def SOURCE_CHUNK_SIZE_def
        header_unique_def header_len_def header_hash_def header_password_def D_def)
  then show ?thesis unfolding sealed using D by simp
qed

end

interpretation aes: block_cipher "aes_encrypt_block key" "aes_decrypt_block key" for key
  by unfold_locales
    (simp_all add: aes_encrypt_block_def aes_decrypt_block_def AES128_ECB_encrypt_def AES128_ECB_decrypt_def
      Let_def BlockCopy_16 aes_init_def InvCipher_Cipher)

lemma aes_any_state:
  assumes "length (RoundKey g) = 176" "length b = 16" "length out = 16"
  shows "snd (AES128_ECB_encrypt g b key out) = aes_encrypt_block key b"
    and "snd (AES128_ECB_decrypt g b key out) = aes_decrypt_block key b"
  using assms KeyExpansion_old_irrelevant [of "RoundKey g" "RoundKey aes_init" key]
  by (simp_all add: aes_encrypt_block_def aes_decrypt_block_def AES128_ECB_encrypt_def AES128_ECB_decrypt_def
      Let_def BlockCopy_16 aes_init_def)

section \<open>Properties\<close>

text \<open>C7. A packet of any struct, encrypted and decrypted under the same key, comes back with its payload:
  only the mark, the length and the checksum are those the encryption filled in, and the receiver
  accepts it.\<close>

theorem crypt_roundtrip:
  assumes "layout_ok lay" "length p = size_of lay" "p ! 0 \<noteq> 116"
  shows "crypt_decode (aes_decrypt_block key) lay (crypt_encode (aes_encrypt_block key) lay p) =
      (packet_seal lay p)[0 := 102] \<and>
    drop header_password ((packet_seal lay p)[0 := 102]) = drop header_password p"
  using aes.packet_roundtrip [OF assms] packet_seal_fields(3) [OF assms(1,2)] by (simp_all add: header_password_def)

theorem crypt_roundtrip_witness:
  "crypt_decode (aes_decrypt_block nist_key) netQuery (crypt_encode (aes_encrypt_block nist_key) netQuery (replicate 124 7)) =
    (packet_seal netQuery (replicate 124 7))[0 := 102]"
  using crypt_roundtrip [OF layouts_ok(1), of "replicate 124 7" nist_key] by (simp add: netQuery_def)

text \<open>C8. Encrypted requests reach the handler intact: a client encrypts a query, and the server, whose buffer
  is a source packet, decrypts all of the buffer; every field of the query from the password on is
  what the client wrote.\<close>

theorem encrypted_query_understood:
  assumes "length p = 124" "p ! 0 \<noteq> 116" "length pad = 4064" "20 \<le> off" "off + n \<le> 120"
  shows "field off n (crypt_decode (aes_decrypt_block key) netSource (crypt_encode (aes_encrypt_block key) netQuery p @ pad)) =
    field off n p"
proof -
  let ?d = "crypt_decode (aes_decrypt_block key) netSource (crypt_encode (aes_encrypt_block key) netQuery p @ pad)"
  have t: "field off n (take 120 q) = field off n q" for q
    using assms(5) by (simp add: field_def drop_take min_absorb1 le_diff_conv2)
  have "drop 20 ((packet_seal netQuery p)[0 := 102]) = drop 20 p"
    using packet_seal_fields(3) [OF layouts_ok(1), of p] assms(1) by (simp add: netQuery_def header_password_def)
  then have "drop (off - 20) (drop 20 ((packet_seal netQuery p)[0 := 102])) = drop (off - 20) (drop 20 p)"
    by simp
  then have "field off n ((packet_seal netQuery p)[0 := 102]) = field off n p"
    using assms(4) by (simp add: field_def)
  then show ?thesis
    using aes.query_in_source [OF assms(1-3), of key] t [of ?d] t [of "(packet_seal netQuery p)[0 := 102]"] by simp
qed

theorem encrypted_query_understood_witness:
  "field 20 16 (crypt_decode (aes_decrypt_block nist_key) netSource
     (crypt_encode (aes_encrypt_block nist_key) netQuery (replicate 124 7) @ replicate 4064 0)) = replicate 16 7"
  using encrypted_query_understood [of "replicate 124 7" "replicate 4064 0" 20 16 nist_key] by (simp add: field_def)

text \<open>What decryption accepts: whatever bytes arrive, the result is the zero packet, or a packet
  whose length field lies inside the struct and whose checksum matches its payload; in particular the
  checksum is never computed over bytes outside the packet.\<close>

theorem crypt_decode_accepts:
  assumes "layout_ok lay" "length p = size_of lay" "p ! 0 = 116"
    and "q = crypt_decode (aes_decrypt_block key) lay p"
  shows "q = replicate (size_of lay) 0 \<or>
    (length q = size_of lay \<and> q ! 0 = 102 \<and>
     (\<exists>n. sint (nint32_val (field header_len 4 q)) = int n \<and> header_password + n \<le> endchunk lay \<and>
       nint32_val (field header_hash 4 q) = RSHash (drop header_password q) n))"
proof -
  let ?d = "block_loop (aes_decrypt_block key) header_unique (endchunk lay) (p[0 := 102])"
  have l8: "8 \<le> length (p[0 := 102])" and rm: "room (endchunk lay - 8) (drop 8 (p[0 := 102]))"
    using assms(1,2) by (auto simp: layout_ok_def room_def)
  have d: "?d = take 8 (p[0 := 102]) @ blocks_map (aes_decrypt_block key) (endchunk lay - 8) (drop 8 (p[0 := 102]))"
    unfolding header_unique_def by (rule block_loop_blocks_map [OF aes.length_dec l8 rm])
  have "length ?d = size_of lay"
    using length_blocks_map [OF aes.length_dec rm] l8 assms(2) unfolding d by simp
  moreover have "?d ! 0 = 102"
    unfolding d using l8 by (cases p) (simp_all add: nth_append)
  ultimately show ?thesis
    using assms(1,3) unfolding assms(4) crypt_decode_def Let_def
    by (auto simp: layout_ok_def header_password_def intro!: exI [of _ "nat (sint (nint32_val (field header_len 4 ?d)))"])
qed

theorem crypt_decode_accepts_witness:
  "\<exists>q. crypt_decode (aes_decrypt_block nist_key) netQuery (116 # replicate 123 7) = q \<and>
   (q = replicate 124 0 \<or>
    (length q = 124 \<and> q ! 0 = 102 \<and>
     (\<exists>n. sint (nint32_val (field header_len 4 q)) = int n \<and> header_password + n \<le> 108 \<and>
       nint32_val (field header_hash 4 q) = RSHash (drop header_password q) n)))"
  using crypt_decode_accepts [OF layouts_ok(1), of "116 # replicate 123 7" _ nist_key, OF _ _ refl] by (simp add: netQuery_def)

text \<open>A key written to the configuration as base 64 and read back is the same key, whatever the
  buffer of the reader held before; the texts fit the buffers of 64 bytes on both sides.\<close>

theorem key_base64_roundtrip:
  assumes "length key = 16" "length buf = 64"
  shows "length (tobase64 key) \<le> 64 \<and> getbase64 buf old (butlast (tobase64 key)) = key"
  using assms
  by (simp add: tobase64_def getbase64_def encode_def Let_def decode_def decode_encode_loop length_encode_loop)

theorem key_base64_roundtrip_witness:
  "length (tobase64 nist_key) \<le> 64 \<and> getbase64 (replicate 64 9) [] (butlast (tobase64 nist_key)) = nist_key"
  by (rule key_base64_roundtrip) (simp_all add: nist_key_def)

lemma ucast_small: "unat v < 2 ^ 32 \<Longrightarrow> ucast (ucast v :: u32) = (v :: u64)"
  by (simp add: word_unat_eq_iff unsigned_ucast_eq take_bit_nat_eq_self unsigned_take_bit_eq take_bit_nat_eq_self_iff)

lemma nint64_roundtrip: "nint64_get (nint64_set v) = v"
proof -
  have "unat (v div 0x100000000) < 2 ^ 32"
    using unsigned_less [of v, where 'a = nat] by (simp add: unat_div)
  then have hi: "ucast (ucast (v div 0x100000000) :: u32) = v div 0x100000000"
    by (rule ucast_small)
  have "unat (v mod 0x100000000) < 2 ^ 32"
    by (simp add: unat_mod)
  then have lo: "ucast (ucast (v mod 0x100000000) :: u32) = v mod 0x100000000"
    by (rule ucast_small)
  show ?thesis
    by (simp add: nint64_get_def nint64_set_def Let_def ntohl_htonl hi minus_div_mult_eq_mod lo)
      (simp add: htonl_bytes_def ntohl_htonl [unfolded htonl_bytes_def] lo hi word_mod_div_equality)
qed

end
