(* ===== verification/YsDB.thy ===== *)
theory YsDB
  imports Classes Func Crypt
begin

text \<open>
  The account database of \<^verbatim>\<open>core/ysdb.hpp\<close>: passwords, access rights, session numbers, resources,
  addresses and the list of live receivers.

  The two LevelDB stores are maps from byte strings to byte strings, after LevelDB's contract for
  \<open>Get\<close>, \<open>Put\<close> and \<open>Delete\<close> without input/output errors.  The contract is the interface \<open>kv_store\<close>.  A
  \<open>const char*\<close> argument is cut at its terminator when it becomes a key or a value.  The locks of the
  class make each operation atomic; an operation is a function on the record \<open>ysdb\<close>.
\<close>

section \<open>The key-value store\<close>

type_synonym kv = "bytes \<rightharpoonup> bytes"

definition Get :: "kv \<Rightarrow> bytes \<Rightarrow> bytes option" where "Get m k = m k"
definition Put :: "kv \<Rightarrow> bytes \<Rightarrow> bytes \<Rightarrow> kv" where "Put m k v = m(k \<mapsto> v)"
definition Delete :: "kv \<Rightarrow> bytes \<Rightarrow> kv" where "Delete m k = m(k := None)"

locale kv_store =
  fixes get :: "'s \<Rightarrow> 'k \<Rightarrow> 'v option" and put :: "'s \<Rightarrow> 'k \<Rightarrow> 'v \<Rightarrow> 's" and del :: "'s \<Rightarrow> 'k \<Rightarrow> 's"
  assumes get_put: "get (put s k v) k' = (if k' = k then Some v else get s k')"
    and get_del: "get (del s k) k' = (if k' = k then None else get s k')"
begin

text \<open>A test-and-set on a key: the first client with a key gets through, later ones do not, and other keys
  are not affected.\<close>

lemma put_then_present: "get (put s k v) k \<noteq> None"
  by (simp add: get_put)

lemma put_many_other: "k \<notin> fst ` set kvs \<Longrightarrow> get (fold (\<lambda>(k, v) s. put s k v) kvs s) k = get s k"
  by (induction kvs arbitrary: s) (auto simp: get_put)

lemma put_many_keeps: "get s k \<noteq> None \<Longrightarrow> get (fold (\<lambda>(k, v) s. put s k v) kvs s) k \<noteq> None"
  by (induction kvs arbitrary: s) (auto simp: get_put)

end

interpretation kv: kv_store Get Put Delete
  by unfold_locales (simp_all add: Get_def Put_def Delete_def)

section \<open>State\<close>

record ysdb =
  userIP :: "u32 \<rightharpoonup> location"
  ldata :: kv
  livelist :: "location set"
  uniq :: kv

definition ysdb_empty :: ysdb where
  "ysdb_empty = \<lparr>userIP = Map.empty, ldata = Map.empty, livelist = {}, uniq = Map.empty\<rparr>"

definition lit :: "string \<Rightarrow> bytes" where
  "lit s = map (\<lambda>c. word_of_nat (of_char c)) s"

text \<open>A C string: the bytes before the terminator.\<close>

definition cstr :: "bytes \<Rightarrow> bytes" where
  "cstr s = takeWhile (\<lambda>c. c \<noteq> 0) s"

definition defaultUserInfo :: bytes where
  "defaultUserInfo = lit ''1234567890abcdef1234567890abcdef1234567890abcdef'' @ [0]"

definition userpre :: bytes where "userpre = lit ''system_user_''"
definition srcpre :: bytes where "srcpre = lit ''system_src_''"

definition user_key :: "u32 \<Rightarrow> bytes \<Rightarrow> bytes" where
  "user_key uid suf = userpre @ cstr (int2str uid) @ suf"

section \<open>Live receivers and addresses\<close>

definition liveAdd :: "ysdb \<Rightarrow> location \<Rightarrow> ysdb" where
  "liveAdd db a = db\<lparr>livelist := insert a (livelist db)\<rparr>"

definition liveRemove :: "ysdb \<Rightarrow> location \<Rightarrow> ysdb" where
  "liveRemove db a = (if a \<in> livelist db then db\<lparr>livelist := livelist db - {a}\<rparr> else db)"

definition liveClean :: "ysdb \<Rightarrow> ysdb" where
  "liveClean db = db\<lparr>livelist := {}\<rparr>"

text \<open>\<open>live\<close> calls back for every receiver in the order of the set; \<open>st\<close> is the state of the callback.\<close>

definition live :: "ysdb \<Rightarrow> (location \<Rightarrow> 's \<Rightarrow> 's) \<Rightarrow> 's \<Rightarrow> 's" where
  "live db callback st = fold callback (sorted_list_of_set (livelist db)) st"

definition logIP :: "ysdb \<Rightarrow> u32 \<Rightarrow> u32 \<Rightarrow> u16 \<Rightarrow> ysdb" where
  "logIP db userid i p = db\<lparr>userIP := (userIP db)(userid \<mapsto> Location i p)\<rparr>"

definition getUserIP :: "ysdb \<Rightarrow> u32 \<Rightarrow> bool \<times> u32 \<times> u16" where
  "getUserIP db userid =
    (case userIP db userid of None \<Rightarrow> (False, 0, 0) | Some p \<Rightarrow> (True, ip p, port p))"

section \<open>Keys and session numbers\<close>

text \<open>\<open>getkey\<close> returns the key it wrote; \<open>buf\<close> is the indeterminate buffer inside \<open>getbase64\<close>.\<close>

definition getkey :: "ysdb \<Rightarrow> bytes \<Rightarrow> u32 \<Rightarrow> bytes \<Rightarrow> bool \<times> bytes" where
  "getkey db buf uid key =
    (case Get (ldata db) (user_key uid (lit ''_key'')) of
      None \<Rightarrow> (False, key)
    | Some v \<Rightarrow> if length v < 16 then (False, key) else (True, getbase64 buf key (cstr v)))"

definition setkey :: "ysdb \<Rightarrow> u32 \<Rightarrow> bytes \<Rightarrow> ysdb" where
  "setkey db uid key = db\<lparr>ldata := Put (ldata db) (user_key uid (lit ''_key'')) (cstr (tobase64 key))\<rparr>"

text \<open>\<open>%d\<close>.\<close>

fun dec_digits :: "nat \<Rightarrow> bytes" where
  "dec_digits n = (if n < 10 then [word_of_nat (48 + n)] else dec_digits (n div 10) @ [word_of_nat (48 + n mod 10)])"

declare dec_digits.simps [simp del]

definition fmt_d :: "u32 \<Rightarrow> bytes" where
  "fmt_d w = (let i = sint w in if i < 0 then 45 # dec_digits (nat (- i)) else dec_digits (nat i))"

definition unique_key :: "u32 \<Rightarrow> u32 \<Rightarrow> bytes" where
  "unique_key uid lid = fmt_d uid @ 58 # fmt_d lid"

definition logunique :: "ysdb \<Rightarrow> u32 \<Rightarrow> u32 \<Rightarrow> u32 \<Rightarrow> bool \<times> ysdb" where
  "logunique db now uid lid =
    (if lid = 0 then (True, db)
     else case Get (uniq db) (unique_key uid lid) of
       Some v \<Rightarrow> if v \<noteq> [] then (False, db)
                 else (True, db\<lparr>uniq := Put (uniq db) (unique_key uid lid) (fmt_d now)\<rparr>)
     | None \<Rightarrow> (True, db\<lparr>uniq := Put (uniq db) (unique_key uid lid) (fmt_d now)\<rparr>))"

definition uniqueExist :: "ysdb \<Rightarrow> u32 \<Rightarrow> u32 \<Rightarrow> bool" where
  "uniqueExist db uid lid =
    (if lid = 0 then False
     else case Get (uniq db) (unique_key uid lid) of Some v \<Rightarrow> v \<noteq> [] | None \<Rightarrow> False)"

section \<open>Accounts\<close>

definition userExist :: "ysdb \<Rightarrow> u32 \<Rightarrow> bool" where
  "userExist db userid =
    (case Get (ldata db) (user_key userid []) of Some v \<Rightarrow> v \<noteq> [] | None \<Rightarrow> False)"

text \<open>The loop that compares a password with the stored text \<open>tp\<close>, from position \<open>i\<close> on.\<close>

function pwd_loop :: "bytes \<Rightarrow> bytes \<Rightarrow> nat \<Rightarrow> bool" where
  "pwd_loop pwd tp i =
    (if 16 \<le> i then True
     else if cbyte pwd i = cbyte tp i \<and> cbyte pwd i = 0 \<and> i > 6 then True
     else if cbyte pwd i = 0 then False
     else if cbyte tp i = 0 then False
     else if cbyte pwd i \<noteq> cbyte tp i then False
     else pwd_loop pwd tp (i + 1))"
  by pat_completeness auto
termination by (relation "measure (\<lambda>(pwd, tp, i). 16 - i)") auto

declare pwd_loop.simps [simp del]

text \<open>\<open>nowtime()\<close> as a C string.\<close>

definition nowtime_str :: "u32 \<Rightarrow> bytes" where
  "nowtime_str now = cstr (int2str now)"

text \<open>The answer, the string left in \<open>v\<close> (empty before), and the state.  A \<open>Get\<close> that finds nothing leaves
  \<open>v\<close> as it is, so after a failure \<open>v\<close> may hold the temporary password or the account.\<close>

definition login :: "ysdb \<Rightarrow> u32 \<Rightarrow> u32 \<Rightarrow> bytes \<Rightarrow> bool \<times> bytes \<times> ysdb" where
  "login db now userid pwd =
    (let user = Get (ldata db) (user_key userid []);
         tmp = Get (ldata db) (user_key userid (lit ''_tmp''));
         tmp_ok = (case tmp of None \<Rightarrow> False | Some t \<Rightarrow> t \<noteq> [] \<and> pwd_loop pwd t 0);
         v0 = (case tmp of None \<Rightarrow> [] | Some t \<Rightarrow> t);
         db1 = db\<lparr>ldata := Put (ldata db) (user_key userid (lit ''_time'')) (nowtime_str now)\<rparr>
     in if tmp_ok then
          (case user of None \<Rightarrow> (False, v0, db) | Some v \<Rightarrow> (True, v, db1))
        else
          (case user of
            None \<Rightarrow> (False, v0, db)
          | Some v \<Rightarrow> if v = [] then (False, v, db)
                      else if pwd_loop pwd v 0 then (True, v, db1) else (False, v, db)))"

definition strlencheck :: "bytes \<Rightarrow> nat \<Rightarrow> bool" where
  "strlencheck s l \<longleftrightarrow> (\<forall>i \<in> set [0..<l]. cbyte s i \<noteq> 0)"

definition setTmpPwd :: "ysdb \<Rightarrow> u32 \<Rightarrow> bytes \<Rightarrow> bool \<times> ysdb" where
  "setTmpPwd db userid pwd =
    (if strlencheck pwd 16
     then (True, db\<lparr>ldata := Put (ldata db) (user_key userid (lit ''_tmp'')) (take 16 pwd)\<rparr>)
     else (False, db))"

text \<open>\<open>writestr\<close> and the loops of \<open>changePwd\<close> and \<open>changeAcl\<close>: sixteen bytes from an offset on.\<close>

definition write16 :: "bytes \<Rightarrow> bytes \<Rightarrow> nat \<Rightarrow> bytes" where
  "write16 v b begin = take begin v @ take 16 b @ drop (begin + 16) v"

definition change_info :: "ysdb \<Rightarrow> u32 \<Rightarrow> bytes \<Rightarrow> nat \<Rightarrow> bool \<times> ysdb" where
  "change_info db userid s begin =
    (if \<not> strlencheck s 16 then (False, db)
     else case Get (ldata db) (user_key userid []) of
       None \<Rightarrow> (False, db)
     | Some v \<Rightarrow>
         if length v < length defaultUserInfo then (False, db)
         else (True, db\<lparr>ldata := Put (ldata db) (user_key userid []) (write16 v s begin)\<rparr>))"

definition changePwd :: "ysdb \<Rightarrow> u32 \<Rightarrow> bytes \<Rightarrow> bool \<times> ysdb" where
  "changePwd db userid pwd = change_info db userid pwd 0"

definition changeAcl :: "ysdb \<Rightarrow> u32 \<Rightarrow> bytes \<Rightarrow> bool \<times> ysdb" where
  "changeAcl db userid acl = change_info db userid acl 16"

definition newUser :: "ysdb \<Rightarrow> u32 \<Rightarrow> ysdb" where
  "newUser db userid = db\<lparr>ldata := Put (ldata db) (user_key userid []) (cstr defaultUserInfo)\<rparr>"

definition delUser :: "ysdb \<Rightarrow> u32 \<Rightarrow> ysdb" where
  "delUser db userid = db\<lparr>ldata := Delete (ldata db) (user_key userid [])\<rparr>"

section \<open>Resources\<close>

text \<open>The two overloads of \<open>getSrcName\<close>.  The one with a user does not write the first eight bytes of its
  buffer: they are the argument \<open>junk\<close>.\<close>

definition getSrcName :: "bytes \<Rightarrow> bytes option" where
  "getSrcName name = (if strlencheck name 16 then Some (take 8 name @ [0]) else None)"

definition getSrcName_user :: "bytes \<Rightarrow> bytes \<Rightarrow> u32 \<Rightarrow> bytes option" where
  "getSrcName_user junk name userid = (if strlencheck name 16 then Some (take 8 junk @ take 8 name @ [0]) else None)"

definition src_key :: "bytes \<Rightarrow> bytes" where
  "src_key name = srcpre @ cstr name"

definition writeSrc :: "ysdb \<Rightarrow> bytes \<Rightarrow> bytes \<Rightarrow> bool \<times> ysdb" where
  "writeSrc db sname src =
    (case getSrcName sname of None \<Rightarrow> (False, db)
     | Some name \<Rightarrow> (True, db\<lparr>ldata := Put (ldata db) (src_key name) (cstr src)\<rparr>))"

text \<open>The user variants first look the resource itself up.\<close>

definition user_src :: "ysdb \<Rightarrow> bytes \<Rightarrow> bytes \<Rightarrow> u32 \<Rightarrow> bytes option" where
  "user_src db junk sname userid =
    (case getSrcName sname of None \<Rightarrow> None
     | Some name1 \<Rightarrow>
         (case Get (ldata db) (src_key name1) of None \<Rightarrow> None
          | Some _ \<Rightarrow> getSrcName_user junk sname userid))"

definition writeSrc_user :: "ysdb \<Rightarrow> bytes \<Rightarrow> bytes \<Rightarrow> u32 \<Rightarrow> bytes \<Rightarrow> bool \<times> ysdb" where
  "writeSrc_user db junk sname userid src =
    (case user_src db junk sname userid of None \<Rightarrow> (False, db)
     | Some name \<Rightarrow> (True, db\<lparr>ldata := Put (ldata db) (src_key name) (cstr src)\<rparr>))"

definition readSrc :: "ysdb \<Rightarrow> bytes \<Rightarrow> bytes option" where
  "readSrc db sname = (case getSrcName sname of None \<Rightarrow> None | Some name \<Rightarrow> Get (ldata db) (src_key name))"

definition readSrc_user :: "ysdb \<Rightarrow> bytes \<Rightarrow> bytes \<Rightarrow> u32 \<Rightarrow> bytes option" where
  "readSrc_user db junk sname userid =
    (case user_src db junk sname userid of None \<Rightarrow> None | Some name \<Rightarrow> Get (ldata db) (src_key name))"

definition delSrc :: "ysdb \<Rightarrow> bytes \<Rightarrow> bool \<times> ysdb" where
  "delSrc db sname =
    (case getSrcName sname of None \<Rightarrow> (False, db)
     | Some name \<Rightarrow> (True, db\<lparr>ldata := Delete (ldata db) (src_key name)\<rparr>))"

definition delSrc_user :: "ysdb \<Rightarrow> bytes \<Rightarrow> bytes \<Rightarrow> u32 \<Rightarrow> bool \<times> ysdb" where
  "delSrc_user db junk sname userid =
    (case user_src db junk sname userid of None \<Rightarrow> (False, db)
     | Some name \<Rightarrow> (True, db\<lparr>ldata := Delete (ldata db) (src_key name)\<rparr>))"

definition existSrc :: "ysdb \<Rightarrow> bytes \<Rightarrow> bool" where
  "existSrc db sname = (case readSrc db sname of None \<Rightarrow> False | Some s \<Rightarrow> s \<noteq> [])"

definition existSrc_user :: "ysdb \<Rightarrow> bytes \<Rightarrow> bytes \<Rightarrow> u32 \<Rightarrow> bool" where
  "existSrc_user db junk sname userid =
    (case readSrc_user db junk sname userid of None \<Rightarrow> False | Some s \<Rightarrow> s \<noteq> [])"

section \<open>Keys are distinct\<close>

lemma cstr_int2str: "cstr (int2str uid) = fmt_8x uid"
  unfolding cstr_def int2str_split by (subst takeWhile_append2) (use fmt_8x_nonzero [of uid] in auto)

lemma user_key_inject [simp]: "user_key u s = user_key u' s' \<longleftrightarrow> u = u' \<and> s = s'"
  by (auto simp: user_key_def cstr_int2str length_fmt_8x fmt_8x_inject)

lemma src_key_user [simp]: "src_key n \<noteq> user_key u s" "user_key u s \<noteq> src_key n"
  by (simp_all add: src_key_def user_key_def srcpre_def userpre_def lit_def)

lemma lit_suffixes [simp]: "lit ''_tmp'' \<noteq> []" "lit ''_key'' \<noteq> []" "lit ''_time'' \<noteq> []"
  by (simp_all add: lit_def)

lemma dec_digits_props:
  "dec_digits n \<noteq> [] \<and> (\<forall>x \<in> set (dec_digits n). 48 \<le> unat x \<and> unat x \<le> 57) \<and>
    foldl (\<lambda>n x. 10 * n + (unat x - 48)) 0 (dec_digits n) = n"
proof (induction n rule: dec_digits.induct)
  case (1 n)
  have digit: "unat (word_of_nat (48 + d) :: u8) = 48 + d" if "d < 10" for d
    using that by (simp add: unat_of_nat del: of_nat_add of_nat_numeral)
  show ?case
  proof (cases "n < 10")
    case True
    then show ?thesis using digit [of n] by (simp add: dec_digits.simps [of n])
  next
    case False
    then show ?thesis
      using 1 digit [of "n mod 10"] by (auto simp: dec_digits.simps [of n])
  qed
qed

lemma dec_digits_inject: "dec_digits m = dec_digits n \<longleftrightarrow> m = n"
  using dec_digits_props [THEN conjunct2, THEN conjunct2] by metis

lemma dec_digits_no: "x \<in> set (dec_digits n) \<Longrightarrow> x \<noteq> 58 \<and> x \<noteq> 45"
  using dec_digits_props [of n] by fastforce

lemma fmt_d_chars: "fmt_d w \<noteq> [] \<and> 58 \<notin> set (fmt_d w)"
  using dec_digits_no dec_digits_props by (auto simp: fmt_d_def Let_def)

lemma dec_digits_no_minus: "dec_digits m \<noteq> 45 # xs"
  using dec_digits_no [of 45 m] by auto

lemma fmt_d_inject: "fmt_d v = fmt_d w \<longleftrightarrow> v = w"
proof
  assume "fmt_d v = fmt_d w"
  then have "sint v = sint w"
    using dec_digits_no_minus [THEN not_sym] dec_digits_no_minus
    by (auto simp: fmt_d_def Let_def dec_digits_inject split: if_splits)
  then show "v = w" by (rule signed_word_eqI)
qed simp

lemma split_at_unique: "x \<notin> set a \<Longrightarrow> x \<notin> set b \<Longrightarrow> a @ x # c = b @ x # d \<longleftrightarrow> a = b \<and> c = d"
proof (induction a arbitrary: b)
  case Nil
  then show ?case by (cases b) auto
next
  case (Cons y a)
  then show ?case by (cases b) auto
qed

lemma unique_key_inject [simp]: "unique_key u l = unique_key u' l' \<longleftrightarrow> u = u' \<and> l = l'"
  using fmt_d_chars by (simp add: unique_key_def split_at_unique fmt_d_inject)

section \<open>Reachable databases\<close>

text \<open>One operation of the database, with any arguments.\<close>

inductive db_step :: "ysdb \<Rightarrow> ysdb \<Rightarrow> bool" where
  "db_step db (liveAdd db a)"
| "db_step db (liveRemove db a)"
| "db_step db (liveClean db)"
| "db_step db (logIP db uid i p)"
| "db_step db (setkey db uid key)"
| "db_step db (snd (logunique db now uid lid))"
| "db_step db (snd (snd (login db now uid pwd)))"
| "db_step db (snd (setTmpPwd db uid pwd))"
| "db_step db (snd (changePwd db uid pwd))"
| "db_step db (snd (changeAcl db uid acl))"
| "db_step db (newUser db uid)"
| "db_step db (delUser db uid)"
| "db_step db (snd (writeSrc db sname src))"
| "db_step db (snd (writeSrc_user db junk sname uid src))"
| "db_step db (snd (delSrc db sname))"
| "db_step db (snd (delSrc_user db junk sname uid))"

inductive db_steps :: "ysdb \<Rightarrow> ysdb \<Rightarrow> bool" where
  db_refl: "db_steps db db"
| db_more: "db_steps db db' \<Longrightarrow> db_step db' db'' \<Longrightarrow> db_steps db db''"

lemmas db_ops = liveAdd_def liveRemove_def liveClean_def logIP_def setkey_def logunique_def login_def
  setTmpPwd_def changePwd_def changeAcl_def change_info_def newUser_def delUser_def writeSrc_def
  writeSrc_user_def delSrc_def delSrc_user_def

text \<open>Every account holds the information it was created with.\<close>

definition default_accounts :: "ysdb \<Rightarrow> bool" where
  "default_accounts db \<longleftrightarrow> (\<forall>uid v. Get (ldata db) (user_key uid []) = Some v \<longrightarrow> v = cstr defaultUserInfo)"

lemma default_info_short: "length (cstr defaultUserInfo) = 48" "length defaultUserInfo = 49"
  by (simp_all add: defaultUserInfo_def cstr_def lit_def)

lemma change_info_default:
  assumes "default_accounts db"
  shows "change_info db uid s begin = (False, db)"
proof -
  have "length v = 48" if "Get (ldata db) (user_key uid []) = Some v" for v
    using assms that default_info_short(1) by (simp add: default_accounts_def)
  then show ?thesis
    by (auto simp: change_info_def default_info_short(2) split: option.splits)
qed

lemma default_accounts_other [simp]:
  "default_accounts (db\<lparr>userIP := i\<rparr>) = default_accounts db"
  "default_accounts (db\<lparr>livelist := l\<rparr>) = default_accounts db"
  "default_accounts (db\<lparr>uniq := u\<rparr>) = default_accounts db"
  by (simp_all add: default_accounts_def)

lemma default_accounts_put:
  "default_accounts db \<Longrightarrow> (\<And>uid. k \<noteq> user_key uid []) \<Longrightarrow> default_accounts (db\<lparr>ldata := Put (ldata db) k v\<rparr>)"
  "default_accounts db \<Longrightarrow> default_accounts (db\<lparr>ldata := Put (ldata db) k (cstr defaultUserInfo)\<rparr>)"
  "default_accounts db \<Longrightarrow> default_accounts (db\<lparr>ldata := Delete (ldata db) k\<rparr>)"
  by (auto simp: default_accounts_def kv.get_put kv.get_del split: if_splits)

lemma default_accounts_step: "db_step db db' \<Longrightarrow> default_accounts db \<Longrightarrow> default_accounts db'"
  by (induction rule: db_step.induct)
    (auto simp: changePwd_def changeAcl_def change_info_default liveAdd_def liveRemove_def liveClean_def logIP_def
      setkey_def logunique_def login_def setTmpPwd_def newUser_def delUser_def writeSrc_def writeSrc_user_def
      delSrc_def delSrc_user_def Let_def intro: default_accounts_put split: option.splits)

lemma default_accounts_steps: "db_steps db db' \<Longrightarrow> default_accounts db \<Longrightarrow> default_accounts db'"
  by (induction rule: db_steps.induct) (auto intro: default_accounts_step)

lemma default_accounts_empty: "default_accounts ysdb_empty"
  by (simp add: default_accounts_def ysdb_empty_def Get_def)

text \<open>A session number that was logged stays logged.\<close>

definition logged :: "ysdb \<Rightarrow> u32 \<Rightarrow> u32 \<Rightarrow> bool" where
  "logged db uid lid \<longleftrightarrow> (\<exists>v. Get (uniq db) (unique_key uid lid) = Some v \<and> v \<noteq> [])"

lemma logunique_cases:
  "logunique db now uid lid =
    (if lid = 0 then (True, db)
     else if logged db uid lid then (False, db)
     else (True, db\<lparr>uniq := Put (uniq db) (unique_key uid lid) (fmt_d now)\<rparr>))"
  by (auto simp: logunique_def logged_def split: option.splits)

lemma logged_put:
  "logged (db\<lparr>uniq := Put (uniq db) (unique_key u l) (fmt_d now)\<rparr>) uid lid \<longleftrightarrow> (u = uid \<and> l = lid) \<or> logged db uid lid"
  using fmt_d_chars [of now] by (auto simp: logged_def kv.get_put)

lemma logged_other [simp]:
  "logged (db\<lparr>userIP := i\<rparr>) uid lid = logged db uid lid"
  "logged (db\<lparr>livelist := l\<rparr>) uid lid = logged db uid lid"
  "logged (db\<lparr>ldata := d\<rparr>) uid lid = logged db uid lid"
  by (simp_all add: logged_def)

lemma logged_step: "db_step db db' \<Longrightarrow> logged db uid lid \<Longrightarrow> logged db' uid lid"
proof (induction rule: db_step.induct)
  case (6 db now u l)
  then show ?case by (simp add: logunique_cases logged_put)
qed (auto simp: db_ops Let_def split: option.splits)

lemma logged_steps: "db_steps db db' \<Longrightarrow> logged db uid lid \<Longrightarrow> logged db' uid lid"
  by (induction rule: db_steps.induct) (auto intro: logged_step)

section \<open>Passwords\<close>

text \<open>What the comparison accepts: the whole sixteen bytes agree, or both texts end together after at
  least seven equal bytes.\<close>

definition pwd_matches :: "bytes \<Rightarrow> bytes \<Rightarrow> bool" where
  "pwd_matches pwd tp \<longleftrightarrow> (\<exists>n. (n = 16 \<or> (7 \<le> n \<and> n < 16 \<and> cbyte pwd n = 0 \<and> cbyte tp n = 0)) \<and>
    (\<forall>i < n. cbyte pwd i = cbyte tp i \<and> cbyte pwd i \<noteq> 0))"

lemma pwd_loop_matches:
  assumes "i \<le> 16" "\<forall>j < i. cbyte pwd j = cbyte tp j \<and> cbyte pwd j \<noteq> 0"
  shows "pwd_loop pwd tp i \<longleftrightarrow> pwd_matches pwd tp"
  using assms
proof (induction pwd tp i rule: pwd_loop.induct)
  case (1 pwd tp i)
  show ?case
  proof (cases "i = 16")
    case True
    then show ?thesis
      using "1.prems" by (auto simp: pwd_loop.simps [of pwd tp 16] pwd_matches_def)
  next
    case False
    then have i: "i < 16" using "1.prems" by simp
    show ?thesis
    proof (cases "cbyte pwd i = cbyte tp i \<and> cbyte pwd i \<noteq> 0")
      case True
      have "pwd_loop pwd tp i = pwd_loop pwd tp (i + 1)"
        using True i by (auto simp: pwd_loop.simps [of pwd tp i])
      moreover have "\<forall>j < i + 1. cbyte pwd j = cbyte tp j \<and> cbyte pwd j \<noteq> 0"
        using True "1.prems"(2) by (auto simp: less_Suc_eq)
      moreover have "pwd_loop pwd tp (i + 1) = pwd_matches pwd tp"
        by (rule "1.IH") (use True i calculation in auto)
      ultimately show ?thesis by simp
    next
      case ne: False
      have "n \<le> i" if "\<forall>j < n. cbyte pwd j = cbyte tp j \<and> cbyte pwd j \<noteq> 0" for n
        using that ne by (metis linorder_not_le)
      then have "pwd_matches pwd tp \<longleftrightarrow> 7 \<le> i \<and> cbyte pwd i = 0 \<and> cbyte tp i = 0"
        using i "1.prems"(2) unfolding pwd_matches_def by (metis linorder_not_le order_antisym)
      then show ?thesis
        using ne i by (auto simp: pwd_loop.simps [of pwd tp i])
    qed
  qed
qed

lemma pwd_loop_0: "pwd_loop pwd tp 0 = pwd_matches pwd tp"
  by (rule pwd_loop_matches) simp_all

lemma default_pwd_matches: "pwd_matches (lit ''1234567890abcdef'') (cstr defaultUserInfo)"
proof -
  have "\<forall>i \<in> set [0..<16]. cbyte (lit ''1234567890abcdef'') i = cbyte (cstr defaultUserInfo) i \<and>
      cbyte (lit ''1234567890abcdef'') i \<noteq> 0"
    by (simp add: cbyte_def lit_def cstr_def defaultUserInfo_def upt_16)
  then have "\<forall>i < 16. cbyte (lit ''1234567890abcdef'') i = cbyte (cstr defaultUserInfo) i \<and>
      cbyte (lit ''1234567890abcdef'') i \<noteq> 0"
    by (simp only: set_upt atLeastLessThan_iff le0 simp_thms Ball_def)
  then show ?thesis unfolding pwd_matches_def by blast
qed

section \<open>Properties\<close>

text \<open>A login succeeds exactly when the account exists and the password matches the temporary one, or
  the account's own; a successful login changes nothing but the time stamp, a failed one nothing.\<close>

lemma login_accepts:
  "fst (login db now uid pwd) \<longleftrightarrow>
    (\<exists>v. Get (ldata db) (user_key uid []) = Some v \<and>
      ((\<exists>t. Get (ldata db) (user_key uid (lit ''_tmp'')) = Some t \<and> pwd_matches pwd t) \<or> pwd_matches pwd v))"
  "snd (snd (login db now uid pwd)) =
    (if fst (login db now uid pwd)
     then db\<lparr>ldata := Put (ldata db) (user_key uid (lit ''_time'')) (nowtime_str now)\<rparr> else db)"
proof -
  have "\<not> pwd_matches pwd []"
    unfolding pwd_matches_def cbyte_def by (auto intro!: exI [of _ "0 :: nat"])
  then show "fst (login db now uid pwd) \<longleftrightarrow>
    (\<exists>v. Get (ldata db) (user_key uid []) = Some v \<and>
      ((\<exists>t. Get (ldata db) (user_key uid (lit ''_tmp'')) = Some t \<and> pwd_matches pwd t) \<or> pwd_matches pwd v))"
    by (auto simp: login_def Let_def pwd_loop_0 split: option.splits)
  show "snd (snd (login db now uid pwd)) =
    (if fst (login db now uid pwd)
     then db\<lparr>ldata := Put (ldata db) (user_key uid (lit ''_time'')) (nowtime_str now)\<rparr> else db)"
    by (auto simp: login_def Let_def split: option.splits)
qed

text \<open>C29. A login succeeds exactly when the account exists and the password matches the temporary one, or
  the account's own; a successful login changes nothing but the time stamp, a failed one nothing.\<close>

theorem login_iff:
  "(fst (login db now uid pwd) \<longleftrightarrow>
    (\<exists>v. Get (ldata db) (user_key uid []) = Some v \<and>
      ((\<exists>t. Get (ldata db) (user_key uid (lit ''_tmp'')) = Some t \<and> pwd_matches pwd t) \<or> pwd_matches pwd v))) \<and>
   snd (snd (login db now uid pwd)) =
    (if fst (login db now uid pwd)
     then db\<lparr>ldata := Put (ldata db) (user_key uid (lit ''_time'')) (nowtime_str now)\<rparr> else db)"
  by (intro conjI login_accepts)

text \<open>Replay protection: once a session number other than zero was accepted, it is refused ever
  after, whatever operations follow, and no other session number is affected.\<close>

theorem session_number_once:
  assumes "lid \<noteq> 0" "logunique db now uid lid = (True, db1)" "db_steps db1 db2"
  shows "logunique db2 now' uid lid = (False, db2) \<and>
    (\<forall>uid' lid'. (uid', lid') \<noteq> (uid, lid) \<longrightarrow> uniqueExist db1 uid' lid' = uniqueExist db uid' lid')"
proof -
  have db1: "db1 = db\<lparr>uniq := Put (uniq db) (unique_key uid lid) (fmt_d now)\<rparr>"
    using assms(1,2) by (auto simp: logunique_cases split: if_splits)
  then have "logged db1 uid lid" by (simp add: logged_put)
  from logged_steps [OF assms(3) this] assms(1) show ?thesis
    by (auto simp: logunique_cases uniqueExist_def db1 kv.get_put)
qed

text \<open>No password and no access right can ever be changed: in every database that grows from an empty
  one, \<open>changePwd\<close> and \<open>changeAcl\<close> refuse every request, because a new account is one byte shorter
  than the length they demand.\<close>

theorem change_always_refused:
  assumes "db_steps ysdb_empty db"
  shows "changePwd db uid pwd = (False, db) \<and> changeAcl db uid acl = (False, db)"
  using change_info_default [OF default_accounts_steps [OF assms default_accounts_empty]]
  by (simp add: changePwd_def changeAcl_def)

text \<open>Every account can be entered with the default password, at any time after its creation.\<close>

theorem default_password_always_works:
  assumes "db_steps ysdb_empty db" "userExist db uid"
  shows "\<exists>v db'. login db now uid (lit ''1234567890abcdef'') = (True, v, db')"
proof -
  obtain v where v: "Get (ldata db) (user_key uid []) = Some v" "v \<noteq> []"
    using assms(2) by (auto simp: userExist_def split: option.splits)
  then have "v = cstr defaultUserInfo"
    using default_accounts_steps [OF assms(1) default_accounts_empty] by (simp add: default_accounts_def)
  then show ?thesis
    using v default_pwd_matches by (auto simp: login_def Let_def pwd_loop_0)
qed

lemma one_user: "db_steps ysdb_empty (newUser ysdb_empty 7)"
  by (rule db_more [OF db_refl]) (rule db_step.intros)

theorem session_number_once_witness:
  "\<exists>db1. logunique ysdb_empty 5 7 9 = (True, db1) \<and> logunique db1 6 7 9 = (False, db1)"
proof -
  obtain db1 where db1: "logunique ysdb_empty 5 7 9 = (True, db1)"
    by (simp add: logunique_def ysdb_empty_def Get_def)
  from session_number_once [OF _ this db_refl, of 6] db1 show ?thesis by simp
qed

theorem change_always_refused_witness:
  "changePwd (newUser ysdb_empty 7) 7 (lit ''new password 123'') = (False, newUser ysdb_empty 7) \<and>
   changeAcl (newUser ysdb_empty 7) 7 (lit ''tttttttttttttttt'') = (False, newUser ysdb_empty 7)"
  by (rule change_always_refused [OF one_user])

theorem default_password_always_works_witness:
  "\<exists>v db'. login (newUser ysdb_empty 7) 1 7 (lit ''1234567890abcdef'') = (True, v, db')"
  by (rule default_password_always_works [OF one_user])
    (simp add: userExist_def newUser_def kv.get_put defaultUserInfo_def cstr_def lit_def)

text \<open>A resource that was written is read back, up to its first zero byte, and no account is changed.\<close>

theorem writeSrc_readSrc:
  assumes "strlencheck sname 16"
  shows "\<exists>db'. writeSrc db sname src = (True, db') \<and> readSrc db' sname = Some (cstr src) \<and>
    (\<forall>uid suf. Get (ldata db') (user_key uid suf) = Get (ldata db) (user_key uid suf)) \<and>
    delSrc db' sname = (True, db'\<lparr>ldata := Delete (ldata db') (src_key (take 8 sname @ [0]))\<rparr>)"
  using assms by (simp add: writeSrc_def readSrc_def delSrc_def getSrcName_def kv.get_put)

theorem writeSrc_readSrc_witness:
  "\<exists>db'. writeSrc ysdb_empty (lit ''resource-number1'') (lit ''abc'') = (True, db') \<and>
    readSrc db' (lit ''resource-number1'') = Some (cstr (lit ''abc''))"
proof -
  have "strlencheck (lit ''resource-number1'') 16"
    by (simp add: strlencheck_def lit_def cbyte_def upt_16)
  from writeSrc_readSrc [OF this, of ysdb_empty "lit ''abc''"] show ?thesis by blast
qed

end
