(* ===== verification/Registration.thy ===== *)
theory Registration
  imports YsDB
begin

text \<open>
  Certificates: the struct \<open>netReg\<close> at the end of \<^verbatim>\<open>core/ysdb.hpp\<close> and the chain of signers of
  \<^verbatim>\<open>core/key.hpp\<close>.  A trusted server signs an account number, a time and a password; another server
  that is shown the certificate opens the account.

  A certificate is the array of its bytes: \<open>crypt\<close> is byte 0, the signed struct \<open>data\<close> (\<open>uid\<close>, \<open>tm\<close>, \<open>pwd\<close>) starts
  at 4 and has 24 bytes, \<open>endchunk\<close> starts at 28, \<open>slen\<close> is at 60, \<open>sign\<close> at 64 and \<open>key\<close> at 1088.  OpenSSL is a
  parameter: a signer is its function \<open>ECDSA_verify\<close> on digest, signature and length, \<open>dh\<close> is what
  \<open>ECDH_compute_key\<close> stores for a public key (\<open>None\<close> when it stores nothing).
\<close>

unbundle bit_operations_syntax

type_synonym signer = "bytes \<Rightarrow> bytes \<Rightarrow> u32 \<Rightarrow> bool"

text \<open>\<open>Signer::check\<close> walks the chain.  The length of the data is ignored: the digest is its first 20 bytes.\<close>

primrec signer_check :: "signer list \<Rightarrow> bytes \<Rightarrow> nat \<Rightarrow> bytes \<Rightarrow> u32 \<Rightarrow> bool" where
  "signer_check [] data datalen signature sig_len = False"
| "signer_check (k # next) data datalen signature sig_len =
    (if k (take 20 data) signature sig_len then True else signer_check next data datalen signature sig_len)"

section \<open>Fields\<close>

definition reg_uid :: "bytes \<Rightarrow> u32" where "reg_uid r = nint32_val (field 4 4 r)"
definition reg_tm :: "bytes \<Rightarrow> u32" where "reg_tm r = nint32_val (field 8 4 r)"
definition reg_pwd :: "bytes \<Rightarrow> bytes" where "reg_pwd r = field 12 16 r"
definition reg_data :: "bytes \<Rightarrow> bytes" where "reg_data r = field 4 24 r"
definition reg_slen :: "bytes \<Rightarrow> u32" where "reg_slen r = nint32_val (field 60 4 r)"
definition reg_sign :: "bytes \<Rightarrow> bytes" where "reg_sign r = field 64 1024 r"
definition reg_key :: "bytes \<Rightarrow> bytes" where "reg_key r = field 1088 33 r"
definition reg_size :: nat where "reg_size = 1124"

section \<open>Encryption of the signed data\<close>

text \<open>The key of the cipher: the first 16 bytes of the shared secret, or of the uninitialised buffer \<open>junk\<close>.\<close>

definition reg_cipher_key :: "(bytes \<Rightarrow> bytes option) \<Rightarrow> bytes \<Rightarrow> bytes \<Rightarrow> bytes" where
  "reg_cipher_key dh junk r = (case dh (reg_key r) of None \<Rightarrow> junk | Some kb \<Rightarrow> kb)"

definition reg_encrypt :: "(bytes \<Rightarrow> bytes option) \<Rightarrow> bytes \<Rightarrow> bytes \<Rightarrow> bytes" where
  "reg_encrypt dh junk r =
    (if r ! 0 = 116 then r
     else block_loop (aes_encrypt_block (reg_cipher_key dh junk r)) 4 52 (r[0 := 116]))"

definition reg_decrypt :: "(bytes \<Rightarrow> bytes option) \<Rightarrow> bytes \<Rightarrow> bytes \<Rightarrow> bytes" where
  "reg_decrypt dh junk r =
    (if r ! 0 \<noteq> 116 then r
     else block_loop (aes_decrypt_block (reg_cipher_key dh junk r)) 4 52 (r[0 := 102]))"

section \<open>Issue and use\<close>

definition cabs :: "u32 \<Rightarrow> u32" where
  "cabs w = (if sint w < 0 then - w else w)"

definition reg_check :: "signer list \<Rightarrow> u32 \<Rightarrow> bytes \<Rightarrow> bool" where
  "reg_check signers now r =
    (if 1024 < sint (reg_slen r) then False
     else if 3600 < sint (cabs (reg_tm r - now)) then False
     else signer_check signers (reg_data r) 24 (reg_sign r) (reg_slen r))"

text \<open>\<open>dosign\<close>: \<open>sig\<close> stores a signature over the start of \<open>sign\<close> and returns its length.\<close>

definition reg_dosign :: "(bytes \<Rightarrow> bytes \<times> u32) \<Rightarrow> bytes \<Rightarrow> bytes" where
  "reg_dosign sig r =
    (let (s, slenb) = sig (reg_data r) in set_field 60 (nint32_set slenb) (set_field 64 (take 1024 s) r))"

definition reg_init :: "(bytes \<Rightarrow> bytes \<times> u32) \<Rightarrow> u32 \<Rightarrow> bytes \<Rightarrow> u32 \<Rightarrow> bytes \<Rightarrow> bytes" where
  "reg_init sig now r userid pwd =
    reg_dosign sig ((set_field 8 (nint32_set now) (set_field 4 (nint32_set userid) (set_field 12 (take 16 pwd) r)))[0 := 102])"

text \<open>\<open>netReg::run\<close>: an encrypted certificate is handed to \<open>encrypt\<close>, which returns at once.\<close>

definition reg_run :: "signer list \<Rightarrow> (bytes \<Rightarrow> bytes option) \<Rightarrow> bytes \<Rightarrow> u32 \<Rightarrow> ysdb \<Rightarrow> bytes \<Rightarrow> ysdb" where
  "reg_run signers dh junk now db r =
    (let r = (if r ! 0 = 116 then reg_encrypt dh junk r else r)
     in if \<not> reg_check signers now r then db
        else
          (let db = (if \<not> userExist db (reg_uid r) then newUser db (reg_uid r) else db)
           in snd (setTmpPwd db (reg_uid r) (reg_pwd r))))"

section \<open>The database after a registration\<close>

lemma db_steps_trans: "db_steps b c \<Longrightarrow> db_steps a b \<Longrightarrow> db_steps a c"
  by (induction rule: db_steps.induct) (auto intro: db_more)

lemma db_steps_one: "db_step a b \<Longrightarrow> db_steps a b"
  by (rule db_more [OF db_refl])

lemma reg_run_steps: "db_steps db (reg_run signers dh junk now db r)"
  unfolding reg_run_def Let_def
  by (auto intro: db_refl db_steps_one db_step.intros db_more [OF db_more [OF db_refl]])

lemma reg_run_accepted:
  assumes "reg_check signers now r"
  shows "reg_run signers dh junk now db r =
    snd (setTmpPwd (if userExist db (reg_uid r) then db else newUser db (reg_uid r)) (reg_uid r) (reg_pwd r))"
  using assms by (simp add: reg_run_def reg_encrypt_def Let_def)

lemma pwd_matches_self: "strlencheck p 16 \<Longrightarrow> pwd_matches p (take 16 p)"
  unfolding pwd_matches_def strlencheck_def cbyte_def
  by (rule exI [of _ 16]) (auto split: if_splits)

lemma userExist_newUser: "userExist (newUser db uid) uid"
  by (simp add: userExist_def newUser_def kv.get_put defaultUserInfo_def cstr_def lit_def)


lemma login_after_setTmpPwd:
  assumes "strlencheck p 16" "userExist db uid"
  shows "fst (login (snd (setTmpPwd db uid p)) now uid p)"
proof -
  obtain w where "Get (ldata db) (user_key uid []) = Some w"
    using assms(2) by (auto simp: userExist_def split: option.splits)
  then show ?thesis
    using assms(1) pwd_matches_self [OF assms(1)]
    by (auto simp: login_accepts setTmpPwd_def kv.get_put)
qed

section \<open>Properties\<close>


text \<open>The last four bytes of the password in a certificate are not signed: replacing them leaves the
  certificate accepted, and the account opens with the forged password.\<close>

theorem certificate_password_tail_unsigned:
  assumes "reg_check signers now r" "length r = reg_size" "length forged = 4"
    and "strlencheck (reg_pwd (set_field 24 forged r)) 16"
  shows "reg_check signers now (set_field 24 forged r) \<and>
    drop 12 (reg_pwd (set_field 24 forged r)) = forged \<and>
    fst (login (reg_run signers dh junk now db (set_field 24 forged r)) now' (reg_uid r) (reg_pwd (set_field 24 forged r)))"
proof -
  let ?f = "set_field 24 forged r"
  have l: "length r = 1124" using assms(2) by (simp add: reg_size_def)
  have same: "reg_slen ?f = reg_slen r" "reg_tm ?f = reg_tm r" "reg_uid ?f = reg_uid r" "reg_sign ?f = reg_sign r"
    using l assms(3)
    by (simp_all add: reg_slen_def reg_tm_def reg_uid_def reg_sign_def field_set_before)
      (simp_all add: field_def drop_set_after)
  have d: "take 20 (reg_data ?f) = take 20 (reg_data r)"
    using l assms(3) by (simp add: reg_data_def field_def set_field_def take_drop min_def)
  have "signer_check ks (reg_data ?f) n s sl = signer_check ks (reg_data r) n s sl" for ks n s sl
    by (induction ks) (simp_all add: d)
  then have ok: "reg_check signers now ?f"
    using assms(1) by (simp add: reg_check_def same split: if_splits)
  moreover have "drop 12 (reg_pwd ?f) = forged"
    using l assms(3) by (simp add: reg_pwd_def field_def set_field_def)
  moreover have "userExist (if userExist db (reg_uid ?f) then db else newUser db (reg_uid ?f)) (reg_uid ?f)"
    by (simp add: userExist_newUser)
  ultimately show ?thesis
    using login_after_setTmpPwd [OF assms(4)] by (simp add: reg_run_accepted [OF ok] same(3))
qed

lemma drop_blocks_map_48:
  assumes "\<And>b. length b = 16 \<Longrightarrow> length (f b) = 16" "48 \<le> length q"
  shows "drop 48 (blocks_map f 48 q) = drop 48 q"
  using assms by (simp add: blocks_map.simps [of f 48] blocks_map.simps [of f 32] blocks_map.simps [of f 16]
      blocks_map.simps [of f 0])

text \<open>What \<open>encrypt\<close> does to a certificate, \<open>decrypt\<close> undoes, under the same shared secret or the same
  uninitialised buffer.\<close>

theorem reg_decrypt_encrypt:
  assumes "length r = reg_size" "r ! 0 \<noteq> 116"
  shows "reg_decrypt dh junk (reg_encrypt dh junk r) = r[0 := 102]"
proof -
  define k where "k = reg_cipher_key dh junk r"
  have l: "length (r[0 := x]) = 1124" for x using assms(1) by (simp add: reg_size_def)
  have rm: "room (52 - 4) (drop 4 (r[0 := x]))" for x using l by (simp add: room_def)
  let ?c = "block_loop (aes_encrypt_block k) 4 52 (r[0 := 116])"
  have c: "block_loop (aes_encrypt_block k) 4 52 (r[0 := x]) =
      take 4 (r[0 := x]) @ blocks_map (aes_encrypt_block k) 48 (drop 4 r)" for x
    using l rm by (subst block_loop_blocks_map [OF aes.length_enc]) simp_all
  have n: "length (blocks_map (aes_encrypt_block k) 48 (drop 4 r)) = 1120"
    using rm [of "r ! 0"] l [of 0] by (subst length_blocks_map [OF aes.length_enc]) (simp_all add: room_def)
  have key: "reg_key ?c = reg_key r"
  proof -
    have "drop 48 (blocks_map (aes_encrypt_block k) 48 (drop 4 r)) = drop 52 r"
      using l [of 0] by (subst drop_blocks_map_48 [OF aes.length_enc]) simp_all
    then have "drop 52 ?c = drop 52 r"
      using c [of 116] l [of 0] by simp
    then have "drop 1036 (drop 52 ?c) = drop 1036 (drop 52 r)" by simp
    then show ?thesis by (simp add: reg_key_def field_def)
  qed
  have zero: "?c ! 0 = 116" "?c[0 := 102] = block_loop (aes_encrypt_block k) 4 52 (r[0 := 102])"
    using l [of 0] by (simp_all add: c nth_append list_update_append take_update_swap)
  have "block_loop (aes_decrypt_block k) 4 52 (?c[0 := 102]) = r[0 := 102]"
    unfolding zero(2) using l rm by (intro aes.block_loop_inverse) simp_all
  then show ?thesis
    using assms(2) zero(1) key by (simp add: reg_decrypt_def reg_encrypt_def reg_cipher_key_def k_def)
qed

text \<open>A certificate for the account 7, issued and shown within the hour, and a signer who accepts any digest
  that names this account.\<close>

definition sample_signer :: signer where
  "sample_signer digest sig len \<longleftrightarrow> take 4 digest = [0, 0, 0, 7] \<and> len = 0"

definition sample_cert :: bytes where
  "sample_cert = [102, 0, 0, 0, 0, 0, 0, 7, 0, 0, 0, 100] @ lit ''a password of 16'' @ replicate 1096 0"

lemma sample_cert_ok:
  "reg_check [sample_signer] 90 sample_cert" "reg_uid sample_cert = 7" "length sample_cert = reg_size"
  "reg_pwd sample_cert = lit ''a password of 16''"
  "reg_pwd (set_field 24 [120, 120, 120, 120] sample_cert) = lit ''a password oxxxx''"
proof -
  have n: "replicate 1096 0 = replicate 32 (0 :: u8) @ replicate 4 0 @ replicate 1060 0"
    by (simp flip: replicate_add)
  have f: "field 60 4 sample_cert = replicate 4 0"
    unfolding sample_cert_def n by (simp add: field_def lit_def)
  show "reg_uid sample_cert = 7"
    by (simp add: reg_uid_def field_def sample_cert_def nint32_val_def ntohl_bytes_def)
  show "reg_check [sample_signer] 90 sample_cert"
    by (simp add: reg_check_def reg_slen_def f nint32_val_def ntohl_bytes_def)
      (simp add: reg_tm_def field_def sample_cert_def nint32_val_def ntohl_bytes_def cabs_def sample_signer_def reg_data_def)
qed (simp_all add: sample_cert_def reg_size_def reg_pwd_def field_def set_field_def lit_def)

lemma sample_pwds: "strlencheck (lit ''a password of 16'') 16" "strlencheck (lit ''a password oxxxx'') 16"
  by (simp_all add: strlencheck_def lit_def cbyte_def upt_16)


theorem certificate_password_tail_unsigned_witness:
  "fst (login (reg_run [sample_signer] (\<lambda>_. None) [] 90 ysdb_empty (set_field 24 [120, 120, 120, 120] sample_cert))
     91 7 (lit ''a password oxxxx''))"
  using certificate_password_tail_unsigned [OF sample_cert_ok(1,3), of "[120, 120, 120, 120]"] sample_pwds(2)
  by (simp add: sample_cert_ok)

theorem reg_decrypt_encrypt_witness:
  "reg_decrypt (\<lambda>_. Some nist_key) [] (reg_encrypt (\<lambda>_. Some nist_key) [] sample_cert) = sample_cert"
  using reg_decrypt_encrypt [OF sample_cert_ok(3)] by (simp add: sample_cert_def)

end
