(* ===== verification/FileCache.thy ===== *)
theory FileCache
  imports Func "HOL-Library.List_Lexorder"
begin

text \<open>
  The cache of \<^verbatim>\<open>core/cache.hpp\<close> and the file access of \<^verbatim>\<open>core/filecache.hpp\<close>.

  A \<open>std::map\<close> is the list of its entries in the order of the keys.  The pointer \<open>data\<close> of a cached value is
  the array it points to, or \<open>None\<close> when it is \<open>NULL\<close>; \<open>onfree\<close> says whether a release function is set (there is
  only one).  The read-write lock makes each operation atomic.

  The disk is a map from paths to contents, and \<open>writable\<close> says which paths \<open>fopen\<close> can open for writing:
  the code does not test the result of \<open>fopen\<close>, so another path ends in a fault.
\<close>

section \<open>State\<close>

record cvalue =
  vtime :: u32
  vtl :: u32
  onfree :: bool
  cdata :: "bytes option"
  clength :: u32
  vstr :: bytes

type_synonym cmap = "(bytes \<times> cvalue) list"

record fs =
  cache :: cmap
  disk :: "bytes \<rightharpoonup> bytes"

definition value_init :: "u32 \<Rightarrow> u32 \<Rightarrow> cvalue" where
  "value_init now t = \<lparr>vtime = now, vtl = t, onfree = False, cdata = None, clength = 0, vstr = []\<rparr>"

text \<open>\<open>cache[k] = x\<close>, \<open>find\<close> and \<open>erase\<close> of the ordered map.\<close>

fun map_set :: "cmap \<Rightarrow> bytes \<Rightarrow> cvalue \<Rightarrow> cmap" where
  "map_set [] k x = [(k, x)]"
| "map_set ((k', y) # m) k x =
    (if k = k' then (k, x) # m else if k < k' then (k, x) # (k', y) # m else (k', y) # map_set m k x)"

definition map_erase :: "cmap \<Rightarrow> bytes \<Rightarrow> cmap" where
  "map_erase m k = filter (\<lambda>e. fst e \<noteq> k) m"

section \<open>Values with a time limit\<close>

definition ysabs :: "u32 \<Rightarrow> u32" where
  "ysabs inp = (if 0 < sint inp then inp else - inp)"

text \<open>The comparison is unsigned.  When the limit has not passed, the function ends without a result:
  \<open>junk\<close> is what the caller finds.\<close>

definition timeout :: "bool \<Rightarrow> u32 \<Rightarrow> cvalue \<Rightarrow> bool" where
  "timeout junk now x = (if vtl x \<le> ysabs (now - vtime x) then True else junk)"

text \<open>The Lua functions \<open>cache_set\<close>, \<open>cache_read\<close> and \<open>cache_delete\<close> on arguments of the right types.\<close>

definition cache_set :: "u32 \<Rightarrow> cmap \<Rightarrow> bytes \<Rightarrow> bytes \<Rightarrow> u32 \<Rightarrow> cmap" where
  "cache_set now m k s t = map_set m k ((value_init now t)\<lparr>vstr := s\<rparr>)"

definition cache_read :: "bool \<Rightarrow> u32 \<Rightarrow> cmap \<Rightarrow> bytes \<Rightarrow> bytes option" where
  "cache_read junk now m k =
    (case map_of m k of None \<Rightarrow> None | Some s \<Rightarrow> if timeout junk now s then None else Some (vstr s))"

definition cache_del :: "cmap \<Rightarrow> bytes \<Rightarrow> cmap" where
  "cache_del m k = (if map_of m k \<noteq> None then map_erase m k else m)"

text \<open>The collection.  An expired entry is erased after the iterator was moved on, and the value that is
  copied and released is the one the iterator then points to; behind the last entry that is a fault
  (\<open>None\<close>).  The result is the map and the keys whose data were released.\<close>

fun freetrash :: "bool \<Rightarrow> u32 \<Rightarrow> cmap \<Rightarrow> (cmap \<times> bytes list) option" where
  "freetrash junk now [] = Some ([], [])"
| "freetrash junk now ((k, x) # rest) =
    (if timeout junk now x
     then (case rest of
         [] \<Rightarrow> None
       | (k2, pp) # _ \<Rightarrow>
           (case freetrash junk now rest of None \<Rightarrow> None
            | Some (m, freed) \<Rightarrow> Some (m, if onfree pp then k2 # freed else freed)))
     else (case freetrash junk now rest of None \<Rightarrow> None | Some (m, freed) \<Rightarrow> Some ((k, x) # m, freed)))"

section \<open>Files\<close>

definition addcache :: "u32 \<Rightarrow> fs \<Rightarrow> bytes \<Rightarrow> bytes \<Rightarrow> u32 \<Rightarrow> fs" where
  "addcache now s name mb len =
    s\<lparr>cache := map_set (cache s) name ((value_init now 300)\<lparr>cdata := Some mb, clength := len, onfree := True\<rparr>)\<rparr>"

text \<open>What \<open>getcache\<close> leaves behind: nothing found; the answer \<open>-1\<close>, which as a \<open>bool\<close> is true, with the length
  not written; the bytes copied; or a read behind the cached array.\<close>

datatype hit = Miss | Unwritten | Hit bytes | Overread

definition getcache :: "fs \<Rightarrow> bytes \<Rightarrow> u32 \<Rightarrow> u32 \<Rightarrow> hit" where
  "getcache s name begin len =
    (case map_of (cache s) name of None \<Rightarrow> Miss
     | Some x \<Rightarrow>
       (case cdata x of None \<Rightarrow> Miss
        | Some cp \<Rightarrow>
          if clength x = 0 then Miss
          else if clength x < begin then Unwritten
          else
            (let leng = (if clength x < begin + len then clength x - begin else len); n = nat (sint leng)
             in if unat begin + n \<le> length cp \<or> n = 0 then Hit (take n (drop (unat begin) cp)) else Overread)))"

text \<open>The file is read into a block that is then lost; nothing enters the cache.  The answer.\<close>

definition maxsize :: nat where "maxsize = 65536"

definition addfileintobuffer :: "fs \<Rightarrow> bytes \<Rightarrow> bool" where
  "addfileintobuffer s path =
    (case disk s path of None \<Rightarrow> False | Some c \<Rightarrow> \<not> (maxsize < length c \<or> length c = 0))"

text \<open>A negative offset makes \<open>lseek\<close> fail and leaves the position at the start.\<close>

definition getfile :: "fs \<Rightarrow> bytes \<Rightarrow> u32 \<Rightarrow> nat \<Rightarrow> u32 \<times> bytes" where
  "getfile s path sk len =
    (case disk s path of None \<Rightarrow> (- 1, [])
     | Some c \<Rightarrow>
       (let bs = take len (if sint sk < 0 then c else drop (unat sk) c) in (word_of_nat (length bs), bs)))"

definition removefilefrombuffer :: "fs \<Rightarrow> bytes \<Rightarrow> fs" where
  "removefilefrombuffer s path = s"

text \<open>\<open>None\<close> is the fault of writing to a file that could not be opened.\<close>

definition fileappend :: "(bytes \<Rightarrow> bool) \<Rightarrow> fs \<Rightarrow> bytes \<Rightarrow> bytes \<Rightarrow> fs option" where
  "fileappend writable s n data =
    (let s = removefilefrombuffer s n
     in if writable n then Some (s\<lparr>disk := (disk s)(n \<mapsto> (case disk s n of None \<Rightarrow> [] | Some c \<Rightarrow> c) @ data)\<rparr>) else None)"

definition createfile :: "(bytes \<Rightarrow> bool) \<Rightarrow> fs \<Rightarrow> bytes \<Rightarrow> fs option" where
  "createfile writable s n = (if writable n then Some (s\<lparr>disk := (disk s)(n \<mapsto> [])\<rparr>) else None)"

text \<open>\<open>junk\<close> is the value of the variable \<open>rl\<close> that \<open>getcache\<close> may not write.  \<open>None\<close> is an overread.\<close>

definition readfile :: "u32 \<Rightarrow> fs \<Rightarrow> bytes \<Rightarrow> u32 \<Rightarrow> u32 \<Rightarrow> (u32 \<times> bytes) option" where
  "readfile junk s path begin len =
    (case getcache s path begin len of
      Miss \<Rightarrow> (let _ = addfileintobuffer s path in Some (getfile s path begin (unat len)))
    | Unwritten \<Rightarrow> Some (junk, [])
    | Hit bs \<Rightarrow> Some (word_of_nat (length bs), bs)
    | Overread \<Rightarrow> None)"

definition removefile :: "fs \<Rightarrow> bytes \<Rightarrow> bool \<times> fs" where
  "removefile s path =
    (let s = removefilefrombuffer s path
     in if disk s path = None then (False, s) else (True, s\<lparr>disk := (disk s)(path := None)\<rparr>))"

section \<open>The ordered map\<close>

definition map_ok :: "cmap \<Rightarrow> bool" where
  "map_ok m \<longleftrightarrow> sorted_wrt (<) (map fst m)"

lemma keys_map_set: "set (map fst (map_set m k x)) = insert k (set (map fst m))"
  by (induction m k x rule: map_set.induct) auto

lemma map_ok_set: "map_ok m \<Longrightarrow> map_ok (map_set m k x)"
  unfolding map_ok_def
proof (induction m k x rule: map_set.induct)
  case (2 k' y m k x)
  then show ?case
    using keys_map_set [of m k x] by (auto simp del: set_map)
qed simp

lemma map_of_set: "map_ok m \<Longrightarrow> map_of (map_set m k x) k' = (if k' = k then Some x else map_of m k')"
  unfolding map_ok_def by (induction m k x rule: map_set.induct) auto

lemma map_of_none_less: "\<forall>k' \<in> set (map fst m). k < k' \<Longrightarrow> map_of m k = None" for k :: bytes
  by (induction m) auto

lemma map_ok_erase: "map_ok m \<Longrightarrow> map_ok (map_erase m k)"
  unfolding map_ok_def map_erase_def by (induction m) (auto split: if_splits)

lemma map_of_erase: "map_of (map_erase m k) k' = (if k' = k then None else map_of m k')"
  unfolding map_erase_def by (induction m) auto

section \<open>Collection\<close>

lemma freetrash_result:
  "freetrash False now m =
    (if m \<noteq> [] \<and> timeout False now (snd (last m)) then None
     else Some (filter (\<lambda>e. \<not> timeout False now (snd e)) m,
       map (\<lambda>i. fst (m ! Suc i)) (filter (\<lambda>i. timeout False now (snd (m ! i)) \<and> onfree (snd (m ! Suc i))) [0..<length m - 1])))"
proof (induction "False" now m rule: freetrash.induct)
  case (2 now k x rest)
  have up: "[0..<length rest] = 0 # map Suc [0..<length rest - 1]" if "rest \<noteq> []"
    using that by (cases rest) (simp_all add: upt_conv_Cons map_Suc_upt del: upt_Suc)
  show ?case
    using 2 up by (cases rest) (auto simp: filter_map comp_def split: prod.splits simp del: upt_Suc)
qed simp


section \<open>Caches of the running program\<close>

text \<open>The operations the program performs on the cache: the three Lua functions and the collection.\<close>

inductive cache_reach :: "cmap \<Rightarrow> bool" where
  cache_start: "cache_reach []"
| cache_set: "cache_reach m \<Longrightarrow> cache_reach (cache_set now m k s t)"
| cache_del: "cache_reach m \<Longrightarrow> cache_reach (cache_del m k)"
| cache_collect: "cache_reach m \<Longrightarrow> freetrash junk now m = Some (m', freed) \<Longrightarrow> cache_reach m'"

definition no_data :: "cmap \<Rightarrow> bool" where
  "no_data m \<longleftrightarrow> (\<forall>e \<in> set m. cdata (snd e) = None \<and> \<not> onfree (snd e))"

lemma no_data_set: "no_data m \<Longrightarrow> cdata x = None \<Longrightarrow> \<not> onfree x \<Longrightarrow> no_data (map_set m k x)"
  unfolding no_data_def by (induction m k x rule: map_set.induct) auto

lemma freetrash_SomeE:
  assumes "freetrash junk now ((k, x) # rest) = Some (m', freed)"
  obtains m f where "freetrash junk now rest = Some (m, f)" "m' = m \<or> m' = (k, x) # m"
    "freed = f \<or> (rest \<noteq> [] \<and> onfree (snd (hd rest)))"
  using assms by (cases rest) (auto simp del: freetrash.simps simp: freetrash.simps(2) [of junk now k x]
      split: if_splits option.splits)

lemma freetrash_keeps:
  "freetrash junk now m = Some (m', freed) \<Longrightarrow> set m' \<subseteq> set m \<and> (no_data m \<longrightarrow> freed = [])"
proof (induction m arbitrary: m' freed)
  case (Cons e m)
  obtain k x where e: "e = (k, x)" by (cases e)
  obtain m1 f where r: "freetrash junk now m = Some (m1, f)" "m' = m1 \<or> m' = (k, x) # m1"
    "freed = f \<or> (m \<noteq> [] \<and> onfree (snd (hd m)))"
    by (rule freetrash_SomeE [OF Cons.prems [unfolded e]])
  have "\<not> onfree (snd (hd m))" if "no_data (e # m)" "m \<noteq> []"
    using that hd_in_set [of m] by (simp add: no_data_def)
  moreover have "no_data (e # m) \<Longrightarrow> no_data m"
    by (simp add: no_data_def)
  ultimately show ?case
    using Cons.IH [OF r(1)] r(2,3) e by auto
qed simp

lemma cache_reach_no_data: "cache_reach m \<Longrightarrow> no_data m"
proof (induction rule: cache_reach.induct)
  case (cache_set m now k s t)
  then show ?case by (simp add: cache_set_def no_data_set value_init_def)
next
  case (cache_collect m junk now m' freed)
  then show ?case using freetrash_keeps [of junk now m m' freed] by (auto simp: no_data_def)
qed (auto simp: no_data_def cache_del_def map_erase_def)

lemma getcache_no_data:
  assumes "no_data (cache s)"
  shows "getcache s path begin len = Miss"
proof (cases "map_of (cache s) path")
  case (Some x)
  then have "cdata x = None"
    using assms map_of_SomeD [OF Some] by (auto simp: no_data_def)
  then show ?thesis using Some by (simp add: getcache_def)
qed (simp add: getcache_def)

section \<open>Properties\<close>

text \<open>Reads are never stale: in every state of the running program a chunk read after an append is the
  chunk of the extended file, and other files are not changed.\<close>

theorem file_reads_are_fresh:
  assumes "cache_reach (cache s)" "writable n" "disk s n = Some c"
    and "0 \<le> sint begin" "unat begin \<le> length c"
  shows "\<exists>s'. fileappend writable s n data = Some s' \<and>
    readfile junk s' n begin len =
      (let bs = take (unat len) (drop (unat begin) (c @ data)) in Some (word_of_nat (length bs), bs)) \<and>
    (\<forall>n'. n' \<noteq> n \<longrightarrow> readfile junk s' n' begin len = readfile junk s n' begin len)"
  using cache_reach_no_data [OF assms(1)] assms(2-)
  by (auto simp: fileappend_def removefilefrombuffer_def readfile_def getcache_no_data getfile_def Let_def)

text \<open>The collection reads behind the end of the map exactly when the last entry has expired; otherwise
  it erases the expired entries and no other, and in a running program it releases no data.\<close>

theorem collection_faults_on_last:
  assumes "cache_reach m"
  shows "(freetrash False now m = None \<longleftrightarrow> m \<noteq> [] \<and> vtl (snd (last m)) \<le> ysabs (now - vtime (snd (last m)))) \<and>
    (\<forall>m' freed. freetrash False now m = Some (m', freed) \<longrightarrow>
      m' = filter (\<lambda>e. \<not> vtl (snd e) \<le> ysabs (now - vtime (snd e))) m \<and> freed = [])"
proof -
  have "m' = filter (\<lambda>e. \<not> vtl (snd e) \<le> ysabs (now - vtime (snd e))) m \<and> freed = []"
    if r: "freetrash False now m = Some (m', freed)" for m' freed
  proof
    show "m' = filter (\<lambda>e. \<not> vtl (snd e) \<le> ysabs (now - vtime (snd e))) m"
      using r unfolding freetrash_result by (simp add: timeout_def split: if_splits)
    show "freed = []"
      using freetrash_keeps [OF r] cache_reach_no_data [OF assms] by simp
  qed
  moreover have "freetrash False now m = None \<longleftrightarrow> m \<noteq> [] \<and> vtl (snd (last m)) \<le> ysabs (now - vtime (snd (last m)))"
    unfolding freetrash_result by (simp add: timeout_def)
  ultimately show ?thesis by blast
qed

lemma one_entry: "cache_reach [([107], (value_init 0 5)\<lparr>vstr := [1]\<rparr>)]"
  using cache_set [OF cache_start, of 0 "[107]" "[1]" 5] by (simp add: cache_set_def)

theorem file_reads_are_fresh_witness:
  "\<exists>s'. fileappend (\<lambda>_. True) \<lparr>cache = [], disk = [[102] \<mapsto> [1, 2, 3]]\<rparr> [102] [4] = Some s' \<and>
    readfile 0 s' [102] 2 9 = Some (2, [3, 4])"
  using file_reads_are_fresh [of "\<lparr>cache = [], disk = [[102] \<mapsto> [1, 2, 3]]\<rparr>" "\<lambda>_. True" "[102]" "[1, 2, 3]" 2 "[4]" 0 9]
  by (simp add: cache_start) blast

theorem collection_faults_on_last_witness:
  "freetrash False 5 [([107], (value_init 0 5)\<lparr>vstr := [1]\<rparr>)] = None \<and>
   freetrash False 4 [([107], (value_init 0 5)\<lparr>vstr := [1]\<rparr>)] = Some ([([107], (value_init 0 5)\<lparr>vstr := [1]\<rparr>)], [])"
  using collection_faults_on_last [OF one_entry, of 5] collection_faults_on_last [OF one_entry, of 4]
  by (simp add: value_init_def ysabs_def timeout_def)

end
