(* ===== verification/Pools.thy ===== *)
theory Pools
  imports Prelude
begin

text \<open>
  The free lists of \<^verbatim>\<open>core/luapool.hpp\<close> (Lua states), \<^verbatim>\<open>core/server.hpp\<close> (request buffers) and
  \<^verbatim>\<open>core/threadpool.hpp\<close> (work items), and the work queue of the thread pool.

  The nodes live in an explicit store: \<open>nxt\<close> maps an address to the \<open>next\<close> pointer stored there, and
  \<open>brk\<close> is the address the next \<open>new\<close> returns.  A mutex-protected section is one step, so the threads of
  the program are the interleavings of these steps.  The predicate \<open>chain\<close> relates a pointer to the
  list of nodes it reaches.

  The interface \<open>free_list\<close> is what the users of a pool rely on: a node is handed to one client at a
  time and comes back.  It is interpreted on all three pools.
\<close>

section \<open>Linked lists\<close>

type_synonym ptr = "nat option"
type_synonym store = "nat \<Rightarrow> ptr"

fun chain :: "store \<Rightarrow> ptr \<Rightarrow> nat list \<Rightarrow> bool" where
  "chain h p [] \<longleftrightarrow> p = None"
| "chain h p (x # xs) \<longleftrightarrow> p = Some x \<and> chain h (h x) xs"

lemma chain_None [simp]: "chain h None xs \<longleftrightarrow> xs = []"
  by (cases xs) auto

lemma chain_Some: "chain h (Some a) xs \<longleftrightarrow> (\<exists>ys. xs = a # ys \<and> chain h (h a) ys)"
  by (cases xs) auto

lemma chain_upd: "a \<notin> set xs \<Longrightarrow> chain (h(a := q)) p xs = chain h p xs"
  by (induction xs arbitrary: p) auto

lemma chain_unique: "chain h p xs \<Longrightarrow> chain h p ys \<Longrightarrow> xs = ys"
  by (induction xs arbitrary: p ys) (auto simp: chain_Some)

section \<open>The pool of Lua states\<close>

record pool =
  nxt :: store
  freed :: ptr
  brk :: nat
  used :: u32
  malloced :: u32

text \<open>\<open>pool::get\<close>, \<open>pool::del\<close>, and the constructor.\<close>

definition luapool_init :: pool where
  "luapool_init = \<lparr>nxt = (\<lambda>_. None), freed = None, brk = 0, used = 0, malloced = 0\<rparr>"

definition luapool_get :: "pool \<Rightarrow> nat \<times> pool" where
  "luapool_get s =
    (let s = s\<lparr>used := used s + 1\<rparr>
     in case freed s of
          Some r \<Rightarrow> (r, s\<lparr>freed := nxt s r, nxt := (nxt s)(r := None)\<rparr>)
        | None \<Rightarrow> (brk s, s\<lparr>malloced := malloced s + 1, nxt := (nxt s)(brk s := None), brk := brk s + 1\<rparr>))"

definition luapool_del :: "nat \<Rightarrow> pool \<Rightarrow> pool" where
  "luapool_del f s = s\<lparr>nxt := (nxt s)(f := freed s), freed := Some f, used := used s - 1\<rparr>"

section \<open>The pool of request buffers\<close>

text \<open>\<open>requirePool\<close>: here \<open>freed\<close> is the member \<open>req\<close>, \<open>used\<close> is \<open>usingCount\<close> and \<open>malloced\<close> is
  \<open>mallocCount\<close>.  The constructor allocates one node; \<open>get\<close> clears the whole node after it has left the
  critical section.\<close>

definition requirePool_init :: pool where
  "requirePool_init = \<lparr>nxt = (\<lambda>_. None), freed = Some 0, brk = 1, used = 0, malloced = 1\<rparr>"

definition requirePool_get :: "pool \<Rightarrow> nat \<times> pool" where
  "requirePool_get s =
    (let s = s\<lparr>used := used s + 1\<rparr>
     in case freed s of
          None \<Rightarrow> (brk s, s\<lparr>malloced := malloced s + 1, nxt := (nxt s)(brk s := None), brk := brk s + 1\<rparr>)
        | Some r \<Rightarrow> (r, s\<lparr>freed := nxt s r, nxt := (nxt s)(r := None)\<rparr>))"

definition requirePool_del :: "nat \<Rightarrow> pool \<Rightarrow> pool" where
  "requirePool_del r s = s\<lparr>nxt := (nxt s)(r := freed s), freed := Some r, used := used s - 1\<rparr>"

text \<open>\<open>freeone\<close> deletes one free node: its address leaves the store.  \<open>delete\<close> follows \<open>next\<close>, which has been
  cleared.\<close>

definition requirePool_freeone :: "pool \<Rightarrow> pool" where
  "requirePool_freeone s =
    (case freed s of
      None \<Rightarrow> s
    | Some r \<Rightarrow> s\<lparr>freed := nxt s r, malloced := malloced s - 1, nxt := (nxt s)(r := None)\<rparr>)"

section \<open>The pool of work items\<close>

text \<open>\<open>tw_pool\<close> has no counters, and \<open>get\<close> leaves the old \<open>next\<close> in the node.\<close>

definition tw_get :: "pool \<Rightarrow> nat \<times> pool" where
  "tw_get s =
    (case freed s of
      Some r \<Rightarrow> (r, s\<lparr>freed := nxt s r\<rparr>)
    | None \<Rightarrow> (brk s, s\<lparr>brk := brk s + 1\<rparr>))"

definition tw_del :: "nat \<Rightarrow> pool \<Rightarrow> pool" where
  "tw_del f s = s\<lparr>nxt := (nxt s)(f := freed s), freed := Some f\<rparr>"

section \<open>The interface of a pool\<close>

datatype pool_op = PGet | PDel nat

text \<open>A run of a pool by clients that give back only what they hold; \<open>None\<close> when they break this rule.\<close>

fun exec :: "('s \<Rightarrow> nat \<times> 's) \<Rightarrow> (nat \<Rightarrow> 's \<Rightarrow> 's) \<Rightarrow> pool_op list \<Rightarrow> 's \<Rightarrow> nat list \<Rightarrow> ('s \<times> nat list) option" where
  "exec get del [] s held = Some (s, held)"
| "exec get del (PGet # ops) s held = (let (r, s) = get s in exec get del ops s (r # held))"
| "exec get del (PDel r # ops) s held =
    (if r \<in> set held then exec get del ops (del r s) (remove1 r held) else None)"

locale free_list =
  fixes get :: "'s \<Rightarrow> nat \<times> 's" and del :: "nat \<Rightarrow> 's \<Rightarrow> 's"
    and inv :: "'s \<Rightarrow> nat set \<Rightarrow> bool"
  assumes get_fresh: "inv s U \<Longrightarrow> get s = (r, s') \<Longrightarrow> r \<notin> U \<and> inv s' (insert r U)"
    and del_back: "inv s U \<Longrightarrow> r \<in> U \<Longrightarrow> inv (del r s) (U - {r})"
begin

text \<open>In every run no node is held twice, and the pool knows exactly which nodes are out.\<close>

lemma exec_distinct:
  "inv s (set held) \<Longrightarrow> distinct held \<Longrightarrow> exec get del ops s held = Some (s', held') \<Longrightarrow>
    distinct held' \<and> inv s' (set held')"
proof (induction ops arbitrary: s held)
  case (Cons op ops)
  show ?case
  proof (cases op)
    case PGet
    obtain r s1 where g: "get s = (r, s1)" by fastforce
    from get_fresh [OF Cons.prems(1) g] have "r \<notin> set held" "inv s1 (set (r # held))" by auto
    with Cons.IH [of s1 "r # held"] Cons.prems g PGet show ?thesis by simp
  next
    case (PDel r)
    with Cons.prems have r: "r \<in> set held" by (auto split: if_splits)
    from del_back [OF Cons.prems(1) r] have "inv (del r s) (set (remove1 r held))"
      using Cons.prems(2) by (simp add: set_remove1_eq)
    with Cons.IH [of "del r s" "remove1 r held"] Cons.prems PDel r show ?thesis by simp
  qed
qed simp

end

text \<open>The invariant of all three: the free nodes form a chain without repetition, apart from the nodes in
  use, and all of them are allocated.\<close>

definition list_inv :: "store \<Rightarrow> ptr \<Rightarrow> nat \<Rightarrow> nat set \<Rightarrow> bool" where
  "list_inv h f b U \<longleftrightarrow> finite U \<and> (\<exists>fs. chain h f fs \<and> distinct fs \<and> set fs \<inter> U = {} \<and>
    (\<forall>a \<in> set fs \<union> U. a < b))"

definition pool_inv :: "pool \<Rightarrow> nat set \<Rightarrow> bool" where
  "pool_inv s U \<longleftrightarrow> list_inv (nxt s) (freed s) (brk s) U"

lemma list_invE:
  assumes "list_inv h f b U"
  obtains fs where "chain h f fs" "distinct fs" "set fs \<inter> U = {}" "\<forall>a \<in> set fs \<union> U. a < b" "finite U"
  using assms by (auto simp: list_inv_def)

lemma list_inv_pop:
  assumes "list_inv h (Some r) b U"
  shows "r \<notin> U \<and> list_inv h (h r) b (insert r U) \<and> list_inv (h(r := q)) (h r) b (insert r U)"
proof -
  from assms obtain fs where "chain h (Some r) fs" "distinct fs" "set fs \<inter> U = {}" "\<forall>a \<in> set fs \<union> U. a < b" "finite U"
    by (rule list_invE)
  then show ?thesis
    by (auto simp: list_inv_def chain_Some chain_upd intro!: exI [of _ "tl fs"])
qed

lemma list_inv_new:
  assumes "list_inv h f b U"
  shows "b \<notin> U \<and> list_inv h f (Suc b) (insert b U) \<and> list_inv (h(b := q)) f (Suc b) (insert b U)"
proof -
  from assms obtain fs where fs: "chain h f fs" "distinct fs" "set fs \<inter> U = {}" "\<forall>a \<in> set fs \<union> U. a < b" "finite U"
    by (rule list_invE)
  then have "b \<notin> set fs" "b \<notin> U" by auto
  with fs show ?thesis
    by (auto simp: list_inv_def chain_upd less_Suc_eq intro!: exI [of _ fs])
qed

lemma list_inv_push:
  assumes "list_inv h f b U" "r \<in> U"
  shows "list_inv (h(r := f)) (Some r) b (U - {r})"
proof -
  from assms(1) obtain fs where fs: "chain h f fs" "distinct fs" "set fs \<inter> U = {}" "\<forall>a \<in> set fs \<union> U. a < b" "finite U"
    by (rule list_invE)
  then have "r \<notin> set fs" using assms(2) by auto
  with fs assms(2) show ?thesis
    by (auto simp: list_inv_def chain_upd intro!: exI [of _ "r # fs"])
qed

interpretation luapool: free_list luapool_get luapool_del pool_inv
proof
  show "r \<notin> U \<and> pool_inv s' (insert r U)" if "pool_inv s U" "luapool_get s = (r, s')" for s U r s'
    using that list_inv_pop [of "nxt s" r "brk s" U] list_inv_new [of "nxt s" "freed s" "brk s" U]
    by (auto simp: pool_inv_def luapool_get_def Let_def split: option.splits)
qed (simp add: pool_inv_def luapool_del_def list_inv_push)

interpretation requirePool: free_list requirePool_get requirePool_del pool_inv
proof
  show "r \<notin> U \<and> pool_inv s' (insert r U)" if "pool_inv s U" "requirePool_get s = (r, s')" for s U r s'
    using that list_inv_pop [of "nxt s" r "brk s" U] list_inv_new [of "nxt s" "freed s" "brk s" U]
    by (auto simp: pool_inv_def requirePool_get_def Let_def split: option.splits)
qed (simp add: pool_inv_def requirePool_del_def list_inv_push)

interpretation tw: free_list tw_get tw_del pool_inv
proof
  show "r \<notin> U \<and> pool_inv s' (insert r U)" if "pool_inv s U" "tw_get s = (r, s')" for s U r s'
    using that list_inv_pop [of "nxt s" r "brk s" U] list_inv_new [of "nxt s" "freed s" "brk s" U]
    by (auto simp: pool_inv_def tw_get_def split: option.splits)
qed (simp add: pool_inv_def tw_del_def list_inv_push)

lemma pool_inv_init: "pool_inv luapool_init {}" "pool_inv requirePool_init {}"
  by (auto simp: pool_inv_def list_inv_def luapool_init_def requirePool_init_def intro: exI [of _ "[]"] exI [of _ "[0]"])

text \<open>\<open>freeone\<close> only shortens the free list, so it may run between any two steps.\<close>

lemma freeone_inv: "pool_inv s U \<Longrightarrow> pool_inv (requirePool_freeone s) U"
proof (cases "freed s")
  case (Some r)
  assume "pool_inv s U"
  then obtain fs where fs: "chain (nxt s) (Some r) fs" "distinct fs" "set fs \<inter> U = {}" "\<forall>a \<in> set fs \<union> U. a < brk s" "finite U"
    using Some by (auto simp: pool_inv_def elim: list_invE)
  then show ?thesis
    using Some by (auto simp: pool_inv_def list_inv_def requirePool_freeone_def chain_Some chain_upd intro!: exI [of _ "tl fs"])
qed (simp add: requirePool_freeone_def)

section \<open>The work queue\<close>

text \<open>The thread pool: the store and the free list of the work items, the work stored in each item, the head
  of the queue, the shutdown flag, and the items the workers are executing.  \<open>added\<close> and \<open>started\<close>
  record the tasks in the order of the calls.\<close>

record 'w tpool =
  items :: pool
  task :: "nat \<Rightarrow> 'w option"
  queue_head :: ptr
  shutdown :: bool
  running :: "nat list"
  added :: "'w list"
  started :: "'w list"

definition tpool_create :: "'w tpool" where
  "tpool_create = \<lparr>items = luapool_init, task = (\<lambda>_. None), queue_head = None, shutdown = False,
    running = [], added = [], started = []\<rparr>"

text \<open>The loop that finds the last item, on the chain from \<open>member\<close> on; \<open>fuel\<close> bounds the walk, and \<open>None\<close>
  means that it does not end.\<close>

fun last_member :: "nat \<Rightarrow> store \<Rightarrow> nat \<Rightarrow> nat option" where
  "last_member 0 h member = None"
| "last_member (Suc fuel) h member = (case h member of None \<Rightarrow> Some member | Some m \<Rightarrow> last_member fuel h m)"

text \<open>\<open>tpool_add_work\<close>: an item from the pool, filled in, and linked behind the last one.\<close>

definition tpool_add_work :: "'w \<Rightarrow> 'w tpool \<Rightarrow> 'w tpool option" where
  "tpool_add_work w s =
    (let (work, p) = tw_get (items s); p = p\<lparr>nxt := (nxt p)(work := None)\<rparr>;
         s = s\<lparr>items := p, task := (task s)(work \<mapsto> w), added := added s @ [w]\<rparr>
     in case queue_head s of
          None \<Rightarrow> Some (s\<lparr>queue_head := Some work\<rparr>)
        | Some member \<Rightarrow>
            (case last_member (brk p) (nxt p) member of
              None \<Rightarrow> None
            | Some m \<Rightarrow> Some (s\<lparr>items := p\<lparr>nxt := (nxt p)(m := Some work)\<rparr>\<rparr>)))"

text \<open>The critical section of \<open>thread_routine\<close> when there is work, and the release of the item after the task
  has run.\<close>

definition thread_take :: "'w tpool \<Rightarrow> 'w tpool option" where
  "thread_take s =
    (if shutdown s then None
     else case queue_head s of
       None \<Rightarrow> None
     | Some work \<Rightarrow>
         (case task s work of None \<Rightarrow> None
          | Some w \<Rightarrow> Some (s\<lparr>queue_head := nxt (items s) work, running := work # running s, started := started s @ [w]\<rparr>)))"

definition thread_done :: "nat \<Rightarrow> 'w tpool \<Rightarrow> 'w tpool" where
  "thread_done work s = s\<lparr>items := tw_del work (items s), running := remove1 work (running s)\<rparr>"

text \<open>The flag set by \<open>tpool_destroy\<close>.\<close>

definition tpool_shutdown :: "'w tpool \<Rightarrow> 'w tpool" where
  "tpool_shutdown s = s\<lparr>shutdown := True\<rparr>"

inductive tp_step :: "'w tpool \<Rightarrow> 'w tpool \<Rightarrow> bool" where
  tp_add: "tpool_add_work w s = Some s' \<Longrightarrow> tp_step s s'"
| tp_take: "thread_take s = Some s' \<Longrightarrow> tp_step s s'"
| tp_done: "work \<in> set (running s) \<Longrightarrow> tp_step s (thread_done work s)"
| tp_shut: "tp_step s (tpool_shutdown s)"

inductive tp_reach :: "'w tpool \<Rightarrow> bool" where
  tp_init: "tp_reach tpool_create"
| tp_more: "tp_reach s \<Longrightarrow> tp_step s s' \<Longrightarrow> tp_reach s'"

text \<open>The invariant: the items of the queue and those being executed are out of the pool, each once, and
  the tasks added are those started followed by those in the queue.\<close>

definition tp_inv :: "'w tpool \<Rightarrow> bool" where
  "tp_inv s \<longleftrightarrow> (\<exists>qs. chain (nxt (items s)) (queue_head s) qs \<and> distinct (qs @ running s) \<and>
    pool_inv (items s) (set qs \<union> set (running s)) \<and>
    (\<forall>a \<in> set qs. task s a \<noteq> None) \<and> added s = started s @ map (\<lambda>a. the (task s a)) qs)"

lemma list_inv_store: "a \<in> U \<Longrightarrow> list_inv (h(a := q)) f b U = list_inv h f b U"
proof -
  assume "a \<in> U"
  then have "chain (h(a := q)) f fs = chain h f fs" if "set fs \<inter> U = {}" for fs
    using that by (intro chain_upd) auto
  then show ?thesis unfolding list_inv_def by blast
qed

lemma last_member_chain:
  "chain h (Some m) qs \<Longrightarrow> length qs \<le> fuel \<Longrightarrow> last_member fuel h m = Some (last qs)"
proof (induction fuel arbitrary: m qs)
  case (Suc fuel)
  then obtain ys where "qs = m # ys" "chain h (h m) ys" by (auto simp: chain_Some)
  with Suc show ?case by (cases "h m") (auto simp: chain_Some)
qed (auto simp: chain_Some)

lemma chain_snoc:
  "chain h p qs \<Longrightarrow> distinct qs \<Longrightarrow> qs \<noteq> [] \<Longrightarrow> w \<notin> set qs \<Longrightarrow> h w = None \<Longrightarrow>
    chain (h(last qs := Some w)) p (qs @ [w])"
proof (induction qs arbitrary: p)
  case (Cons x qs)
  show ?case
  proof (cases "qs = []")
    case True
    with Cons.prems show ?thesis by auto
  next
    case False
    with Cons.prems have "x \<noteq> last qs" by auto
    with Cons False show ?thesis by auto
  qed
qed simp

lemma chain_length: "distinct qs \<Longrightarrow> \<forall>a \<in> set qs. a < (b :: nat) \<Longrightarrow> length qs \<le> b"
  using card_mono [of "{..<b}" "set qs"] by (auto simp: distinct_card)

lemma tp_invE:
  assumes "tp_inv s"
  obtains qs where "chain (nxt (items s)) (queue_head s) qs" "distinct (qs @ running s)"
    "pool_inv (items s) (set qs \<union> set (running s))" "\<forall>a \<in> set qs. task s a \<noteq> None"
    "added s = started s @ map (\<lambda>a. the (task s a)) qs"
  using assms by (auto simp: tp_inv_def)

text \<open>Adding always ends and puts the task at the end of the queue.\<close>

lemma add_work_inv:
  assumes "tp_inv s"
  shows "\<exists>s'. tpool_add_work w s = Some s' \<and> tp_inv s' \<and> added s' = added s @ [w] \<and> started s' = started s"
proof -
  from assms obtain qs where qs: "chain (nxt (items s)) (queue_head s) qs" "distinct (qs @ running s)"
    "pool_inv (items s) (set qs \<union> set (running s))" "\<forall>a \<in> set qs. task s a \<noteq> None"
    "added s = started s @ map (\<lambda>a. the (task s a)) qs" by (rule tp_invE)
  let ?U = "set qs \<union> set (running s)"
  obtain work p where g: "tw_get (items s) = (work, p)" by fastforce
  have same: "nxt p = nxt (items s)" using g by (auto simp: tw_get_def split: option.splits)
  have fresh: "work \<notin> ?U" and inv: "list_inv (nxt p) (freed p) (brk p) (insert work ?U)"
    using tw.get_fresh [OF qs(3) g] by (auto simp: pool_inv_def)
  define h where "h = (nxt p)(work := None)"
  have inv_h: "list_inv h (freed p) (brk p) (insert work ?U)"
    using inv by (simp add: h_def list_inv_store)
  have ch: "chain h (queue_head s) qs"
    using qs(1) fresh by (simp add: h_def same chain_upd)
  have tasks: "\<forall>a \<in> set (qs @ [work]). ((task s)(work \<mapsto> w)) a \<noteq> None"
    "map (\<lambda>a. the (((task s)(work \<mapsto> w)) a)) (qs @ [work]) = map (\<lambda>a. the (task s a)) qs @ [w]"
    using qs(4) fresh by auto
  have dist: "distinct ((qs @ [work]) @ running s)" using qs(2) fresh by auto
  have U: "set (qs @ [work]) \<union> set (running s) = insert work ?U" by auto
  show ?thesis
  proof (cases "queue_head s")
    case None
    with ch have "qs = []" by simp
    with None g qs(5) inv_h tasks dist U show ?thesis
      by (auto simp: tpool_add_work_def tp_inv_def pool_inv_def h_def intro!: exI [of _ "[work]"])
  next
    case (Some m)
    then have ne: "qs \<noteq> []" using qs(1) by auto
    have "length qs \<le> brk p"
      using qs(2) inv by (intro chain_length) (auto simp: list_inv_def)
    then have lm: "last_member (brk p) h m = Some (last qs)"
      using ch Some by (simp add: last_member_chain)
    have "chain (h(last qs := Some work)) (queue_head s) (qs @ [work])"
      using ch qs(2) ne fresh by (intro chain_snoc) (auto simp: h_def)
    moreover have "list_inv (h(last qs := Some work)) (freed p) (brk p) (insert work ?U)"
      using inv_h ne by (subst list_inv_store) auto
    ultimately show ?thesis
      using Some g qs(4,5) lm tasks(2) dist U
      by (auto simp: tpool_add_work_def tp_inv_def pool_inv_def h_def [symmetric] intro!: exI [of _ "qs @ [work]"])
  qed
qed

lemma take_inv:
  assumes "tp_inv s" "thread_take s = Some s'"
  shows "tp_inv s'"
proof -
  from assms(1) obtain qs where qs: "chain (nxt (items s)) (queue_head s) qs" "distinct (qs @ running s)"
    "pool_inv (items s) (set qs \<union> set (running s))" "\<forall>a \<in> set qs. task s a \<noteq> None"
    "added s = started s @ map (\<lambda>a. the (task s a)) qs" by (rule tp_invE)
  from assms(2) obtain work w where "queue_head s = Some work" "task s work = Some w"
    "s' = s\<lparr>queue_head := nxt (items s) work, running := work # running s, started := started s @ [w]\<rparr>"
    by (auto simp: thread_take_def split: if_splits option.splits)
  with qs show ?thesis
    by (auto simp: tp_inv_def chain_Some intro!: exI [of _ "tl qs"])
qed

lemma done_inv:
  assumes "tp_inv s" "work \<in> set (running s)"
  shows "tp_inv (thread_done work s)"
proof -
  from assms(1) obtain qs where qs: "chain (nxt (items s)) (queue_head s) qs" "distinct (qs @ running s)"
    "pool_inv (items s) (set qs \<union> set (running s))" "\<forall>a \<in> set qs. task s a \<noteq> None"
    "added s = started s @ map (\<lambda>a. the (task s a)) qs" by (rule tp_invE)
  have "work \<notin> set qs" using qs(2) assms(2) by auto
  then have "set qs \<union> set (remove1 work (running s)) = set qs \<union> set (running s) - {work}"
    using qs(2) by auto
  with tw.del_back [OF qs(3), of work] assms(2) \<open>work \<notin> set qs\<close> qs show ?thesis
    by (auto simp: tp_inv_def thread_done_def chain_upd tw_del_def set_remove1_eq intro!: exI [of _ qs])
qed

lemma tp_step_inv: "tp_step s s' \<Longrightarrow> tp_inv s \<Longrightarrow> tp_inv s'"
proof (induction rule: tp_step.induct)
  case (tp_add w s s')
  then show ?case using add_work_inv [of s w] by auto
next
  case (tp_take s s')
  then show ?case by (blast intro: take_inv)
next
  case (tp_done work s)
  then show ?case by (simp add: done_inv)
next
  case (tp_shut s)
  then show ?case by (auto simp: tp_inv_def tpool_shutdown_def)
qed

lemma tp_reach_inv: "tp_reach s \<Longrightarrow> tp_inv s"
proof (induction rule: tp_reach.induct)
  case tp_init
  show ?case
    using pool_inv_init(1) by (simp add: tp_inv_def tpool_create_def)
qed (blast intro: tp_step_inv)

section \<open>Properties\<close>

text \<open>The request buffers: however requests and answers interleave, no buffer is held by two requests at
  a time, as long as every holder gives back only its own buffer.\<close>

theorem request_buffers_exclusive:
  assumes "exec requirePool_get requirePool_del ops requirePool_init [] = Some (s, held)"
  shows "distinct held \<and> pool_inv s (set held)"
  using requirePool.exec_distinct [of requirePool_init "[]" ops s held] assms pool_inv_init(2) by simp

text \<open>What the operations of the thread pool do to the queue and to the running tasks.\<close>

lemma add_work_effect:
  assumes "tp_inv t" "tpool_add_work w t = Some t'" "\<forall>a \<in> set (running t). task t a \<noteq> None"
  shows "tp_inv t'" "added t' = added t @ [w]" "started t' = started t" "running t' = running t"
    "\<forall>a \<in> set (running t). task t' a = task t a"
proof -
  show inv: "tp_inv t'" "added t' = added t @ [w]" "started t' = started t" using add_work_inv [OF assms(1), of w] assms(2) by auto
  obtain work p where g: "tw_get (items t) = (work, p)" by fastforce
  obtain qs where "pool_inv (items t) (set qs \<union> set (running t))" using assms(1) by (auto simp: tp_inv_def)
  from tw.get_fresh [OF this g] have "work \<notin> set (running t)" by simp
  moreover have "running t' = running t \<and> task t' = (task t)(work \<mapsto> w)"
    using assms(2) g by (auto simp: tpool_add_work_def Let_def split: option.splits)
  ultimately show "running t' = running t" "\<forall>a \<in> set (running t). task t' a = task t a" by auto
qed

lemma take_effect:
  assumes "tp_inv t" "thread_take t = Some t'"
  obtains work w where "tp_inv t'" "added t' = added t" "started t' = started t @ [w]" "running t' = work # running t" "task t' = task t"
    "task t work = Some w" "work \<notin> set (running t)" "drop (length (started t)) (added t) = w # drop (length (started t')) (added t)"
proof -
  from assms(2) obtain work w where t': "queue_head t = Some work" "task t work = Some w"
    "t' = t\<lparr>queue_head := nxt (items t) work, running := work # running t, started := started t @ [w]\<rparr>"
    by (auto simp: thread_take_def split: if_splits option.splits)
  from assms(1) obtain qs where qs: "chain (nxt (items t)) (queue_head t) qs" "distinct (qs @ running t)"
    "added t = started t @ map (\<lambda>a. the (task t a)) qs" by (auto simp: tp_inv_def)
  then obtain ys where "qs = work # ys" using t'(1) by (auto simp: chain_Some)
  with qs t' that [of w work] take_inv [OF assms] show ?thesis by auto
qed

text \<open>C33. The work queue is first in, first out, and loses nothing: in every reachable state the tasks
  started are the first tasks added, in order, the rest waits in the queue, and no work item is in two
  places; adding a task always succeeds, so the walk to the end of the queue ends.\<close>

theorem work_queue_fifo:
  assumes "tp_reach s"
  shows "\<exists>qs. chain (nxt (items s)) (queue_head s) qs \<and> distinct (qs @ running s) \<and>
    added s = started s @ map (\<lambda>a. the (task s a)) qs \<and> tpool_add_work w s \<noteq> None"
  using tp_reach_inv [OF assms] add_work_inv [OF tp_reach_inv [OF assms], of w] by (auto simp: tp_inv_def)

theorem request_buffers_exclusive_witness:
  "\<exists>s. exec requirePool_get requirePool_del [PGet, PGet, PDel 0, PGet] requirePool_init [] = Some (s, [0, 1]) \<and>
    distinct [0 :: nat, 1]"
proof -
  obtain s where s: "exec requirePool_get requirePool_del [PGet, PGet, PDel 0, PGet] requirePool_init [] = Some (s, [0, 1])"
    by (simp add: requirePool_get_def requirePool_del_def requirePool_init_def Let_def)
  from request_buffers_exclusive [OF s] s show ?thesis by blast
qed

theorem work_queue_fifo_witness:
  "\<exists>s :: nat tpool. tp_reach s \<and> added s = [3, 4] \<and> (\<exists>qs. chain (nxt (items s)) (queue_head s) qs \<and>
    distinct (qs @ running s) \<and> added s = started s @ map (\<lambda>a. the (task s a)) qs \<and> tpool_add_work 5 s \<noteq> None)"
proof -
  obtain s1 :: "nat tpool" where s1: "tpool_add_work 3 tpool_create = Some s1" "tp_inv s1" "added s1 = [3]"
    using add_work_inv [OF tp_reach_inv [OF tp_init], of "3 :: nat"] by (auto simp: tpool_create_def)
  obtain s2 where s2: "tpool_add_work 4 s1 = Some s2" "added s2 = [3, 4]"
    using add_work_inv [OF s1(2), of 4] s1(3) by auto
  have "tp_reach s2"
    by (rule tp_more [OF tp_more [OF tp_init tp_add [OF s1(1)]] tp_add [OF s2(1)]])
  from work_queue_fifo [OF this, of 5] this s2(2) show ?thesis by blast
qed

end
