(* ===== verification/Connection.thy ===== *)
theory Connection
  imports Registration FileCache Pools
begin

text \<open>
  The request handler of \<^verbatim>\<open>core/ysconnection.hpp\<close>: the class \<open>ysConnection\<close>, whose method \<open>run\<close> answers
  every packet that reaches a server, together with the files, the database and the Lua functions it uses.

  \<^item> \<open>conn\<close> is the object and the globals the handler changes: the database, the files, the parent server with
    the stack of former parents and the flag of the mutex \<open>iplocker\<close>, the counter \<open>num\<close>, the public key \<open>DH.pubkey\<close>, the packets sent
    and the shell commands run so far, and the packets that \<open>select\<close> will deliver.
  \<^item> \<open>env\<close> is what a call reads from outside: the clock, OpenSSL, the Lua script, the configuration, and the
    contents of variables the code reads before writing them (\<open>junk_\<dots>\<close>).
  \<^item> \<open>outcome\<close> is how a call ends: it returns, an uncaught exception ends the process, it accesses memory
    through an invalid pointer, or it waits for ever for a mutex it can not get.
  \<^item> A packet in memory is its array of bytes.  The header starts at 0, a query has \<open>str1\<close>, \<open>str2\<close>, \<open>addr\<close> and
    \<open>num1\<close> to \<open>num4\<close> at 56, 72, 88 and 92 to 104, a source packet \<open>size\<close>, \<open>title\<close> and \<open>source\<close> at 56, 60 and 76.
    Integers without a conversion class are stored in the byte order of the machine, which is little endian.
\<close>

unbundle bit_operations_syntax

section \<open>Packets\<close>

definition le32 :: "bytes \<Rightarrow> u32" where
  "le32 b = ntohl_bytes (rev b)"

definition le32_bytes :: "u32 \<Rightarrow> bytes" where
  "le32_bytes w = rev (htonl_bytes w)"

definition h_userid :: "bytes \<Rightarrow> u32" where "h_userid p = nint32_val (field 4 4 p)"
definition h_unique :: "bytes \<Rightarrow> u32" where "h_unique p = le32 (field header_unique 4 p)"
definition h_password :: "bytes \<Rightarrow> bytes" where "h_password p = field header_password 16 p"
definition h_mode :: "bytes \<Rightarrow> u8" where "h_mode p = p ! 36"
definition h_globalMode :: "bytes \<Rightarrow> u8" where "h_globalMode p = p ! 37"
definition h_function :: "bytes \<Rightarrow> bytes" where "h_function p = field 38 16 p"
definition q_str1 :: "bytes \<Rightarrow> bytes" where "q_str1 p = field 56 16 p"
definition q_str2 :: "bytes \<Rightarrow> bytes" where "q_str2 p = field 72 16 p"
definition q_addr :: "bytes \<Rightarrow> u32" where "q_addr p = le32 (field 88 4 p)"
definition q_num1 :: "bytes \<Rightarrow> u32" where "q_num1 p = nint32_val (field 92 4 p)"
definition q_num2 :: "bytes \<Rightarrow> u32" where "q_num2 p = nint32_val (field 96 4 p)"
definition q_num3 :: "bytes \<Rightarrow> u32" where "q_num3 p = nint32_val (field 100 4 p)"
definition q_num4 :: "bytes \<Rightarrow> u32" where "q_num4 p = nint32_val (field 104 4 p)"
definition s_size :: "bytes \<Rightarrow> u32" where "s_size p = nint32_val (field 56 4 p)"
definition s_title :: "bytes \<Rightarrow> bytes" where "s_title p = field 60 16 p"
definition s_source :: "bytes \<Rightarrow> bytes" where "s_source p = field 76 SOURCE_CHUNK_SIZE p"

definition set_mode :: "request \<Rightarrow> bytes \<Rightarrow> bytes" where "set_mode m p = p[36 := request_code m]"
definition copy_unique :: "bytes \<Rightarrow> bytes \<Rightarrow> bytes" where
  "copy_unique from p = set_field header_unique (field header_unique 4 from) p"

text \<open>A port is a \<open>short\<close> and is extended with its sign when it is stored as a number.\<close>

definition num_of_port :: "u16 \<Rightarrow> u32" where "num_of_port p = scast p"
definition port_of_num :: "u32 \<Rightarrow> u16" where "port_of_num n = ucast n"

section \<open>Lua scripts\<close>

text \<open>The functions a script can call on the server (\<open>funcreg\<close>), with arguments of the right types;
  \<open>L_badargs\<close> is a call with others.\<close>

datatype lua_call =
    L_succeed u32 u16
  | L_fail u32 u16
  | L_connect u32 u16
  | L_send u32 u16 "bytes option" "bytes option" "u32 option" "u32 option" "u32 option" "u32 option"
  | L_recv
  | L_trylogin u32 bytes
  | L_changePwd u32 bytes
  | L_changeAcl u32 bytes
  | L_readSrc bytes "u32 option"
  | L_writeSrc bytes bytes "u32 option"
  | L_delSrc bytes "u32 option"
  | L_badargs

datatype lua_result =
    R_none
  | R_bool bool
  | R_string bytes
  | R_packet u32 u16 u32 bytes bytes bytes u32 u32 u32 u32

record lua_globals =
  NUM1 :: "u32 option"
  NUM2 :: "u32 option"
  NUM3 :: "u32 option"
  NUM4 :: "u32 option"
  STR1 :: "bytes option"
  STR2 :: "bytes option"

text \<open>A script from the view of the server: it ends and leaves its global variables, or calls a function and
  goes on with the result.\<close>

datatype lua_prog = Finish lua_globals | Call lua_call "lua_result \<Rightarrow> lua_prog"

text \<open>What \<open>plus\<close> tells the script: \<open>FROM\<close>, \<open>FROM_PORT\<close>, \<open>USERID\<close>, \<open>FUNCTION_NAME\<close> and \<open>USERINFO\<close>.\<close>

record lua_input =
  FROM :: u32
  FROM_PORT :: u16
  USERID :: u32
  FUNCTION_NAME :: bytes
  USERINFO :: bytes

section \<open>State\<close>

text \<open>An event of the network: the clock when the program looks, and the packet that \<open>select\<close> found, with
  its sender.\<close>

type_synonym net_event = "u32 \<times> (u32 \<times> u16 \<times> bytes) option"

record conn =
  db :: ysdb
  files :: fs
  myuserid :: u32
  mypassword :: bytes
  parIP :: u32
  parPort :: u16
  ipstack :: "location list"
  iplocked :: bool
  num :: u32
  pubkey :: bytes
  sent :: "(location \<times> bytes) list"
  inbox :: "net_event list"
  shell :: "bytes list"

record env =
  now :: u32
  writable :: "bytes \<Rightarrow> bool"
  AllowShell :: bool
  send_ok :: bool
  signers :: "signer list"
  ecdsa_sign :: "bytes \<Rightarrow> bytes \<times> u32"
  dh_compute :: "bytes \<Rightarrow> bytes option"
  fresh_pubkey :: bytes
  fresh_compute :: "bytes \<Rightarrow> bytes option"
  script :: "lua_input \<Rightarrow> lua_prog"
  junk_respk :: bytes
  junk_key :: bytes
  junk_base64 :: bytes
  junk_secret :: bytes
  junk_time :: "bytes option"
  junk_name :: bytes
  junk_rl :: u32
  respk_address :: bytes

datatype outcome = Ret bool | Throw | Fault | Hang

section \<open>Sending\<close>

definition send :: "conn \<Rightarrow> u32 \<Rightarrow> u16 \<Rightarrow> bytes \<Rightarrow> conn" where
  "send c to pt bs = c\<lparr>sent := sent c @ [(Location to pt, bs)]\<rparr>"

text \<open>The lines that write the name and the password of the server into a header.\<close>

definition sign_header :: "conn \<Rightarrow> bytes \<Rightarrow> bytes" where
  "sign_header c p = set_field header_password (take 16 (mypassword c)) (set_field 4 (nint32_set (myuserid c)) p)"

definition zero_query :: bytes where "zero_query = replicate (size_of netQuery) 0"
definition zero_source :: bytes where "zero_source = replicate (size_of netSource) 0"

definition status_packet :: "conn \<Rightarrow> request \<Rightarrow> bytes" where
  "status_packet c m = set_mode m (sign_header c zero_query)"

definition succeed :: "conn \<Rightarrow> u32 \<Rightarrow> u16 \<Rightarrow> conn" where
  "succeed c to pt = send c to pt (status_packet c SUCCEED)"

definition fail :: "conn \<Rightarrow> u32 \<Rightarrow> u16 \<Rightarrow> conn" where
  "fail c to pt = send c to pt (status_packet c FAIL)"

text \<open>\<open>if(crypt)crypt_encode(...)\<close> before an answer.\<close>

definition seal :: "bool \<Rightarrow> bytes \<Rightarrow> layout \<Rightarrow> bytes \<Rightarrow> bytes" where
  "seal crypt key lay p = (if crypt then crypt_encode (aes_encrypt_block key) lay p else p)"

section \<open>Peers and parents\<close>

definition p2p_packet :: "request \<Rightarrow> u32 \<Rightarrow> u16 \<Rightarrow> bytes \<Rightarrow> bytes" where
  "p2p_packet m a p q = set_field 92 (nint32_set (num_of_port p)) (set_field 88 (le32_bytes a) (set_mode m q))"

primrec connectUser_loop :: "nat \<Rightarrow> u32 \<Rightarrow> u16 \<Rightarrow> u32 \<Rightarrow> u16 \<Rightarrow> bytes \<Rightarrow> conn \<Rightarrow> conn" where
  "connectUser_loop 0 ab pb from pt qypk c = c"
| "connectUser_loop (Suc n) ab pb from pt qypk c =
    (let qypk = p2p_packet P2PCONNECT ab pb qypk; c = send c from pt qypk;
         qypk = p2p_packet P2PCONNECT_C from pt qypk; c = send c ab pb qypk
     in connectUser_loop n ab pb from pt qypk c)"

definition connectUser :: "conn \<Rightarrow> u32 \<Rightarrow> u32 \<Rightarrow> u16 \<Rightarrow> conn" where
  "connectUser c uid from pt =
    (let (_, ab, pb) = getUserIP (db c) uid in connectUser_loop 8 ab pb from pt zero_query c)"

text \<open>The loop of \<open>p2pconnect\<close> sends a packet, waits a second and looks at what came, while the clock is
  within ten seconds of the start \<open>t\<close>.  When no event is left the time is over.\<close>

fun p2p_loop :: "u32 \<Rightarrow> u16 \<Rightarrow> u32 \<Rightarrow> net_event list \<Rightarrow> conn \<Rightarrow> bool \<times> conn" where
  "p2p_loop to pt t [] c = (False, c\<lparr>inbox := []\<rparr>)"
| "p2p_loop to pt t ((clock, pk) # es) c =
    (if sint (cabs (clock - t)) < 10
     then
       (let c = send c to pt (set_mode CONNECT zero_query)
        in case pk of
          None \<Rightarrow> p2p_loop to pt t es c
        | Some (a, p, _) \<Rightarrow>
            if a = to \<and> p = pt then (True, c\<lparr>inbox := es\<rparr>) else p2p_loop to pt t es c)
     else (False, c\<lparr>inbox := (clock, pk) # es\<rparr>))"

definition p2pconnect :: "u32 \<Rightarrow> conn \<Rightarrow> u32 \<Rightarrow> u16 \<Rightarrow> bool \<times> conn" where
  "p2pconnect t c to pt = p2p_loop to pt t (inbox c) c"

definition push_parent :: "conn \<Rightarrow> u32 \<Rightarrow> u16 \<Rightarrow> conn" where
  "push_parent c addr pt =
    c\<lparr>ipstack := Location (parIP c) (parPort c) # ipstack c, parIP := addr, parPort := pt\<rparr>"

definition changeParentServer :: "u32 \<Rightarrow> conn \<Rightarrow> u32 \<Rightarrow> u16 \<Rightarrow> outcome \<times> conn" where
  "changeParentServer t c addr pt =
    (if iplocked c then (Hang, c)
     else
       (let c = c\<lparr>iplocked := True\<rparr>
        in case p2pconnect t c addr pt of
          (True, c) \<Rightarrow> (Ret True, (push_parent c addr pt)\<lparr>iplocked := False\<rparr>)
        | (False, c) \<Rightarrow> (Ret False, c)))"

definition goLast :: "conn \<Rightarrow> outcome \<times> conn" where
  "goLast c =
    (if iplocked c then (Hang, c)
     else
       (let c = c\<lparr>iplocked := True\<rparr>
        in case ipstack c of
          [] \<Rightarrow> (Ret False, c\<lparr>iplocked := False\<rparr>)
        | lc # rest \<Rightarrow>
            (Ret True, c\<lparr>ipstack := rest, parIP := ip lc, parPort := port lc, iplocked := False\<rparr>)))"

section \<open>The functions of a script\<close>

text \<open>\<open>recv_within_time\<close> tries a hundred times; \<open>recvfrom\<close> cuts a packet to the buffer and leaves the rest of
  the buffer as it is.\<close>

fun recv_within_time :: "nat \<Rightarrow> net_event list \<Rightarrow> (u32 \<times> u16 \<times> bytes) option \<times> net_event list" where
  "recv_within_time 0 es = (None, es)"
| "recv_within_time (Suc n) [] = (None, [])"
| "recv_within_time (Suc n) ((clock, None) # es) = recv_within_time n es"
| "recv_within_time (Suc n) ((clock, Some pk) # es) = (Some pk, es)"

definition recv_into :: "bytes \<Rightarrow> bytes \<Rightarrow> bytes" where
  "recv_into buf bs = take (length buf) bs @ drop (length bs) buf"

text \<open>A field of at most 16 bytes as a Lua string, copied through a buffer of 17 bytes.\<close>

definition field_string :: "bytes \<Rightarrow> bytes" where
  "field_string f = cstr (wristr f (replicate 17 0))"

definition set_opt :: "nat \<Rightarrow> u32 option \<Rightarrow> bytes \<Rightarrow> bytes" where
  "set_opt off n p = (case n of None \<Rightarrow> p | Some v \<Rightarrow> set_field off (nint32_set v) p)"

definition str_opt :: "nat \<Rightarrow> bytes option \<Rightarrow> bytes \<Rightarrow> bytes" where
  "str_opt off s p = (case s of None \<Rightarrow> p | Some v \<Rightarrow> set_field off (wristr v (field off 16 p)) p)"

definition lua_send_packet :: "conn \<Rightarrow> bytes option \<Rightarrow> bytes option \<Rightarrow> u32 option \<Rightarrow> u32 option \<Rightarrow> u32 option \<Rightarrow> u32 option \<Rightarrow> bytes" where
  "lua_send_packet c s1 s2 n1 n2 n3 n4 =
    (let q = set_field 4 (nint32_set (myuserid c)) (set_mode PLUS zero_query);
         q = set_field header_password (wristr (mypassword c) (field header_password 16 q)) q
     in set_opt 104 n4 (set_opt 100 n3 (set_opt 96 n2 (set_opt 92 n1 (str_opt 72 s2 (str_opt 56 s1 q))))))"

definition lua_recv :: "conn \<Rightarrow> lua_result \<times> conn" where
  "lua_recv c =
    (case recv_within_time 100 (inbox c) of
      (None, es) \<Rightarrow> (R_bool False, c\<lparr>inbox := es\<rparr>)
    | (Some (a, p, bs), es) \<Rightarrow>
        (let buf = recv_into zero_query bs
         in (R_packet a p (h_userid buf) (field_string (h_password buf)) (field_string (q_str1 buf))
               (field_string (q_str2 buf)) (q_num1 buf) (q_num2 buf) (q_num3 buf) (q_num4 buf),
             c\<lparr>inbox := es\<rparr>)))"

definition string_of_src :: "bytes option \<Rightarrow> lua_result" where
  "string_of_src s = R_string (case s of None \<Rightarrow> [] | Some v \<Rightarrow> cstr v)"

definition with_db :: "conn \<Rightarrow> bool \<times> ysdb \<Rightarrow> lua_result \<times> conn" where
  "with_db c r = (R_bool (fst r), c\<lparr>db := snd r\<rparr>)"

fun lua_step :: "env \<Rightarrow> lua_call \<Rightarrow> conn \<Rightarrow> lua_result \<times> conn" where
  "lua_step e (L_succeed a p) c = (R_none, succeed c a p)"
| "lua_step e (L_fail a p) c = (R_none, fail c a p)"
| "lua_step e (L_connect a p) c = (case p2pconnect (now e) c a p of (b, c) \<Rightarrow> (R_bool b, c))"
| "lua_step e (L_send a p s1 s2 n1 n2 n3 n4) c = (R_bool (send_ok e), send c a p (lua_send_packet c s1 s2 n1 n2 n3 n4))"
| "lua_step e L_recv c = lua_recv c"
| "lua_step e (L_trylogin uid pwd) c =
    (case login (db c) (now e) uid pwd of (b, _, d) \<Rightarrow> (R_bool b, c\<lparr>db := d\<rparr>))"
| "lua_step e (L_changePwd uid text) c = with_db c (changePwd (db c) uid text)"
| "lua_step e (L_changeAcl uid text) c = with_db c (changeAcl (db c) uid text)"
| "lua_step e (L_readSrc n None) c = (string_of_src (readSrc (db c) n), c)"
| "lua_step e (L_readSrc n (Some uid)) c = (string_of_src (readSrc_user (db c) (junk_name e) n uid), c)"
| "lua_step e (L_writeSrc n s None) c = with_db c (writeSrc (db c) n s)"
| "lua_step e (L_writeSrc n s (Some uid)) c = with_db c (writeSrc_user (db c) (junk_name e) n uid s)"
| "lua_step e (L_delSrc n None) c = with_db c (delSrc (db c) n)"
| "lua_step e (L_delSrc n (Some uid)) c = with_db c (delSrc_user (db c) (junk_name e) n uid)"
| "lua_step e L_badargs c = (R_none, c)"

primrec run_lua :: "env \<Rightarrow> lua_prog \<Rightarrow> conn \<Rightarrow> lua_globals \<times> conn" where
  "run_lua e (Finish g) c = (g, c)"
| "run_lua e (Call f k) c = (case lua_step e f c of (r, c) \<Rightarrow> run_lua e (k r) c)"

text \<open>\<open>STR1\<close> and \<open>STR2\<close> are copied without a terminator into a packet of zeros.\<close>

definition copy_opt :: "nat \<Rightarrow> bytes option \<Rightarrow> bytes \<Rightarrow> bytes" where
  "copy_opt off s p = (case s of None \<Rightarrow> p | Some v \<Rightarrow> set_field off (take 16 (cstr v)) p)"

definition plus :: "env \<Rightarrow> conn \<Rightarrow> u32 \<Rightarrow> u16 \<Rightarrow> bytes \<Rightarrow> bytes \<Rightarrow> bytes \<Rightarrow> bytes \<times> conn" where
  "plus e c from pt data u result =
    (case run_lua e (script e \<lparr>FROM = from, FROM_PORT = pt, USERID = h_userid data,
        FUNCTION_NAME = field_string (h_function data), USERINFO = cstr u\<rparr>) c of
      (g, c) \<Rightarrow>
        (copy_opt 72 (STR2 g) (copy_opt 56 (STR1 g)
          (set_opt 104 (NUM4 g) (set_opt 100 (NUM3 g) (set_opt 96 (NUM2 g) (set_opt 92 (NUM1 g) result))))), c))"

section \<open>Requests\<close>

text \<open>The local variables of \<open>run\<close> that its cases share.\<close>

record ctx =
  from_ip :: u32
  from_port :: u16
  packet :: bytes
  userinfo :: bytes
  crypt :: bool
  ckey :: bytes

definition answer_ok :: "ctx \<Rightarrow> conn \<Rightarrow> outcome \<times> conn" where
  "answer_ok r c = (Ret True, succeed c (from_ip r) (from_port r))"

definition answer_fail :: "ctx \<Rightarrow> conn \<Rightarrow> outcome \<times> conn" where
  "answer_fail r c = (Ret False, fail c (from_ip r) (from_port r))"

text \<open>\<open>if(userinfo.at(n)!='t'){fail(from,port,header->unique);return 0;}\<close>, where \<open>at\<close> throws behind the end.\<close>

definition require_right :: "nat \<Rightarrow> ctx \<Rightarrow> conn \<Rightarrow> (conn \<Rightarrow> outcome \<times> conn) \<Rightarrow> outcome \<times> conn" where
  "require_right n r c k =
    (if length (userinfo r) \<le> n then (Throw, c)
     else if userinfo r ! n \<noteq> 116 then answer_fail r c else k c)"

definition run_UPDATEKEY :: "env \<Rightarrow> ctx \<Rightarrow> conn \<Rightarrow> outcome \<times> conn" where
  "run_UPDATEKEY e r c =
    (let respk = set_field 1104 (take 33 (fresh_pubkey e)) (junk_respk e);
         shared = (case fresh_compute e (field 76 33 (packet r)) of None \<Rightarrow> junk_secret e | Some s \<Rightarrow> s);
         (s, len) = ecdsa_sign e (take 33 (fresh_pubkey e));
         respk = set_field 76 (nint32_set len) (set_field 80 (take 1024 s) respk);
         c = c\<lparr>db := setkey (db c) (h_userid (packet r)) (take 16 shared)\<rparr>;
         respk = set_field 56 (nint32_set 1064) (sign_header c respk);
         respk = copy_unique (packet r) (set_mode UPDATEKEY respk)
     in (Ret True, send c (from_ip r) (from_port r) (seal (crypt r) (ckey r) netSource respk)))"

text \<open>The name of a new file: time, user and number of the request between fixed parts.  \<open>time\<close> is compared
  with the result of \<open>nowtime\<close> and not assigned, so the eight bytes are read through a pointer that was
  never set.\<close>

definition filename_template :: bytes where
  "filename_template = lit ''static/srcs/ttttttttuuuuuuuurrrrrrrr.yss''"

definition new_filename :: "bytes \<Rightarrow> u32 \<Rightarrow> u32 \<Rightarrow> bytes" where
  "new_filename tm uid n =
    set_field 28 (take 8 (int2str n)) (set_field 20 (take 8 (int2str uid)) (set_field 12 (take 8 tm) filename_template))"

definition succeed_and_create :: "env \<Rightarrow> ctx \<Rightarrow> conn \<Rightarrow> bytes \<Rightarrow> outcome \<times> conn" where
  "succeed_and_create e r c name =
    (let c = succeed c (from_ip r) (from_port r)
     in case createfile (writable e) (files c) (cstr name) of
       None \<Rightarrow> (Fault, c) | Some f \<Rightarrow> (Ret True, c\<lparr>files := f\<rparr>))"

definition create_and_succeed :: "env \<Rightarrow> ctx \<Rightarrow> conn \<Rightarrow> bytes \<Rightarrow> outcome \<times> conn" where
  "create_and_succeed e r c name =
    (case createfile (writable e) (files c) (cstr name) of
       None \<Rightarrow> (Fault, c) | Some f \<Rightarrow> (Ret True, succeed (c\<lparr>files := f\<rparr>) (from_ip r) (from_port r)))"

definition run_NEWSRC :: "env \<Rightarrow> ctx \<Rightarrow> conn \<Rightarrow> outcome \<times> conn" where
  "run_NEWSRC e r c =
    (case junk_time e of None \<Rightarrow> (Fault, c)
     | Some tm \<Rightarrow>
       (let data = packet r; uid = h_userid data; filename = new_filename tm uid (num c)
        in if h_globalMode data = 116
           then
             (if length (userinfo r) \<le> 16 then (Throw, c)
              else if userinfo r ! 16 = 116
              then
                (if \<not> existSrc (db c) (q_str1 data)
                 then (case writeSrc (db c) (q_str1 data) filename of
                     (True, d) \<Rightarrow> succeed_and_create e r (c\<lparr>db := d\<rparr>) filename
                   | (False, d) \<Rightarrow> answer_fail r (c\<lparr>db := d\<rparr>))
                 else create_and_succeed e r c (case readSrc (db c) (q_str1 data) of None \<Rightarrow> [] | Some v \<Rightarrow> v))
              else answer_fail r c)
           else
             (if \<not> existSrc_user (db c) (junk_name e) (q_str1 data) uid
              then (case writeSrc_user (db c) (junk_name e) (q_str1 data) uid filename of
                  (True, d) \<Rightarrow> succeed_and_create e r (c\<lparr>db := d\<rparr>) filename
                | (False, d) \<Rightarrow> answer_fail r (c\<lparr>db := d\<rparr>))
              else create_and_succeed e r c
                (case readSrc_user (db c) (junk_name e) (q_str1 data) uid of None \<Rightarrow> [] | Some v \<Rightarrow> v))))"

text \<open>The data are appended to the file named by the template, whatever the name found in the database.\<close>

definition append_and_succeed :: "env \<Rightarrow> ctx \<Rightarrow> conn \<Rightarrow> outcome \<times> conn" where
  "append_and_succeed e r c =
    (case fileappend (writable e) (files c) filename_template (take (unat (s_size (packet r))) (s_source (packet r))) of
      None \<Rightarrow> (Fault, c)
    | Some f \<Rightarrow> answer_ok r (c\<lparr>files := f\<rparr>))"

definition run_SETSRC_APPEND :: "env \<Rightarrow> ctx \<Rightarrow> conn \<Rightarrow> outcome \<times> conn" where
  "run_SETSRC_APPEND e r c =
    (let data = packet r
     in if int SOURCE_CHUNK_SIZE < sint (s_size data) \<or> sint (s_size data) < 0 then answer_fail r c
        else if h_globalMode data = 116
        then
          (if length (userinfo r) \<le> 16 then (Throw, c)
           else if userinfo r ! 16 = 116
           then (case readSrc (db c) (s_title data) of
               None \<Rightarrow> answer_fail r c | Some _ \<Rightarrow> append_and_succeed e r c)
           else append_and_succeed e r c)
        else
          (case readSrc_user (db c) (junk_name e) (s_title data) (h_userid data) of
             None \<Rightarrow> answer_fail r c | Some _ \<Rightarrow> append_and_succeed e r c))"

text \<open>The lookup at the start of \<open>_GETSRC\<close>, \<open>_GETSRCNAME\<close> and \<open>_DELSRC\<close>.\<close>

definition find_src :: "env \<Rightarrow> ctx \<Rightarrow> conn \<Rightarrow> bytes option" where
  "find_src e r c =
    (if h_globalMode (packet r) = 116 then readSrc (db c) (q_str1 (packet r))
     else readSrc_user (db c) (junk_name e) (q_str1 (packet r)) (h_userid (packet r)))"

text \<open>The answer: \<open>n\<close> is the length that \<open>readfile\<close> returned and \<open>bs\<close> what it stored.\<close>

definition getsrc_packet :: "conn \<Rightarrow> bytes \<Rightarrow> u32 \<Rightarrow> bytes \<Rightarrow> bytes" where
  "getsrc_packet c data n bs =
    (let respk = set_field 56 (nint32_set n) (set_field 76 bs zero_source);
         respk = set_mode SETSRC_APPEND (copy_unique data (sign_header c respk))
     in set_field 60 (wristr (q_str1 data) (field 60 16 respk)) respk)"

definition run_GETSRC :: "env \<Rightarrow> ctx \<Rightarrow> conn \<Rightarrow> outcome \<times> conn" where
  "run_GETSRC e r c =
    (case find_src e r c of
      None \<Rightarrow> answer_fail r c
    | Some result \<Rightarrow>
      (case readfile (junk_rl e) (files c) (cstr result) (word_of_nat SOURCE_CHUNK_SIZE * q_num1 (packet r))
              (word_of_nat SOURCE_CHUNK_SIZE) of
        None \<Rightarrow> (Fault, c)
      | Some (n, bs) \<Rightarrow>
        (Ret True, send c (from_ip r) (from_port r)
          (seal (crypt r) (ckey r) netSource (getsrc_packet c (packet r) n bs)))))"

definition run_GETSRCNAME :: "env \<Rightarrow> ctx \<Rightarrow> conn \<Rightarrow> outcome \<times> conn" where
  "run_GETSRCNAME e r c =
    (case find_src e r c of
      None \<Rightarrow> answer_fail r c
    | Some result \<Rightarrow>
      (let name = take SOURCE_CHUNK_SIZE (cstr result);
           respk = set_field 56 (nint32_set (word_of_nat (length name))) (set_field 76 name zero_source);
           respk = copy_unique (packet r) (sign_header c respk)
       in (Ret True, send c (from_ip r) (from_port r) (seal (crypt r) (ckey r) netSource respk))))"

definition remove_and_answer :: "ctx \<Rightarrow> conn \<Rightarrow> bytes \<Rightarrow> outcome \<times> conn" where
  "remove_and_answer r c result =
    (case removefile (files c) (cstr result) of
      (False, f) \<Rightarrow> answer_fail r (c\<lparr>files := f\<rparr>) | (True, f) \<Rightarrow> answer_ok r (c\<lparr>files := f\<rparr>))"

definition run_DELSRC :: "env \<Rightarrow> ctx \<Rightarrow> conn \<Rightarrow> outcome \<times> conn" where
  "run_DELSRC e r c =
    (let data = packet r; uid = h_userid data
     in if h_globalMode data = 116
        then
          (if length (userinfo r) \<le> 16 then (Throw, c)
           else if userinfo r ! 16 = 116
           then (case readSrc (db c) (q_str1 data) of
               Some result \<Rightarrow> remove_and_answer r (c\<lparr>db := snd (delSrc (db c) (q_str1 data))\<rparr>) result
             | None \<Rightarrow> answer_fail r c)
           else remove_and_answer r c [])
        else
          (case readSrc_user (db c) (junk_name e) (q_str1 data) uid of
             Some result \<Rightarrow>
               remove_and_answer r (c\<lparr>db := snd (delSrc_user (db c) (junk_name e) (q_str1 data) uid)\<rparr>) result
           | None \<Rightarrow> answer_fail r c))"

definition run_NEWUSER :: "ctx \<Rightarrow> conn \<Rightarrow> outcome \<times> conn" where
  "run_NEWUSER r c =
    require_right 17 r c (\<lambda>c. answer_ok r (c\<lparr>db := newUser (db c) (q_num1 (packet r))\<rparr>))"

definition run_DELUSER :: "ctx \<Rightarrow> conn \<Rightarrow> outcome \<times> conn" where
  "run_DELUSER r c =
    require_right 17 r c (\<lambda>c. answer_ok r (c\<lparr>db := delUser (db c) (q_num1 (packet r))\<rparr>))"

text \<open>An operation of the database whose answer decides between success and failure.\<close>

definition answer_db :: "ctx \<Rightarrow> conn \<Rightarrow> bool \<times> ysdb \<Rightarrow> outcome \<times> conn" where
  "answer_db r c bd = (if fst bd then answer_ok r (c\<lparr>db := snd bd\<rparr>) else answer_fail r (c\<lparr>db := snd bd\<rparr>))"

definition run_SETACL :: "ctx \<Rightarrow> conn \<Rightarrow> outcome \<times> conn" where
  "run_SETACL r c =
    require_right 17 r c (\<lambda>c. answer_db r c (changeAcl (db c) (q_num1 (packet r)) (q_str1 (packet r))))"

definition old_pwd_ok :: "bytes \<Rightarrow> bytes \<Rightarrow> bool" where
  "old_pwd_ok str2 tp = list_all (\<lambda>i. cbyte str2 i \<noteq> 0 \<and> cbyte tp i \<noteq> 0 \<and> cbyte str2 i = cbyte tp i) [0..<16]"

definition run_SETPWD :: "ctx \<Rightarrow> conn \<Rightarrow> outcome \<times> conn" where
  "run_SETPWD r c =
    (let data = packet r
     in if h_globalMode data = 116
        then require_right 17 r c (\<lambda>c. answer_db r c (changePwd (db c) (q_num1 data) (q_str1 data)))
        else
          (case Get (ldata (db c)) (user_key (h_userid data) []) of
             None \<Rightarrow> answer_fail r c
           | Some result \<Rightarrow>
               if result = [] then answer_fail r c
               else if \<not> old_pwd_ok (q_str2 data) result then answer_fail r c
               else answer_db r c (changePwd (db c) (h_userid data) (q_str1 data))))"

definition run_LOGIN :: "ctx \<Rightarrow> conn \<Rightarrow> outcome \<times> conn" where
  "run_LOGIN r c = answer_db r c (setTmpPwd (db c) (h_userid (packet r)) (q_str1 (packet r)))"

definition run_LOGIP :: "ctx \<Rightarrow> conn \<Rightarrow> outcome \<times> conn" where
  "run_LOGIP r c =
    require_right 18 r c (\<lambda>c. answer_ok r (c\<lparr>db := logIP (db c) (h_userid (packet r)) (from_ip r) (from_port r)\<rparr>))"

text \<open>\<open>livesrc\<close> sends, four times to every receiver, \<open>sizeof(respk)\<close> bytes from \<open>&respk\<close>: the eight bytes of the
  pointer and not the packet it points to.\<close>

definition livesrc :: "env \<Rightarrow> conn \<Rightarrow> conn" where
  "livesrc e c =
    live (db c) (\<lambda>l. (\<lambda>c. send c (ip l) (port l) (take 8 (respk_address e))) ^^ 4) c"

definition run_LIVESRC :: "env \<Rightarrow> ctx \<Rightarrow> conn \<Rightarrow> outcome \<times> conn" where
  "run_LIVESRC e r c = require_right 20 r c (\<lambda>c. (Ret False, livesrc e c))"

definition run_CONNECTUSER :: "ctx \<Rightarrow> conn \<Rightarrow> outcome \<times> conn" where
  "run_CONNECTUSER r c = (Ret True, connectUser c (q_num1 (packet r)) (from_ip r) (from_port r))"

definition run_SHELL :: "env \<Rightarrow> ctx \<Rightarrow> conn \<Rightarrow> outcome \<times> conn" where
  "run_SHELL e r c =
    require_right 19 r c (\<lambda>c.
      if \<not> AllowShell e then (Ret False, c)
      else answer_ok r (c\<lparr>shell := shell c @ [cstr (drop 76 (packet r))]\<rparr>))"

definition run_PLUS :: "env \<Rightarrow> ctx \<Rightarrow> conn \<Rightarrow> outcome \<times> conn" where
  "run_PLUS e r c =
    (case plus e c (from_ip r) (from_port r) (packet r) (userinfo r) zero_query of
      (qypk, c) \<Rightarrow>
        (Ret True, send c (from_ip r) (from_port r) (seal (crypt r) (ckey r) netQuery (copy_unique (packet r) qypk))))"

definition run_CERT :: "env \<Rightarrow> ctx \<Rightarrow> conn \<Rightarrow> outcome \<times> conn" where
  "run_CERT e r c =
    (let reg = reg_init (ecdsa_sign e) (now e) (field 76 reg_size (junk_respk e)) (h_userid (packet r)) (h_password (packet r));
         respk = set_mode CERT (copy_unique (packet r) (set_field 76 reg (junk_respk e)))
     in (Ret False, send c (from_ip r) (from_port r) (seal (crypt r) (ckey r) netSource respk)))"

definition run_LIVE_B :: "ctx \<Rightarrow> conn \<Rightarrow> outcome \<times> conn" where
  "run_LIVE_B r c =
    (Ret False, succeed (c\<lparr>db := liveAdd (db c) (Location (from_ip r) (from_port r))\<rparr>) (from_ip r) (from_port r))"

definition run_LIVE_E :: "ctx \<Rightarrow> conn \<Rightarrow> outcome \<times> conn" where
  "run_LIVE_E r c =
    (Ret False, succeed (c\<lparr>db := liveRemove (db c) (Location (from_ip r) (from_port r))\<rparr>) (from_ip r) (from_port r))"

text \<open>The \<open>switch\<close>.  A code without a case, such as \<open>_SUCCEED\<close>, does nothing.\<close>

definition dispatch :: "env \<Rightarrow> ctx \<Rightarrow> conn \<Rightarrow> outcome \<times> conn" where
  "dispatch e r c =
    (let m = h_mode (packet r)
     in if m = request_code UPDATEKEY then run_UPDATEKEY e r c
        else if m = request_code NEWSRC then run_NEWSRC e r c
        else if m = request_code SETSRC_APPEND then run_SETSRC_APPEND e r c
        else if m = request_code GETSRC then run_GETSRC e r c
        else if m = request_code GETSRCNAME then run_GETSRCNAME e r c
        else if m = request_code DELSRC then run_DELSRC e r c
        else if m = request_code NEWUSER then run_NEWUSER r c
        else if m = request_code DELUSER then run_DELUSER r c
        else if m = request_code SETACL then run_SETACL r c
        else if m = request_code SETPWD then run_SETPWD r c
        else if m = request_code LOGIN then run_LOGIN r c
        else if m = request_code LOGIP then run_LOGIP r c
        else if m = request_code LIVESRC then run_LIVESRC e r c
        else if m = request_code CONNECTUSER then run_CONNECTUSER r c
        else if m = request_code SHELL then run_SHELL e r c
        else if m = request_code PLUS then run_PLUS e r c
        else if m = request_code CERT then run_CERT e r c
        else if m = request_code LIVE_B then run_LIVE_B r c
        else if m = request_code LIVE_E then run_LIVE_E r c
        else (Ret False, c))"

section \<open>The handler\<close>

text \<open>The key is left uninitialised when the database has none; a packet marked as encrypted is then used
  as it came.\<close>

definition decrypt_request :: "env \<Rightarrow> conn \<Rightarrow> bytes \<Rightarrow> bool \<times> bytes \<times> bytes" where
  "decrypt_request e c data =
    (if data ! 0 = 116
     then (case getkey (db c) (junk_base64 e) (h_userid data) (junk_key e) of
         (True, key) \<Rightarrow> (True, key, crypt_decode (aes_decrypt_block key) netSource data)
       | (False, key) \<Rightarrow> (True, key, data))
     else (False, junk_key e, data))"

text \<open>The requests only the parent may make.  \<open>None\<close> means that \<open>run\<close> goes on.\<close>

definition run_parent :: "env \<Rightarrow> u32 \<Rightarrow> u16 \<Rightarrow> bytes \<Rightarrow> conn \<Rightarrow> outcome option \<times> conn" where
  "run_parent e from pt data c =
    (if from = parIP c \<and> pt = parPort c
     then
       (if h_mode data = request_code P2PCONNECT
        then
          (if iplocked c then (Some Hang, c)
           else
             (let c = c\<lparr>iplocked := True\<rparr>
              in if from = parIP c \<and> pt = parPort c
                 then (case p2pconnect (now e) c (q_addr data) (port_of_num (q_num1 data)) of
                     (True, c) \<Rightarrow>
                       (Some (Ret True), (push_parent c (q_addr data) (port_of_num (q_num1 data)))\<lparr>iplocked := False\<rparr>)
                   | (False, c) \<Rightarrow> (Some (Ret False), c\<lparr>iplocked := False\<rparr>))
                 else (None, c)))
        else if h_mode data = request_code P2PCONNECT_C
        then (None, snd (p2pconnect (now e) c (q_addr data) (port_of_num (q_num1 data))))
        else if h_mode data = request_code GOLAST
        then (case goLast c of (Hang, c) \<Rightarrow> (Some Hang, c) | (_, c) \<Rightarrow> (None, c))
        else (None, c))
     else (None, c))"

text \<open>No class overrides \<open>checkInParent\<close>.\<close>

definition checkInParent :: "u32 \<Rightarrow> bytes \<Rightarrow> bool" where
  "checkInParent userid pwd = False"

definition server_info :: "conn \<Rightarrow> bytes \<Rightarrow> bytes" where
  "server_info c data = copy_unique data (set_mode LOGIN (sign_header c zero_query))"

definition run_login :: "env \<Rightarrow> u32 \<Rightarrow> u16 \<Rightarrow> bool \<Rightarrow> bytes \<Rightarrow> bytes \<Rightarrow> conn \<Rightarrow> outcome \<times> conn" where
  "run_login e from pt cr key data c =
    (case login (db c) (now e) (h_userid data) (h_password data) of
      (ok, ui, d) \<Rightarrow>
        (let c = c\<lparr>db := d\<rparr>
         in if \<not> ok \<and> \<not> checkInParent (h_userid data) (h_password data) then (Ret False, fail c from pt)
            else
              (case logunique (db c) (now e) (h_userid data) (h_unique data) of
                (False, d) \<Rightarrow> (Ret False, c\<lparr>db := d\<rparr>)
              | (True, d) \<Rightarrow>
                  dispatch e \<lparr>from_ip = from, from_port = pt, packet = data, userinfo = ui, crypt = cr, ckey = key\<rparr>
                    (c\<lparr>db := d\<rparr>))))"

definition run :: "env \<Rightarrow> u32 \<Rightarrow> u16 \<Rightarrow> bytes \<Rightarrow> conn \<Rightarrow> outcome \<times> conn" where
  "run e from pt data c =
    (let c = c\<lparr>num := num c + 1\<rparr>; (cr, key, data) = decrypt_request e c data
     in if h_mode data = request_code GET_PUBLIC_KEY
        then (Ret True, c\<lparr>pubkey := field 76 33 (junk_respk e)\<rparr>)
        else if h_mode data = request_code REGISTER
        then
          (Ret True,
           succeed (c\<lparr>db := reg_run (signers e) (dh_compute e) (junk_secret e) (now e) (db c) (field 76 reg_size data)\<rparr>) from pt)
        else
          (case run_parent e from pt data c of
            (Some out, c) \<Rightarrow> (out, c)
          | (None, c) \<Rightarrow>
              if h_mode data = request_code GETSERVERINFO
              then (Ret True, send c from pt (seal cr key netQuery (server_info c data)))
              else run_login e from pt cr key data c))"

end
