(* ===== verification/Connection_Props.thy ===== *)
theory Connection_Props
  imports Connection
begin

text \<open>
  What the request handler guarantees.  The frame lemmas say which part of the state an operation can
  change; \<open>run_steps\<close> reduces every request to operations of the database, so that the invariants of the theory
  \<open>YsDB\<close> hold for a running server; \<open>server_reach\<close> are the states of a server that serves requests and
  local commands one after the other.
\<close>

section \<open>Frames\<close>

text \<open>Everything but the packets sent and received, and the parts that matter below.\<close>

definition same_core :: "conn \<Rightarrow> conn \<Rightarrow> bool" where
  "same_core c c' \<longleftrightarrow> db c' = db c \<and> files c' = files c \<and> shell c' = shell c \<and> pubkey c' = pubkey c \<and>
    myuserid c' = myuserid c \<and> mypassword c' = mypassword c \<and> num c' = num c"

definition same_parent :: "conn \<Rightarrow> conn \<Rightarrow> bool" where
  "same_parent c c' \<longleftrightarrow> parIP c' = parIP c \<and> parPort c' = parPort c \<and> ipstack c' = ipstack c \<and> iplocked c' = iplocked c"

lemma same_core_refl [simp]: "same_core c c" by (simp add: same_core_def)
lemma same_parent_refl [simp]: "same_parent c c" by (simp add: same_parent_def)

lemma same_core_trans: "same_core a b \<Longrightarrow> same_core b c \<Longrightarrow> same_core a c"
  by (simp add: same_core_def)

lemma same_parent_trans: "same_parent a b \<Longrightarrow> same_parent b c \<Longrightarrow> same_parent a c"
  by (simp add: same_parent_def)

lemma send_frame [simp]:
  "db (send c a p bs) = db c" "files (send c a p bs) = files c" "shell (send c a p bs) = shell c"
  "pubkey (send c a p bs) = pubkey c" "myuserid (send c a p bs) = myuserid c"
  "mypassword (send c a p bs) = mypassword c" "num (send c a p bs) = num c" "inbox (send c a p bs) = inbox c"
  "parIP (send c a p bs) = parIP c" "parPort (send c a p bs) = parPort c" "ipstack (send c a p bs) = ipstack c"
  "iplocked (send c a p bs) = iplocked c" "sent (send c a p bs) = sent c @ [(Location a p, bs)]"
  by (simp_all add: send_def)

lemma status_frame [simp]:
  "db (succeed c a p) = db c" "files (succeed c a p) = files c" "shell (succeed c a p) = shell c"
  "iplocked (succeed c a p) = iplocked c" "db (fail c a p) = db c" "files (fail c a p) = files c"
  "shell (fail c a p) = shell c" "iplocked (fail c a p) = iplocked c"
  "parIP (succeed c a p) = parIP c" "parPort (succeed c a p) = parPort c" "ipstack (succeed c a p) = ipstack c"
  "parIP (fail c a p) = parIP c" "parPort (fail c a p) = parPort c" "ipstack (fail c a p) = ipstack c"
  by (simp_all add: succeed_def fail_def)

lemma same_send [simp]: "same_core c (send c a p bs)" "same_parent c (send c a p bs)"
  by (simp_all add: same_core_def same_parent_def)

lemma same_status [simp]:
  "same_core c (succeed c a p)" "same_parent c (succeed c a p)" "same_core c (fail c a p)" "same_parent c (fail c a p)"
  by (simp_all add: succeed_def fail_def)

lemma p2p_loop_same: "same_core c (snd (p2p_loop to pt t es c)) \<and> same_parent c (snd (p2p_loop to pt t es c))"
proof (induction to pt t es c rule: p2p_loop.induct)
  case (2 to pt t clock pk es c)
  let ?c = "send c to pt (set_mode CONNECT zero_query)"
  have "same_core ?c (snd (p2p_loop to pt t es ?c)) \<and> same_parent ?c (snd (p2p_loop to pt t es ?c))"
    if "sint (cabs (clock - t)) < 10" "pk = None \<or> (\<exists>a p bs. pk = Some (a, p, bs) \<and> \<not> (a = to \<and> p = pt))"
    using that 2 by (auto simp: Let_def)
  then show ?case
    by (cases pk) (auto simp: Let_def same_core_def same_parent_def split: prod.splits)
qed (simp add: same_core_def same_parent_def)

lemma p2pconnect_same: "same_core c (snd (p2pconnect t c a p))" "same_parent c (snd (p2pconnect t c a p))"
  using p2p_loop_same by (simp_all add: p2pconnect_def)

lemma connectUser_same: "same_core c (connectUser c uid a p)" "same_parent c (connectUser c uid a p)"
proof -
  have "same_core c (connectUser_loop n ab pb a p q c) \<and> same_parent c (connectUser_loop n ab pb a p q c)" for n ab pb q
  proof (induction n arbitrary: q c)
    case (Suc n)
    show ?case
      by (simp add: Let_def) (meson Suc.IH same_core_trans same_parent_trans same_send)
  qed simp
  then show "same_core c (connectUser c uid a p)" "same_parent c (connectUser c uid a p)"
    by (simp_all add: connectUser_def split: prod.splits)
qed

lemma livesrc_same: "same_core c (livesrc e c)" "same_parent c (livesrc e c)"
proof -
  let ?f = "\<lambda>l. (\<lambda>c. send c (ip l) (port l) (take 8 (respk_address e))) ^^ 4"
  have step: "same_core c (?f l c)" "same_parent c (?f l c)" for l c
    by (simp_all add: numeral_eq_Suc same_core_def same_parent_def)
  have "same_core c (fold ?f ls c) \<and> same_parent c (fold ?f ls c)" for ls
    by (rule fold_keeps) (use step same_core_trans same_parent_trans in auto)
  then show "same_core c (livesrc e c)" "same_parent c (livesrc e c)"
    by (simp_all add: livesrc_def live_def)
qed

lemmas same_frames = p2pconnect_same connectUser_same livesrc_same

section \<open>Requests change the database by its operations only\<close>

text \<open>A step: the database moves by its operations, no command is run, and the parent and its lock stay.\<close>

definition calm :: "conn \<Rightarrow> conn \<Rightarrow> bool" where
  "calm c c' \<longleftrightarrow> db_steps (db c) (db c') \<and> same_parent c c' \<and> shell c' = shell c"

lemma calm_refl [simp]: "calm c c" by (simp add: calm_def db_refl)

lemma calm_trans: "calm a b \<Longrightarrow> calm b c \<Longrightarrow> calm a c"
  unfolding calm_def by (metis db_steps_trans same_parent_trans)

lemma calm_same: "same_core c c' \<Longrightarrow> same_parent c c' \<Longrightarrow> calm c c'"
  by (simp add: calm_def same_core_def db_refl)

lemma calm_send [simp]: "calm c (send c' a p bs) = calm c c'" "calm c (succeed c' a p) = calm c c'"
  "calm c (fail c' a p) = calm c c'"
  by (simp_all add: calm_def same_parent_def succeed_def fail_def)

lemma calm_db: "db_steps (db c) d \<Longrightarrow> calm c (c\<lparr>db := d\<rparr>)"
  by (simp add: calm_def same_parent_def)

lemma calm_files [simp]: "calm c (c'\<lparr>files := f\<rparr>) = calm c c'"
  "calm c (c'\<lparr>inbox := i\<rparr>) = calm c c'" "calm c (c'\<lparr>pubkey := k\<rparr>) = calm c c'" "calm c (c'\<lparr>num := n\<rparr>) = calm c c'"
  "calm (c\<lparr>num := n\<rparr>) c' = calm c c'"
  by (simp_all add: calm_def same_parent_def)

lemma db_step_results:
  "logunique d t uid lid = (b, d') \<Longrightarrow> db_steps d d'"
  "login d t uid pwd = (b, w, d') \<Longrightarrow> db_steps d d'"
  "setTmpPwd d uid pwd = (b, d') \<Longrightarrow> db_steps d d'"
  "changePwd d uid pwd = (b, d') \<Longrightarrow> db_steps d d'"
  "changeAcl d uid pwd = (b, d') \<Longrightarrow> db_steps d d'"
  "writeSrc d n s = (b, d') \<Longrightarrow> db_steps d d'"
  "writeSrc_user d junk n uid s = (b, d') \<Longrightarrow> db_steps d d'"
  "delSrc d n = (b, d') \<Longrightarrow> db_steps d d'"
  "delSrc_user d junk n uid = (b, d') \<Longrightarrow> db_steps d d'"
  using db_step.intros(6-10,13-16) [THEN db_steps_one] by (metis snd_conv)+

lemmas db_step_ones = db_step.intros [THEN db_steps_one]

lemma lua_recv_calm: "calm c (snd (lua_recv c))"
  by (simp add: lua_recv_def Let_def split: prod.splits option.splits)

lemma lua_step_calm: "calm c (snd (lua_step e f c))"
proof (cases "(e, f, c)" rule: lua_step.cases)
  case (3 e a p c)
  then show ?thesis
    using p2pconnect_same [of c "now e" a p] by (auto simp: calm_same split: prod.splits)
qed (auto simp: lua_recv_calm with_db_def intro: calm_db db_step_ones db_step_results split: prod.splits)

lemma run_lua_calm: "calm c (snd (run_lua e g c))"
proof (induction g arbitrary: c)
  case (Call f k)
  show ?case
    using Call.IH [of _ "snd (lua_step e f c)"] lua_step_calm [of c e f] calm_trans
    by (auto split: prod.splits)
qed simp

lemma answer_calm [simp]: "calm c (snd (answer_ok r c')) = calm c c'" "calm c (snd (answer_fail r c')) = calm c c'"
  by (simp_all add: answer_ok_def answer_fail_def)

lemma require_right_calm: "(calm c (snd (k c))) \<Longrightarrow> calm c (snd (require_right n r c k))"
  by (simp add: require_right_def)

lemma answer_db_calm: "db_steps (db c) (snd bd) \<Longrightarrow> calm c (snd (answer_db r c bd))"
  by (simp add: answer_db_def calm_db)

lemma create_calm [simp]:
  "calm c (snd (succeed_and_create e r c' n)) = calm c c'" "calm c (snd (create_and_succeed e r c' n)) = calm c c'"
  "calm c (snd (append_and_succeed e r c')) = calm c c'" "calm c (snd (remove_and_answer r c' n)) = calm c c'"
  by (simp_all add: succeed_and_create_def create_and_succeed_def append_and_succeed_def remove_and_answer_def Let_def
      split: option.splits prod.splits bool.splits)

lemma plus_calm: "calm c (snd (plus e c a p data u q))"
  using run_lua_calm by (auto simp: plus_def split: prod.splits) (metis snd_conv)

lemma resource_requests_calm:
  "calm c (snd (run_NEWSRC e r c))" "calm c (snd (run_SETSRC_APPEND e r c))" "calm c (snd (run_GETSRC e r c))"
  "calm c (snd (run_GETSRCNAME e r c))" "calm c (snd (run_DELSRC e r c))"
proof -
  show "calm c (snd (run_NEWSRC e r c))"
    unfolding run_NEWSRC_def Let_def
    by (auto intro!: calm_db dest: db_step_results split: option.split prod.split bool.split)
  show "calm c (snd (run_DELSRC e r c))"
    unfolding run_DELSRC_def Let_def
    by (auto intro!: calm_db intro: db_step_ones split: option.split)
qed (simp_all add: run_SETSRC_APPEND_def run_GETSRC_def run_GETSRCNAME_def Let_def split: option.split prod.split)

lemma account_requests_calm:
  "calm c (snd (run_NEWUSER r c))" "calm c (snd (run_DELUSER r c))" "calm c (snd (run_SETACL r c))"
  "calm c (snd (run_SETPWD r c))" "calm c (snd (run_LOGIN r c))" "calm c (snd (run_LOGIP r c))"
  by (auto simp: run_NEWUSER_def run_DELUSER_def run_SETACL_def run_SETPWD_def run_LOGIN_def run_LOGIP_def Let_def
      intro!: require_right_calm answer_db_calm calm_db intro: db_step_ones split: option.split)

lemma other_requests_calm:
  "calm c (snd (run_UPDATEKEY e r c))" "calm c (snd (run_LIVESRC e r c))" "calm c (snd (run_CONNECTUSER r c))"
  "calm c (snd (run_PLUS e r c))" "calm c (snd (run_CERT e r c))"
  "calm c (snd (run_LIVE_B r c))" "calm c (snd (run_LIVE_E r c))"
proof -
  show "calm c (snd (run_PLUS e r c))"
    using plus_calm [of c e] by (auto simp: run_PLUS_def split: prod.split) (metis snd_conv)
  show "calm c (snd (run_LIVESRC e r c))"
    by (auto simp: run_LIVESRC_def intro!: require_right_calm calm_same livesrc_same)
  show "calm c (snd (run_CONNECTUSER r c))"
    by (auto simp: run_CONNECTUSER_def intro!: calm_same connectUser_same)
qed (auto simp: run_UPDATEKEY_def run_CERT_def run_LIVE_B_def run_LIVE_E_def Let_def
    intro!: require_right_calm calm_db intro: db_step_ones split: prod.split)

text \<open>Right number \<open>n\<close> of an account, a \<open>'t'\<close> at this place of its information.\<close>

definition has_right :: "bytes \<Rightarrow> nat \<Rightarrow> bool" where
  "has_right ui n \<longleftrightarrow> n < length ui \<and> ui ! n = 116"


lemma run_SHELL_db: "db (snd (run_SHELL e r c)) = db c" "same_parent c (snd (run_SHELL e r c))"
  by (simp_all add: run_SHELL_def require_right_def answer_ok_def answer_fail_def same_parent_def succeed_def fail_def)


lemma dispatch_steps: "db_steps (db c) (db (snd (dispatch e r c))) \<and> same_parent c (snd (dispatch e r c))"
proof (cases "h_mode (packet r) = request_code SHELL")
  case True
  then show ?thesis by (simp add: dispatch_def run_SHELL_db db_refl)
next
  case False
  then have "calm c (snd (dispatch e r c))"
    unfolding dispatch_def Let_def by (simp add: resource_requests_calm account_requests_calm other_requests_calm)
  then show ?thesis by (simp add: calm_def)
qed


lemma answer_ret [simp]: "fst (answer_ok r c) = Ret True" "fst (answer_fail r c) = Ret False"
  "fst (answer_db r c bd) \<noteq> Throw"
  by (simp_all add: answer_ok_def answer_fail_def answer_db_def)

lemma file_ret [simp]: "fst (succeed_and_create e r c n) \<noteq> Throw" "fst (create_and_succeed e r c n) \<noteq> Throw"
  "fst (append_and_succeed e r c) \<noteq> Throw" "fst (remove_and_answer r c n) \<noteq> Throw"
  by (simp_all add: succeed_and_create_def create_and_succeed_def append_and_succeed_def remove_and_answer_def Let_def
      split: option.split prod.split bool.split)



section \<open>A request after its login\<close>

text \<open>The handler behind the login: refused, a repeated session number, or the request itself.\<close>

lemma run_login_cases:
  assumes "login (db c) (now e) (h_userid data) (h_password data) = (ok, ui, d)"
    and "logunique d (now e) (h_userid data) (h_unique data) = (fresh, d')"
  shows "run_login e from pt cr key data c =
    (if \<not> ok then (Ret False, fail (c\<lparr>db := d\<rparr>) from pt)
     else if \<not> fresh then (Ret False, c\<lparr>db := d'\<rparr>)
     else dispatch e \<lparr>from_ip = from, from_port = pt, packet = data, userinfo = ui, crypt = cr, ckey = key\<rparr> (c\<lparr>db := d'\<rparr>))"
  using assms by (simp add: run_login_def checkInParent_def Let_def split: bool.split)

lemma run_login_prefix:
  assumes "login (db c) (now e) (h_userid data) (h_password data) = (ok, ui, d)"
    and "logunique d (now e) (h_userid data) (h_unique data) = (fresh, d')"
  shows "calm c (c\<lparr>db := d\<rparr>)" "calm c (c\<lparr>db := d'\<rparr>)"
proof -
  show 1: "calm c (c\<lparr>db := d\<rparr>)" by (rule calm_db) (rule db_step_results(2) [OF assms(1)])
  have "calm (c\<lparr>db := d\<rparr>) (c\<lparr>db := d'\<rparr>)"
    using calm_db [of "c\<lparr>db := d\<rparr>" d'] db_step_results(1) [OF assms(2)] by simp
  from calm_trans [OF 1 this] show "calm c (c\<lparr>db := d'\<rparr>)" .
qed

lemma run_login_steps:
  "db_steps (db c) (db (snd (run_login e from pt cr key data c))) \<and> same_parent c (snd (run_login e from pt cr key data c))"
proof -
  obtain ok ui d where l: "login (db c) (now e) (h_userid data) (h_password data) = (ok, ui, d)"
    by (metis prod_cases3)
  obtain fresh d' where u: "logunique d (now e) (h_userid data) (h_unique data) = (fresh, d')"
    by fastforce
  have "db_steps (db c) d'" "same_parent c (c\<lparr>db := d'\<rparr>)" "db_steps (db c) d" "same_parent c (c\<lparr>db := d\<rparr>)"
    using run_login_prefix [OF l u] by (simp_all add: calm_def)
  moreover have "db_steps (db c) (db (snd (dispatch e r (c\<lparr>db := d'\<rparr>))))" "same_parent c (snd (dispatch e r (c\<lparr>db := d'\<rparr>)))" for r
    using dispatch_steps [of "c\<lparr>db := d'\<rparr>" e r] db_steps_trans [OF _ calculation(1)] same_parent_trans [OF calculation(2)]
    by simp_all
  ultimately show ?thesis
    unfolding run_login_cases [OF l u] by (simp add: same_parent_def)
qed

text \<open>In a database whose accounts are as they were created, nobody has a right.\<close>

lemma default_rights: "n < 48 \<Longrightarrow> \<not> has_right (cstr defaultUserInfo) n"
proof -
  have "116 \<notin> set (cstr defaultUserInfo)"
    by (simp add: defaultUserInfo_def cstr_def lit_def)
  then show ?thesis by (auto simp: has_right_def dest: nth_mem)
qed



section \<open>States of a running server\<close>


text \<open>The course of a request: one of the four that need no login, one of the parent, or a login first.\<close>

lemma run_cases:
  obtains (key) q where "run e from pt data c = (Ret True, c\<lparr>num := num c + 1, pubkey := q\<rparr>)"
  | (register) q where "run e from pt data c = (Ret True, succeed (c\<lparr>num := num c + 1,
      db := reg_run (signers e) (dh_compute e) (junk_secret e) (now e) (db c) q\<rparr>) from pt)"
  | (parent) out c1 q where "run e from pt data c = (out, c1)" "run_parent e from pt q (c\<lparr>num := num c + 1\<rparr>) = (Some out, c1)"
  | (info) c1 q p where "run e from pt data c = (Ret True, send c1 from pt p)" "run_parent e from pt q (c\<lparr>num := num c + 1\<rparr>) = (None, c1)"
  | (login) cr k q c1 where "run e from pt data c = run_login e from pt cr k q c1" "run_parent e from pt q (c\<lparr>num := num c + 1\<rparr>) = (None, c1)"
proof -
  obtain cr k q where d: "decrypt_request e (c\<lparr>num := num c + 1\<rparr>) data = (cr, k, q)"
    by (metis prod_cases3)
  obtain out c1 where r: "run_parent e from pt q (c\<lparr>num := num c + 1\<rparr>) = (out, c1)"
    by fastforce
  note run = run_def [of e "from" pt data c, unfolded Let_def d prod.case]
  consider "h_mode q = request_code GET_PUBLIC_KEY" | "h_mode q \<noteq> request_code GET_PUBLIC_KEY" "h_mode q = request_code REGISTER"
    | "h_mode q \<noteq> request_code GET_PUBLIC_KEY" "h_mode q \<noteq> request_code REGISTER"
    by blast
  then show ?thesis
  proof cases
    case 1
    then show ?thesis by (intro key) (simp add: run)
  next
    case 2
    then show ?thesis by (intro register) (simp add: run)
  next
    case 3
    then have "run e from pt data c =
      (case out of Some out \<Rightarrow> (out, c1) | None \<Rightarrow>
        if h_mode q = request_code GETSERVERINFO then (Ret True, send c1 from pt (seal cr k netQuery (server_info c1 q)))
        else run_login e from pt cr k q c1)"
      by (simp add: run r)
    then show ?thesis
      using r parent info login by (cases out) (simp_all split: if_splits)
  qed
qed




text \<open>The server answers requests and follows local commands, one after the other.\<close>

inductive server_reach :: "conn \<Rightarrow> conn \<Rightarrow> bool" where
  reach_start: "server_reach c c"
| reach_request: "server_reach c c1 \<Longrightarrow> run e from pt data c1 = (Ret b, c2) \<Longrightarrow> server_reach c c2"
| reach_change: "server_reach c c1 \<Longrightarrow> changeParentServer t c1 a p = (Ret b, c2) \<Longrightarrow> server_reach c c2"
| reach_back: "server_reach c c1 \<Longrightarrow> goLast c1 = (Ret b, c2) \<Longrightarrow> server_reach c c2"






section \<open>The lock\<close>

lemma run_parent_locked: "iplocked c \<Longrightarrow> iplocked (snd (run_parent e from pt data c))"
  using p2pconnect_same(2) [of c "now e" "q_addr data" "port_of_num (q_num1 data)"]
  by (simp add: run_parent_def goLast_def same_parent_def)

lemma run_locked: "iplocked c \<Longrightarrow> iplocked (snd (run e from pt data c))"
proof (cases rule: run_cases [of e "from" pt data c])
  case (parent out c1 q)
  then show "iplocked c \<Longrightarrow> ?thesis"
    using run_parent_locked [of "c\<lparr>num := num c + 1\<rparr>" e "from" pt q] by simp
next
  case (info c1 q p)
  then show "iplocked c \<Longrightarrow> ?thesis"
    using run_parent_locked [of "c\<lparr>num := num c + 1\<rparr>" e "from" pt q] by simp
next
  case (login cr k q c1)
  then show "iplocked c \<Longrightarrow> ?thesis"
    using run_parent_locked [of "c\<lparr>num := num c + 1\<rparr>" e "from" pt q] run_login_steps [of c1]
    by (simp add: same_parent_def)
qed simp_all

lemma reach_locked: "server_reach c c' \<Longrightarrow> iplocked c \<Longrightarrow> iplocked c'"
proof (induction rule: server_reach.induct)
  case (reach_request c c1 e "from" pt data b c2)
  then show ?case using run_locked [of c1 e "from" pt data] by simp
qed (simp_all add: changeParentServer_def goLast_def)

section \<open>Properties\<close>


text \<open>A parent that could not be reached blocks the server's parent for ever: after \<open>changeParentServer\<close>
  has failed, in every later state each further change and each way back waits for the lock.\<close>

theorem failed_change_locks_parent:
  assumes "changeParentServer t c a p = (Ret False, c1)" "server_reach c1 c2"
  shows "goLast c2 = (Hang, c2) \<and> changeParentServer t' c2 a' p' = (Hang, c2)"
proof -
  obtain b c' where p: "p2pconnect t (c\<lparr>iplocked := True\<rparr>) a p = (b, c')" by fastforce
  have "iplocked c1"
    using assms(1) p p2pconnect_same(2) [of "c\<lparr>iplocked := True\<rparr>" t a p]
    by (cases b) (auto simp: changeParentServer_def Let_def same_parent_def split: if_splits)
  from reach_locked [OF assms(2) this] show ?thesis
    by (simp add: goLast_def changeParentServer_def)
qed

text \<open>A change of the parent that succeeds is undone by \<open>goLast\<close>, for any number of changes: the parents
  form a stack.\<close>

theorem goLast_undoes_change:
  assumes "changeParentServer t c a p = (Ret True, c1)"
  shows "parIP c1 = a \<and> parPort c1 = p \<and>
    (\<exists>c2. goLast c1 = (Ret True, c2) \<and> parIP c2 = parIP c \<and> parPort c2 = parPort c \<and> ipstack c2 = ipstack c \<and>
      \<not> iplocked c2 \<and> db c2 = db c \<and> files c2 = files c)"
proof -
  obtain b c' where p: "p2pconnect t (c\<lparr>iplocked := True\<rparr>) a p = (b, c')" by fastforce
  then have s: "same_parent (c\<lparr>iplocked := True\<rparr>) c'" "same_core (c\<lparr>iplocked := True\<rparr>) c'"
    using p2pconnect_same [of "c\<lparr>iplocked := True\<rparr>" t a p] by simp_all
  have "c1 = (push_parent c' a p)\<lparr>iplocked := False\<rparr>"
    using assms p by (cases b) (auto simp: changeParentServer_def Let_def split: if_splits)
  then show ?thesis
    using s by (simp add: goLast_def push_parent_def Let_def same_parent_def same_core_def)
qed

text \<open>The requests that are answered before the login.\<close>

definition needs_no_login :: "bytes \<Rightarrow> bool" where
  "needs_no_login q \<longleftrightarrow> h_mode q \<in> {request_code GET_PUBLIC_KEY, request_code REGISTER, request_code GETSERVERINFO}"

lemma decrypt_request_num: "decrypt_request e (c\<lparr>num := n\<rparr>) data = decrypt_request e c data"
  by (simp add: decrypt_request_def)

lemma run_ordinary:
  assumes "decrypt_request e c data = (cr, k, q)" "\<not> needs_no_login q" "(from, pt) \<noteq> (parIP c, parPort c)"
  shows "run e from pt data c = run_login e from pt cr k q (c\<lparr>num := num c + 1\<rparr>)"
proof -
  have "run_parent e from pt q (c\<lparr>num := num c + 1\<rparr>) = (None, c\<lparr>num := num c + 1\<rparr>)"
    using assms(3) by (auto simp: run_parent_def)
  then show ?thesis
    using assms(2) by (simp add: run_def Let_def decrypt_request_num assms(1) needs_no_login_def)
qed

lemma refused_request:
  assumes "decrypt_request e c data = (cr, k, q)" "\<not> needs_no_login q" "(from, pt) \<noteq> (parIP c, parPort c)"
    and "\<not> fst (login (db c) (now e) (h_userid q) (h_password q))"
  shows "run e from pt data c = (Ret False, fail (c\<lparr>num := num c + 1\<rparr>) from pt)"
proof -
  let ?c = "c\<lparr>num := num c + 1\<rparr>"
  obtain ui d where l: "login (db ?c) (now e) (h_userid q) (h_password q) = (False, ui, d)"
    using assms(4) by (cases "login (db c) (now e) (h_userid q) (h_password q)") auto
  have "d = db c"
    using login_accepts(2) [of "db c" "now e" "h_userid q" "h_password q"] l by simp
  moreover obtain fresh d' where "logunique d (now e) (h_userid q) (h_unique q) = (fresh, d')"
    by fastforce
  from run_login_cases [OF l this] have "run_login e from pt cr k q ?c = (Ret False, fail (?c\<lparr>db := d\<rparr>) from pt)"
    by simp
  ultimately show ?thesis
    using run_ordinary [OF assms(1-3)] by simp
qed

text \<open>C1. A request with a wrong user or password has no effect: apart from the three requests that need no
  login and from the parent, the answer is a failure, and database, files and parent stay as they are.\<close>

theorem unauthenticated_request_refused:
  assumes "decrypt_request e c data = (cr, k, q)" "\<not> needs_no_login q" "(from, pt) \<noteq> (parIP c, parPort c)"
    and "\<not> fst (login (db c) (now e) (h_userid q) (h_password q))"
  shows "run e from pt data c = (Ret False, fail (c\<lparr>num := num c + 1\<rparr>) from pt)"
  using assms by (rule refused_request)



lemma sign_header_fields:
  assumes "length p = 124" "16 \<le> length (mypassword c)"
  shows "h_userid (sign_header c p) = myuserid c" "h_password (sign_header c p) = take 16 (mypassword c)"
    "length (sign_header c p) = 124"
proof -
  let ?q = "set_field 4 (nint32_set (myuserid c)) p"
  have q: "length ?q = 124" "field 4 4 ?q = nint32_set (myuserid c)"
    using assms(1) by (simp_all add: field_set_same)
  show "h_userid (sign_header c p) = myuserid c"
    using q by (simp add: h_userid_def sign_header_def field_set_before header_password_def)
  show "h_password (sign_header c p) = take 16 (mypassword c)"
    using q assms(2) by (simp add: h_password_def sign_header_def field_set_same header_password_def)
  show "length (sign_header c p) = 124"
    using q assms(2) by (simp add: sign_header_def header_password_def)
qed

lemma field_upd_before: "off + n \<le> i \<Longrightarrow> field off n (p[i := v]) = field off n p"
  by (simp add: field_def drop_update_swap take_update_swap list_update_beyond)

lemma status_packet_fields:
  assumes "16 \<le> length (mypassword c)"
  shows "h_userid (status_packet c m) = myuserid c" "h_password (status_packet c m) = take 16 (mypassword c)"
    "h_mode (status_packet c m) = request_code m" "length (status_packet c m) = 124"
  using sign_header_fields [of zero_query c] assms
  by (simp_all add: status_packet_def set_mode_def h_userid_def h_password_def h_mode_def field_upd_before
      header_password_def zero_query_def netQuery_def)

lemma copy_unique_fields:
  assumes "length p = 124" "12 \<le> length data"
  shows "h_userid (copy_unique data p) = h_userid p" "h_password (copy_unique data p) = h_password p"
    "h_unique (copy_unique data p) = h_unique data"
proof -
  have l: "length (field 8 4 data) = 4" using assms(2) by (simp add: field_def)
  show "h_userid (copy_unique data p) = h_userid p"
    using assms(1) by (simp add: h_userid_def copy_unique_def header_unique_def field_set_before)
  have "drop 20 (set_field 8 (field 8 4 data) p) = drop 20 p"
    using assms(1) l by (intro drop_set_after) simp_all
  then show "h_password (copy_unique data p) = h_password p"
    by (simp add: h_password_def copy_unique_def header_unique_def header_password_def field_def)
  show "h_unique (copy_unique data p) = h_unique data"
    using assms(1) l by (simp add: h_unique_def copy_unique_def header_unique_def field_set_same)
qed

text \<open>The server tells its own password to everyone: a packet from any address that asks for the server
  information, and equally one that fails to log in, is answered with the user and the password the
  server has at its parent.\<close>

theorem server_password_disclosed:
  assumes "data ! 0 \<noteq> 116" "12 \<le> length data" "(from, pt) \<noteq> (parIP c, parPort c)" "16 \<le> length (mypassword c)"
    and "h_mode data = request_code GETSERVERINFO \<or>
      (\<not> needs_no_login data \<and> \<not> fst (login (db c) (now e) (h_userid data) (h_password data)))"
  shows "\<exists>b c1 bs. run e from pt data c = (Ret b, c1) \<and> sent c1 = sent c @ [(Location from pt, bs)] \<and>
    h_userid bs = myuserid c \<and> h_password bs = take 16 (mypassword c)"
proof -
  let ?c = "c\<lparr>num := num c + 1\<rparr>"
  have plain: "decrypt_request e c data = (False, junk_key e, data)" for c
    using assms(1) by (simp add: decrypt_request_def)
  show ?thesis
  proof (cases "h_mode data = request_code GETSERVERINFO")
    case True
    have p: "run_parent e from pt data ?c = (None, ?c)"
      using assms(3) by (auto simp: run_parent_def)
    have "run e from pt data c = (Ret True, send ?c from pt (copy_unique data (status_packet ?c LOGIN)))"
      using True by (simp add: run_def Let_def plain p seal_def server_info_def status_packet_def)
    then show ?thesis
      using copy_unique_fields [OF _ assms(2)] status_packet_fields [of ?c LOGIN] assms(4)
      by (intro exI [of _ True]) simp
  next
    case False
    then have "\<not> needs_no_login data" "\<not> fst (login (db c) (now e) (h_userid data) (h_password data))"
      using assms(5) by auto
    then have "run e from pt data c = (Ret False, fail ?c from pt)"
      using refused_request [OF plain] assms(3) by blast
    then show ?thesis
      using status_packet_fields [of ?c FAIL] assms(4) by (intro exI [of _ False]) (simp add: fail_def)
  qed
qed

lemma field_set_other: "off + length v \<le> off' \<Longrightarrow> off \<le> length p \<Longrightarrow> field off' n (set_field off v p) = field off' n p"
  by (simp add: field_def drop_set_after)

text \<open>Every accepted upload goes into the same file: whatever resource the request names, its data are
  appended to the file with the name of the template, and to no other.\<close>

theorem append_ignores_resource:
  assumes "run_SETSRC_APPEND e r c = (Ret True, c')"
  shows "disk (files c') = (disk (files c))(filename_template \<mapsto>
      (case disk (files c) filename_template of None \<Rightarrow> [] | Some old \<Rightarrow> old) @ take (unat (s_size (packet r))) (s_source (packet r))) \<and>
    db c' = db c"
proof -
  have "append_and_succeed e r c = (Ret True, c')"
    using assms by (auto simp: run_SETSRC_APPEND_def answer_fail_def Let_def split: if_splits option.splits)
  then show ?thesis
    by (auto simp: append_and_succeed_def fileappend_def removefilefrombuffer_def answer_ok_def Let_def split: if_splits)
qed

text \<open>In global mode an upload is accepted from an account without the right to write, although such an
  account may neither create nor delete a global resource.\<close>

lemma global_append_needs_no_right:
  assumes "h_globalMode (packet r) = 116" "16 < length (userinfo r)" "\<not> has_right (userinfo r) 16"
    and "0 \<le> sint (s_size (packet r))" "sint (s_size (packet r)) \<le> 4096" "writable e filename_template"
  shows "fst (run_SETSRC_APPEND e r c) = Ret True"
  using assms
  by (simp add: run_SETSRC_APPEND_def has_right_def append_and_succeed_def fileappend_def Let_def SOURCE_CHUNK_SIZE_def)


lemma length_zero_source: "length zero_source = 4188"
  by (simp add: zero_source_def netSource_def SOURCE_CHUNK_SIZE_def)

lemma length_wristr [simp]: "length (wristr a b) = length b"
proof -
  have "length (wristr_loop n i a b) = length b" for n i
    by (induction n arbitrary: i b) simp_all
  then show ?thesis by (simp add: wristr_def)
qed

lemma getsrc_packet_fields:
  assumes "length bs \<le> 4096" "16 \<le> length (mypassword c)" "length data = 4188"
  shows "h_mode (getsrc_packet c data n bs) = request_code SETSRC_APPEND"
    "h_unique (getsrc_packet c data n bs) = h_unique data" "s_size (getsrc_packet c data n bs) = n"
    "take (length bs) (s_source (getsrc_packet c data n bs)) = bs"
proof -
  define p1 where "p1 = set_field 56 (nint32_set n) (set_field 76 bs zero_source)"
  define q where "q = copy_unique data (sign_header c p1)"
  define p2 where "p2 = set_mode SETSRC_APPEND q"
  have p3: "getsrc_packet c data n bs = set_field 60 (wristr (q_str1 data) (field 60 16 p2)) p2"
    by (simp add: getsrc_packet_def Let_def p1_def p2_def q_def)
  have l1: "length p1 = 4188" "field 56 4 p1 = nint32_set n" "drop 76 p1 = bs @ drop (76 + length bs) zero_source"
    using assms(1) length_zero_source by (simp_all add: p1_def field_set_same drop_set_after) (simp add: set_field_def)
  have uq: "length (field 8 4 data) = 4" using assms(3) by (simp add: field_def)
  have "length (sign_header c p1) = 4188" "drop 37 (sign_header c p1) = drop 37 p1"
    using l1(1) assms(2) by (simp_all add: sign_header_def header_password_def drop_set_after)
  then have q: "length q = 4188" "drop 37 q = drop 37 p1" "h_unique q = h_unique data"
    using uq by (simp_all add: q_def copy_unique_def header_unique_def drop_set_after h_unique_def field_set_same)
  then have l2: "length p2 = 4188" "h_mode p2 = request_code SETSRC_APPEND" "h_unique p2 = h_unique data" "drop 37 p2 = drop 37 p1"
    by (simp_all add: p2_def set_mode_def h_mode_def h_unique_def header_unique_def field_upd_before)
  have w16: "length (wristr (q_str1 data) (field 60 16 p2)) = 16"
    using l2(1) by (simp add: field_def)
  show "h_mode (getsrc_packet c data n bs) = request_code SETSRC_APPEND"
    using l2 by (simp add: p3 h_mode_def set_field_def nth_append)
  show "h_unique (getsrc_packet c data n bs) = h_unique data"
    using l2 by (simp add: p3 h_unique_def header_unique_def field_set_before)
  have "field 56 4 p2 = nint32_set n"
    using l1(2) arg_cong [OF l2(4), of "\<lambda>x. take 4 (drop 19 x)"] by (simp add: field_def)
  then show "s_size (getsrc_packet c data n bs) = n"
    using l2(1) by (simp add: p3 s_size_def field_set_before)
  have "drop 76 (getsrc_packet c data n bs) = bs @ drop (76 + length bs) zero_source"
    using l1(3) l2(1) w16 arg_cong [OF l2(4), of "drop 39"] by (simp add: p3 drop_set_after)
  then show "take (length bs) (s_source (getsrc_packet c data n bs)) = bs"
    using assms(1) by (simp add: s_source_def field_def SOURCE_CHUNK_SIZE_def min_def)
qed

lemma readfile_chunk:
  assumes "cache_reach (cache s)" "disk s path = Some content" "unat n < 2 ^ 19"
  shows "readfile junk s path (word_of_nat SOURCE_CHUNK_SIZE * n) (word_of_nat SOURCE_CHUNK_SIZE) =
    (let chunk = take 4096 (drop (4096 * unat n) content) in Some (word_of_nat (length chunk), chunk))"
proof -
  have start: "word_of_nat SOURCE_CHUNK_SIZE * n = word_of_nat (4096 * unat n)"
    by (simp add: SOURCE_CHUNK_SIZE_def)
  have n: "4096 * unat n < 2 ^ 31" using assms(3) by simp
  have u: "unat (word_of_nat (4096 * unat n) :: u32) = 4096 * unat n" "0 \<le> sint (word_of_nat (4096 * unat n) :: u32)"
    using n by (simp_all add: unat_of_nat signed_of_nat signed_take_bit_int_eq_self del: of_nat_mult)
  show ?thesis
    unfolding start using assms(2) u getcache_no_data [OF cache_reach_no_data [OF assms(1)]]
    by (simp add: readfile_def getfile_def Let_def SOURCE_CHUNK_SIZE_def del: of_nat_mult)
qed

text \<open>C39. A download request is answered with exactly the chunk it asks for: the packet carries the session
  number of the request, the length of the chunk and its bytes.\<close>

theorem getsrc_sends_chunk:
  assumes "find_src e r c = Some result" "disk (files c) (cstr result) = Some content"
    and "cache_reach (cache (files c))" "unat (q_num1 (packet r)) < 2 ^ 19" "\<not> crypt r"
    and "16 \<le> length (mypassword c)" "length (packet r) = 4188"
    and "chunk = take 4096 (drop (4096 * unat (q_num1 (packet r))) content)"
  shows "\<exists>bs. run_GETSRC e r c = (Ret True, send c (from_ip r) (from_port r) bs) \<and>
    h_mode bs = request_code SETSRC_APPEND \<and> h_unique bs = h_unique (packet r) \<and>
    unat (s_size bs) = length chunk \<and> take (length chunk) (s_source bs) = chunk"
proof -
  have "length chunk \<le> 4096" using assms(8) by simp
  note fields = getsrc_packet_fields [OF this assms(6,7), of "word_of_nat (length chunk)"]
  have "run_GETSRC e r c = (Ret True, send c (from_ip r) (from_port r) (getsrc_packet c (packet r) (word_of_nat (length chunk)) chunk))"
    using assms(1,5,8) readfile_chunk [OF assms(3,2,4)] by (simp add: run_GETSRC_def seal_def Let_def)
  then show ?thesis
    using fields \<open>length chunk \<le> 4096\<close>
    by (intro exI [of _ "getsrc_packet c (packet r) (word_of_nat (length chunk)) chunk"]) (simp add: unat_of_nat)
qed

section \<open>A sample server\<close>

text \<open>A server with the parent 1:2 and the account 7; the packets are queries of this user with the session
  number 9.\<close>

definition sample_env :: env where
  "sample_env = \<lparr>now = 5, writable = (\<lambda>_. True), AllowShell = True, send_ok = True, signers = [],
    ecdsa_sign = (\<lambda>_. ([], 0)), dh_compute = (\<lambda>_. None), fresh_pubkey = [], fresh_compute = (\<lambda>_. None),
    script = (\<lambda>_. Finish \<lparr>NUM1 = None, NUM2 = None, NUM3 = None, NUM4 = None, STR1 = None, STR2 = None\<rparr>),
    junk_respk = [], junk_key = [], junk_base64 = [], junk_secret = [], junk_time = None, junk_name = [],
    junk_rl = 0, respk_address = []\<rparr>"

definition sample_conn :: "ysdb \<Rightarrow> conn" where
  "sample_conn d = \<lparr>db = d, files = \<lparr>cache = [], disk = [lit ''f'' \<mapsto> [1, 2, 3]]\<rparr>, myuserid = 3,
    mypassword = lit ''secret password!'' @ [0], parIP = 1, parPort = 2, ipstack = [], iplocked = False, num = 0,
    pubkey = [], sent = [], inbox = [], shell = []\<rparr>"

definition sample_packet :: "request \<Rightarrow> bytes" where
  "sample_packet m = [102, 0, 0, 0, 0, 0, 0, 7, 9, 0, 0, 0, 0, 0, 0, 0, 0, 0, 0, 0] @ lit ''1234567890abcdef'' @
    [request_code m, 116, 0, 0, 0, 0, 0, 0, 0, 0, 0, 0, 0, 0, 0, 0, 0, 0, 0, 0] @ lit ''resource-number1'' @ replicate 4116 0"

lemma sample_packet_fields [simp]:
  "sample_packet m ! 0 = 102" "h_userid (sample_packet m) = 7" "h_unique (sample_packet m) = 9"
  "h_password (sample_packet m) = lit ''1234567890abcdef''" "h_mode (sample_packet m) = request_code m"
  "h_globalMode (sample_packet m) = 116" "q_str1 (sample_packet m) = lit ''resource-number1''" "length (sample_packet m) = 4188"
  by (simp_all add: sample_packet_def h_userid_def h_unique_def h_password_def h_mode_def h_globalMode_def q_str1_def
      field_def header_unique_def header_password_def le32_def nint32_val_def ntohl_bytes_def lit_def)

lemma sample_num1: "q_num1 (sample_packet m) = 0"
proof -
  have n: "replicate 4116 (0 :: u8) = replicate 20 0 @ replicate 4 0 @ replicate 4092 0"
    by (simp flip: replicate_add)
  have "field 92 4 (sample_packet m) = replicate 4 0"
    unfolding sample_packet_def n by (simp add: field_def lit_def)
  then show ?thesis by (simp add: q_num1_def nint32_val_def ntohl_bytes_def)
qed

lemma sample_conn_fields [simp]:
  "db (sample_conn d) = d" "parIP (sample_conn d) = 1" "parPort (sample_conn d) = 2" "shell (sample_conn d) = []"
  "mypassword (sample_conn d) = lit ''secret password!'' @ [0]" "iplocked (sample_conn d) = False"
  "inbox (sample_conn d) = []" "files (sample_conn d) = \<lparr>cache = [], disk = [lit ''f'' \<mapsto> [1, 2, 3]]\<rparr>"
  by (simp_all add: sample_conn_def)

lemma sample_decrypt: "decrypt_request e c (sample_packet m) = (False, junk_key e, sample_packet m)"
  by (simp add: decrypt_request_def)



theorem failed_change_locks_parent_witness:
  "\<exists>c1. changeParentServer 0 (sample_conn ysdb_empty) 5 6 = (Ret False, c1) \<and> goLast c1 = (Hang, c1)"
proof -
  obtain c1 where "changeParentServer 0 (sample_conn ysdb_empty) 5 6 = (Ret False, c1)"
    by (simp add: changeParentServer_def p2pconnect_def Let_def)
  with failed_change_locks_parent [OF this reach_start] show ?thesis by blast
qed

theorem goLast_undoes_change_witness:
  "\<exists>c1 c2. changeParentServer 0 ((sample_conn ysdb_empty)\<lparr>inbox := [(3, None), (4, Some (5, 6, []))]\<rparr>) 5 6 = (Ret True, c1) \<and>
    parIP c1 = 5 \<and> goLast c1 = (Ret True, c2) \<and> parIP c2 = 1"
proof -
  obtain c1 where "changeParentServer 0 ((sample_conn ysdb_empty)\<lparr>inbox := [(3, None), (4, Some (5, 6, []))]\<rparr>) 5 6 = (Ret True, c1)"
    by (simp add: changeParentServer_def p2pconnect_def Let_def cabs_def)
  with goLast_undoes_change [OF this] show ?thesis by auto
qed

theorem unauthenticated_request_refused_witness:
  "run sample_env 8 9 (sample_packet NEWUSER) (sample_conn ysdb_empty) =
    (Ret False, fail ((sample_conn ysdb_empty)\<lparr>num := num (sample_conn ysdb_empty) + 1\<rparr>) 8 9)"
  by (rule unauthenticated_request_refused [OF sample_decrypt])
    (simp_all add: needs_no_login_def login_def Let_def ysdb_empty_def Get_def)


theorem server_password_disclosed_witness:
  "\<exists>b c1 bs. run sample_env 8 9 (sample_packet GETSERVERINFO) (sample_conn ysdb_empty) = (Ret b, c1) \<and>
    sent c1 = sent (sample_conn ysdb_empty) @ [(Location 8 9, bs)] \<and> h_password bs = lit ''secret password!''"
  using server_password_disclosed [of "sample_packet GETSERVERINFO" 8 9 "sample_conn ysdb_empty" sample_env]
  by (auto simp: lit_def)

definition sample_ctx :: "request \<Rightarrow> ctx" where
  "sample_ctx m = \<lparr>from_ip = 8, from_port = 9, packet = sample_packet m, userinfo = cstr defaultUserInfo, crypt = False, ckey = []\<rparr>"

definition sample_db :: ysdb where
  "sample_db = ysdb_empty\<lparr>ldata := [src_key (take 8 (lit ''resource-number1'') @ [0]) \<mapsto> lit ''f'']\<rparr>"

lemma sample_find_src: "find_src sample_env (sample_ctx m) (sample_conn sample_db) = Some (lit ''f'')"
proof -
  have "strlencheck (lit ''resource-number1'') 16"
    by (simp add: strlencheck_def lit_def cbyte_def upt_16)
  then show ?thesis
    by (simp add: find_src_def sample_ctx_def sample_db_def readSrc_def getSrcName_def Get_def)
qed

theorem getsrc_sends_chunk_witness:
  "\<exists>bs. run_GETSRC sample_env (sample_ctx GETSRC) (sample_conn sample_db) = (Ret True, send (sample_conn sample_db) 8 9 bs) \<and>
    unat (s_size bs) = 3 \<and> take 3 (s_source bs) = [1, 2, 3]"
proof -
  have "disk (files (sample_conn sample_db)) (cstr (lit ''f'')) = Some [1, 2, 3]"
    by (simp add: cstr_def lit_def)
  from getsrc_sends_chunk [OF sample_find_src this, of GETSRC "[1, 2, 3]"] show ?thesis
    by (auto simp: cache_start sample_ctx_def sample_num1 lit_def numeral_3_eq_3)
qed

definition sample_append :: ctx where
  "sample_append = (sample_ctx SETSRC_APPEND)\<lparr>packet := set_field 56 [0, 0, 0, 3] (sample_packet SETSRC_APPEND)\<rparr>"

lemma sample_append_fields:
  "h_globalMode (packet sample_append) = 116" "s_size (packet sample_append) = 3" "userinfo sample_append = cstr defaultUserInfo"
  by (simp_all add: sample_append_def sample_ctx_def s_size_def field_set_same nint32_val_def ntohl_bytes_def)
    (simp add: h_globalMode_def set_field_def nth_append sample_packet_fields(6) [unfolded h_globalMode_def])

theorem append_ignores_resource_witness:
  "\<exists>c'. run_SETSRC_APPEND sample_env sample_append (sample_conn sample_db) = (Ret True, c') \<and>
    disk (files c') filename_template = Some (take 3 (s_source (packet sample_append))) \<and>
    disk (files c') (lit ''f'') = Some [1, 2, 3]"
proof -
  have "fst (run_SETSRC_APPEND sample_env sample_append (sample_conn sample_db)) = Ret True"
    by (rule global_append_needs_no_right)
      (simp_all add: sample_append_fields default_info_short default_rights sample_env_def)
  then obtain c' where r: "run_SETSRC_APPEND sample_env sample_append (sample_conn sample_db) = (Ret True, c')"
    by (metis prod.collapse)
  have "filename_template \<noteq> lit ''f''" by (simp add: filename_template_def lit_def)
  with append_ignores_resource [OF r] r show ?thesis
    by (simp add: sample_append_fields)
qed

end
