(* ===== verification/Client.thy ===== *)
theory Client
  imports Connection
begin

text \<open>
  The side of the protocol that asks: the methods \<open>getPbk\<close>, \<open>updatekey\<close>, \<open>connectToUser\<close> and \<open>login\<close> of
  \<^verbatim>\<open>core/ysconnection.hpp\<close> and the class \<open>Client\<close> of \<^verbatim>\<open>core/client.hpp\<close>.

  All requests have one shape: build a packet with a random session number, encrypt it in place when a key is
  known, and send it up to ten times, each time waiting for packets until one comes from the parent.
  \<open>ask\<close> is this loop; the events of the network come from the list \<open>inbox\<close> of the connection, which makes
  the loop end.  A function that falls off its end without a result gives \<open>None\<close>.
\<close>

unbundle bit_operations_syntax

section \<open>State\<close>

record client =
  base :: conn
  globalmode :: u8
  iscrypt :: bool
  key :: bytes
  parpbk :: bytes
  parhash :: bytes
  seed :: u32
  uniKey :: bytes

text \<open>What the client reads from outside: \<open>rand\<close> after \<open>srand\<close>, MD5, a fresh key pair, the signers, whether
  signatures are checked, uninitialised packets, and the environment of the connection.\<close>

record client_env =
  cenv :: env
  rnd :: "u32 \<Rightarrow> nat"
  md5 :: "bytes \<Rightarrow> bytes"
  checkSign :: bool
  autoboardcast :: bool
  nodemode :: bool
  junk_query :: bytes
  junk_source :: bytes

definition next_randnum :: "client_env \<Rightarrow> client \<Rightarrow> u32 \<times> client" where
  "next_randnum e s = (case randnum (rnd e) (seed s) of (r, st) \<Rightarrow> (word_of_nat r, s\<lparr>seed := st\<rparr>))"

section \<open>The request loop\<close>

lemma recv_within_time_less: "recv_within_time n es = (Some pk, es') \<Longrightarrow> length es' < length es"
  by (induction n es rule: recv_within_time.induct) auto

lemma recv_within_time_le: "recv_within_time n es = (r, es') \<Longrightarrow> length es' \<le> length es"
  by (induction n es rule: recv_within_time.induct) auto

text \<open>The wait after one transmission: packets of others are dropped, a packet of the parent is decrypted by
  \<open>onb\<close>, and the session number is compared with that of the packet sent, which \<open>onq\<close> may have changed.\<close>

function await :: "(bytes \<Rightarrow> bytes) \<Rightarrow> (bytes \<Rightarrow> bytes) \<Rightarrow> u32 \<Rightarrow> bytes \<Rightarrow> bytes \<Rightarrow> conn \<Rightarrow> bool \<times> bytes \<times> bytes \<times> conn" where
  "await onq onb rdn qypk buf c =
    (case recv_within_time 100 (inbox c) of
      (None, es) \<Rightarrow> (False, qypk, buf, c\<lparr>inbox := es\<rparr>)
    | (Some (a, p, bs), es) \<Rightarrow>
        (let c = c\<lparr>inbox := es\<rparr>; buf = recv_into buf bs
         in if a = parIP c \<and> p = parPort c
            then
              (let qypk = onq qypk; buf = onb buf
               in if rdn \<noteq> h_unique qypk then await onq onb rdn qypk buf c else (True, qypk, buf, c))
            else await onq onb rdn qypk buf c))"
  by pat_completeness auto
termination
  by (relation "measure (\<lambda>(onq, onb, rdn, qypk, buf, c). length (inbox c))") (auto dest: recv_within_time_less [OF sym])

declare await.simps [simp del]

text \<open>\<open>for(i=0;i<10;i++)\<close>: the answer, when there is one, is the buffer.\<close>

primrec ask :: "(bytes \<Rightarrow> bytes) \<Rightarrow> (bytes \<Rightarrow> bytes) \<Rightarrow> u32 \<Rightarrow> nat \<Rightarrow> bytes \<Rightarrow> bytes \<Rightarrow> conn \<Rightarrow> bytes option \<times> conn" where
  "ask onq onb rdn 0 qypk buf c = (None, c)"
| "ask onq onb rdn (Suc n) qypk buf c =
    (case await onq onb rdn qypk buf (send c (parIP c) (parPort c) qypk) of
      (True, qypk, buf, c) \<Rightarrow> (Some buf, c)
    | (False, qypk, buf, c) \<Rightarrow> ask onq onb rdn n qypk buf c)"

text \<open>The usual case: the packet is encrypted when \<open>iscrypt\<close> is set, and what comes back is decrypted.\<close>

definition request :: "layout \<Rightarrow> layout \<Rightarrow> u32 \<Rightarrow> bytes \<Rightarrow> bytes \<Rightarrow> client \<Rightarrow> bytes option \<times> client" where
  "request lay lay' rdn qypk buf s =
    (case ask (\<lambda>q. q) (crypt_decode (aes_decrypt_block (key s)) lay') rdn 10 (seal (iscrypt s) (key s) lay qypk) buf (base s) of
      (r, c) \<Rightarrow> (r, s\<lparr>base := c\<rparr>))"

text \<open>The header of a request, on a packet of zeros.\<close>

definition set_unique :: "u32 \<Rightarrow> bytes \<Rightarrow> bytes" where
  "set_unique rdn p = set_field header_unique (le32_bytes rdn) p"

definition set_password :: "client \<Rightarrow> bytes \<Rightarrow> bytes" where
  "set_password s p = set_field header_password (wristr (mypassword (base s)) (field header_password 16 p)) p"

definition request_header :: "request \<Rightarrow> client \<Rightarrow> u32 \<Rightarrow> bytes \<Rightarrow> bytes" where
  "request_header m s rdn p =
    set_field 4 (nint32_set (myuserid (base s))) (set_unique rdn (set_password s (set_mode m p)))"

definition set_globalMode :: "u8 \<Rightarrow> bytes \<Rightarrow> bytes" where
  "set_globalMode g p = p[37 := g]"

text \<open>A reply counts as success when its mode is \<open>_SUCCEED\<close>.\<close>

definition reply_mode :: "request \<Rightarrow> bytes \<Rightarrow> bool" where
  "reply_mode m buf \<longleftrightarrow> h_mode buf = request_code m"

section \<open>Keys\<close>

definition getPbk :: "client_env \<Rightarrow> client \<Rightarrow> bool \<times> client" where
  "getPbk e s =
    (case next_randnum e s of (rdn, s) \<Rightarrow>
      (let qypk = set_unique rdn (set_field 4 (nint32_set (myuserid (base s))) (set_mode GET_PUBLIC_KEY zero_source))
       in case request netSource netSource rdn qypk (junk_source e) s of
         (None, s) \<Rightarrow> (False, s)
       | (Some buf, s) \<Rightarrow>
           if reply_mode GET_PUBLIC_KEY buf
           then (let pbk = field 76 33 buf in (True, s\<lparr>parpbk := pbk @ [0], parhash := md5 e (cstr pbk)\<rparr>))
           else (False, s)))"

definition safe_key :: "client \<Rightarrow> bytes" where
  "safe_key s = lit ''safe_key_'' @ parhash s"

text \<open>The reply is used as it is: its mode is not looked at.  \<open>checksign\<close> checks the signature in the request,
  which was never signed, and not the one in the reply.\<close>

definition updatekey :: "client_env \<Rightarrow> client \<Rightarrow> bool \<times> client" where
  "updatekey e s =
    (case getPbk e s of
      (False, s) \<Rightarrow> (False, s)
    | (True, s) \<Rightarrow>
      (case next_randnum e s of (rdn, s) \<Rightarrow>
        (let qypk = set_field 1104 (take 33 (fresh_pubkey (cenv e))) zero_source;
             qypk = set_field 56 (nint32_set 1064) (request_header UPDATEKEY s rdn qypk);
             sealed = seal (iscrypt s) (key s) netSource qypk
         in case request netSource netSource rdn qypk zero_source s of
           (None, s) \<Rightarrow> (False, s)
         | (Some buf, s) \<Rightarrow>
             if checkSign e \<and> (1024 < nint32_val (field 76 4 sealed) \<or>
                 \<not> signer_check (signers (cenv e)) (field 1104 33 sealed) 33 (field 80 1024 sealed) (nint32_val (field 76 4 sealed)))
             then (False, s)
             else
               (let shared = (case fresh_compute (cenv e) (field 76 33 buf) of None \<Rightarrow> junk_secret (cenv e) | Some x \<Rightarrow> x);
                    k = take 16 shared; d = db (base s)
                in (True, s\<lparr>key := k,
                      base := (base s)\<lparr>db := d\<lparr>ldata := Put (ldata d) (safe_key s) (cstr (tobase64 k))\<rparr>\<rparr>\<rparr>)))))"

section \<open>Login\<close>

text \<open>In both loops of \<open>login\<close> it is the packet sent that is decrypted, and not the reply.\<close>

definition login_request :: "u32 \<Rightarrow> bytes \<Rightarrow> client \<Rightarrow> bytes option \<times> client" where
  "login_request rdn qypk s =
    (case ask (crypt_decode (aes_decrypt_block (key s)) netQuery) (\<lambda>b. b) rdn 10 (seal (iscrypt s) (key s) netQuery qypk)
        zero_source (base s) of
      (r, c) \<Rightarrow> (r, s\<lparr>base := c\<rparr>))"

definition load_key :: "client_env \<Rightarrow> client \<Rightarrow> client" where
  "load_key e s =
    (case Get (ldata (db (base s))) (safe_key s) of
      None \<Rightarrow> s
    | Some dbv \<Rightarrow>
        if dbv = [] then s
        else s\<lparr>key := getbase64 (junk_base64 (cenv e)) (key s) (cstr dbv), iscrypt := True\<rparr>)"

definition new_tmp_password :: "client_env \<Rightarrow> client \<Rightarrow> client" where
  "new_tmp_password e s =
    (case randstr (rnd e) (seed s) of
      (r, st) \<Rightarrow> s\<lparr>seed := st, base := (base s)\<lparr>mypassword := wristr r (mypassword (base s))\<rparr>\<rparr>)"

definition client_login :: "client_env \<Rightarrow> client \<Rightarrow> outcome \<times> client" where
  "client_login e s =
    (case getPbk e s of
      (False, s) \<Rightarrow> (Ret False, s)
    | (True, s) \<Rightarrow>
      (let s = load_key e s;
           qypk = set_field 4 (nint32_set (myuserid (base s))) (set_password s (set_mode LOGIN zero_query));
           s = new_tmp_password e s;
           qypk = set_field 56 (wristr (mypassword (base s)) (field 56 16 qypk)) qypk
       in case next_randnum e s of (rdn, s) \<Rightarrow>
         (case login_request rdn (set_unique rdn qypk) s of
           (None, s) \<Rightarrow> (Ret False, s)
         | (Some buf, s) \<Rightarrow>
             if \<not> reply_mode SUCCEED buf then (Ret False, s)
             else
               (case next_randnum e s of (rdn, s) \<Rightarrow>
                 (case login_request rdn (request_header GETSERVERINFO s rdn zero_query) s of
                   (None, s) \<Rightarrow> (Ret False, s)
                 | (Some buf, s) \<Rightarrow>
                     if \<not> reply_mode LOGIN buf then (Ret False, s)
                     else (case run (cenv e) (parIP (base s)) (parPort (base s)) buf (base s) of
                         (out, c) \<Rightarrow> (out, s\<lparr>base := c\<rparr>)))))))"

section \<open>Requests of a client\<close>

text \<open>\<open>connectToUser\<close> does not compare the session number.  The result, and the address it stores.\<close>

definition connectToUser :: "client_env \<Rightarrow> client \<Rightarrow> u32 \<Rightarrow> bool option \<times> (u32 \<times> u16) option \<times> client" where
  "connectToUser e s uid =
    (case next_randnum e s of (rdn, s) \<Rightarrow>
      (let qypk = set_field 92 (nint32_set uid) (set_globalMode (globalmode s) (request_header CONNECTUSER s rdn zero_query));
           sealed = seal (iscrypt s) (key s) netQuery qypk
       in case request netQuery netQuery (h_unique sealed) qypk zero_query s of
         (None, s) \<Rightarrow> (None, None, s)
       | (Some buf, s) \<Rightarrow>
           if reply_mode P2PCONNECT buf
           then
             (let a = q_addr buf; p = port_of_num (q_num1 buf)
              in case p2pconnect (now (cenv e)) (base s) a p of (b, c) \<Rightarrow> (Some b, Some (a, p), s\<lparr>base := c\<rparr>))
           else (Some False, None, s)))"

text \<open>A request that is answered with success or failure: \<open>fill\<close> writes the fields of its packet.\<close>

definition simple_request :: "request \<Rightarrow> (client \<Rightarrow> bytes \<Rightarrow> bytes) \<Rightarrow> client_env \<Rightarrow> client \<Rightarrow> bool option \<times> client" where
  "simple_request m fill e s =
    (case next_randnum e s of (rdn, s) \<Rightarrow>
      (case request netQuery netQuery rdn (fill s (request_header m s rdn zero_query)) zero_query s of
        (None, s) \<Rightarrow> (None, s)
      | (Some buf, s) \<Rightarrow> (Some (reply_mode SUCCEED buf), s)))"

text \<open>\<open>for(i=0;i<8;i++)qypk.str1[i]=sname[i]\<close>: eight bytes of the name, and zeros behind them.\<close>

definition name8 :: "bytes \<Rightarrow> bytes" where
  "name8 sname = map (cbyte sname) [0..<8]"

definition newSrc :: "bytes \<Rightarrow> client_env \<Rightarrow> client \<Rightarrow> bool option \<times> client" where
  "newSrc sname = simple_request NEWSRC (\<lambda>s q. set_globalMode (globalmode s) (set_field 56 (name8 sname) q))"

definition del :: "bytes \<Rightarrow> client_env \<Rightarrow> client \<Rightarrow> bool option \<times> client" where
  "del sname = simple_request DELSRC (\<lambda>s q. set_globalMode (globalmode s) (set_field 56 (name8 sname) q))"

definition setPwd :: "bytes \<Rightarrow> bytes \<Rightarrow> client_env \<Rightarrow> client \<Rightarrow> bool option \<times> client" where
  "setPwd pwd lpwd =
    simple_request SETPWD (\<lambda>s q. set_field 72 (wristr lpwd (field 72 16 q)) (set_field 56 (wristr pwd (field 56 16 q)) q))"

definition setPwd_of :: "bytes \<Rightarrow> u32 \<Rightarrow> client_env \<Rightarrow> client \<Rightarrow> bool option \<times> client" where
  "setPwd_of pwd puserid =
    simple_request SETPWD (\<lambda>s q. set_field 92 (nint32_set puserid) (set_globalMode 116 (set_field 56 (wristr pwd (field 56 16 q)) q)))"

definition client_newUser :: "u32 \<Rightarrow> client_env \<Rightarrow> client \<Rightarrow> bool option \<times> client" where
  "client_newUser uid = simple_request NEWUSER (\<lambda>s q. set_globalMode 116 (set_field 92 (nint32_set uid) q))"

text \<open>\<open>callPlus\<close> with the arguments of the right types; the result is what it pushes for the script.\<close>

definition callPlus :: "bytes option \<Rightarrow> bytes option \<Rightarrow> u32 option \<Rightarrow> u32 option \<Rightarrow> u32 option \<Rightarrow> u32 option \<Rightarrow>
    client_env \<Rightarrow> client \<Rightarrow> (bytes \<times> bytes \<times> u32 \<times> u32 \<times> u32 \<times> u32) option option \<times> client" where
  "callPlus s1 s2 n1 n2 n3 n4 e s =
    (case next_randnum e s of (rdn, s) \<Rightarrow>
      (let q = request_header PLUS s rdn zero_query;
           q = set_opt 104 n4 (set_opt 100 n3 (set_opt 96 n2 (set_opt 92 n1 (str_opt 72 s2 (str_opt 56 s1 q)))))
       in case request netQuery netQuery rdn q zero_query s of
         (None, s) \<Rightarrow> (None, s)
       | (Some buf, s) \<Rightarrow>
           if reply_mode PLUS buf
           then (Some (Some (field_string (q_str1 buf), field_string (q_str2 buf), q_num1 buf, q_num2 buf, q_num3 buf, q_num4 buf)), s)
           else (Some None, s)))"

section \<open>Files\<close>

text \<open>One chunk of a download: whether to go on, and the bytes written to the file.\<close>

definition download_packet :: "client \<Rightarrow> u32 \<Rightarrow> bytes \<Rightarrow> u32 \<Rightarrow> bytes" where
  "download_packet s rdn sname n =
    set_globalMode (globalmode s) (set_field 56 (name8 sname) (set_field 92 (nint32_set n) (request_header GETSRC s rdn zero_query)))"

definition downloadchunk :: "client_env \<Rightarrow> bytes \<Rightarrow> u32 \<Rightarrow> client \<Rightarrow> bool \<times> bytes \<times> client" where
  "downloadchunk e sname n s =
    (case next_randnum e s of (rdn, s) \<Rightarrow>
      (case request netQuery netSource rdn (download_packet s rdn sname n) zero_source s of
        (None, s) \<Rightarrow> (False, [], s)
      | (Some buf, s) \<Rightarrow>
          if reply_mode SETSRC_APPEND buf
          then
            (let size = sint (s_size buf); n = (if int SOURCE_CHUNK_SIZE < size then int SOURCE_CHUNK_SIZE else size)
             in (size = int SOURCE_CHUNK_SIZE, take (nat n) (s_source buf), s))
          else (False, [], s)))"

text \<open>Every answer consumes an event, so the loop of \<open>download\<close> ends; \<open>fuel\<close> bounds it by the number of events.\<close>

primrec download_loop :: "nat \<Rightarrow> client_env \<Rightarrow> bytes \<Rightarrow> u32 \<Rightarrow> client \<Rightarrow> (bytes \<times> client) option" where
  "download_loop 0 e sname i s = None"
| "download_loop (Suc fuel) e sname i s =
    (case downloadchunk e sname i s of
      (False, bs, s) \<Rightarrow> Some (bs, s)
    | (True, bs, s) \<Rightarrow>
        (case download_loop fuel e sname (i + 1) s of None \<Rightarrow> None | Some (rest, s) \<Rightarrow> Some (bs @ rest, s)))"

definition download :: "client_env \<Rightarrow> bytes \<Rightarrow> client \<Rightarrow> (bytes \<times> client) option" where
  "download e sname s = download_loop (Suc (length (inbox (base s)))) e sname 0 s"

definition uploadchunk :: "client_env \<Rightarrow> bytes \<Rightarrow> bytes \<Rightarrow> client \<Rightarrow> bool \<times> client" where
  "uploadchunk e sname buf2 s =
    (case next_randnum e s of (rdn, s) \<Rightarrow>
      (let q = set_field 56 (nint32_set (word_of_nat (length buf2))) (request_header SETSRC_APPEND s rdn zero_source);
           q = set_globalMode (globalmode s) (set_field 60 (name8 sname) q);
           q = set_field 76 (take SOURCE_CHUNK_SIZE buf2) q
       in case request netSource netQuery rdn q zero_query s of
         (None, s) \<Rightarrow> (False, s)
       | (Some buf, s) \<Rightarrow> (reply_mode SUCCEED buf, s)))"

text \<open>The stream of \<open>upload\<close>: \<open>feof\<close> is true only after \<open>fgetc\<close> has failed, and the result \<open>EOF\<close> of that call is
  stored as the byte 255.  \<open>read_chunk\<close> is the inner loop on the rest of the file: the bytes stored, the rest,
  and whether the end was met.\<close>

fun read_chunk :: "nat \<Rightarrow> bytes \<Rightarrow> bytes \<times> bytes \<times> bool" where
  "read_chunk 0 f = ([], f, False)"
| "read_chunk (Suc n) [] = ([255], [], True)"
| "read_chunk (Suc n) (b # f) = (case read_chunk n f of (bs, f, eof) \<Rightarrow> (b # bs, f, eof))"

lemma read_chunk_less: "read_chunk n f = (bs, f', False) \<Longrightarrow> 0 < n \<Longrightarrow> length f' < length f"
proof (induction n f arbitrary: bs f' rule: read_chunk.induct)
  case (3 n b f)
  then show ?case by (cases n) (auto split: prod.splits)
qed auto

function upload_chunks :: "bytes \<Rightarrow> bytes list" where
  "upload_chunks f =
    (case read_chunk SOURCE_CHUNK_SIZE f of (bs, f, eof) \<Rightarrow> if eof then [bs] else bs # upload_chunks f)"
  by pat_completeness auto
termination
  by (relation "measure length") (auto simp: SOURCE_CHUNK_SIZE_def dest: read_chunk_less [OF sym])

declare upload_chunks.simps [simp del]

primrec upload_loop :: "client_env \<Rightarrow> bytes \<Rightarrow> bytes list \<Rightarrow> client \<Rightarrow> client" where
  "upload_loop e sname [] s = s"
| "upload_loop e sname (bs # rest) s =
    (case uploadchunk e sname bs s of (True, s) \<Rightarrow> upload_loop e sname rest s | (False, s) \<Rightarrow> s)"

definition upload :: "client_env \<Rightarrow> bytes \<Rightarrow> bytes \<Rightarrow> client \<Rightarrow> client" where
  "upload e sname content s = upload_loop e sname (upload_chunks content) s"

section \<open>Certificates and live data\<close>

definition getUniKey :: "client_env \<Rightarrow> client \<Rightarrow> bool \<times> client" where
  "getUniKey e s =
    (case next_randnum e s of (rdn, s) \<Rightarrow>
      (case request netQuery netSource rdn (request_header CERT s rdn zero_query) (junk_source e) s of
        (None, s) \<Rightarrow> (False, s)
      | (Some buf, s) \<Rightarrow>
          if reply_mode CERT buf
          then (True, s\<lparr>uniKey := reg_decrypt (dh_compute (cenv e)) (junk_secret (cenv e)) (field 76 reg_size buf)\<rparr>)
          else (False, s)))"

text \<open>\<open>reg\<close> prepares a packet with the certificate, but sends another one, in which there is none.\<close>

definition reg :: "client_env \<Rightarrow> client \<Rightarrow> bool \<times> client" where
  "reg e s =
    (case next_randnum e s of (rdn, s) \<Rightarrow>
      (let qypk = set_unique rdn (set_field 4 (nint32_set (myuserid (base s))) (set_mode REGISTER zero_query))
       in case getPbk e s of
         (False, s) \<Rightarrow> (False, s)
       | (True, s) \<Rightarrow>
           (case request netQuery netSource rdn qypk (junk_source e) s of
             (None, s) \<Rightarrow> (False, s)
           | (Some buf, s) \<Rightarrow> (reply_mode SUCCEED buf, s))))"

definition send_8 :: "bytes \<Rightarrow> client \<Rightarrow> client" where
  "send_8 p s = s\<lparr>base := ((\<lambda>c. send c (parIP c) (parPort c) p) ^^ 8) (base s)\<rparr>"

definition live_mark :: "request \<Rightarrow> client_env \<Rightarrow> client \<Rightarrow> client" where
  "live_mark m e s =
    (case next_randnum e s of (rdn, s) \<Rightarrow>
      send_8 (seal (iscrypt s) (key s) netQuery (request_header m s rdn (junk_query e))) s)"

definition liveBegin :: "client_env \<Rightarrow> client \<Rightarrow> client" where "liveBegin = live_mark LIVE_B"
definition liveEnd :: "client_env \<Rightarrow> client \<Rightarrow> client" where "liveEnd = live_mark LIVE_E"

definition live_data :: "client_env \<Rightarrow> bytes \<Rightarrow> client \<Rightarrow> client" where
  "live_data e data s =
    (case next_randnum e s of (rdn, s) \<Rightarrow>
      (let len = min SOURCE_CHUNK_SIZE (length data);
           q = set_field 76 (take len data) (set_field 56 (nint32_set (word_of_nat len)) (junk_source e))
       in send_8 (seal (iscrypt s) (key s) netSource (request_header LIVESRC s rdn q)) s))"

section \<open>The daemon\<close>

text \<open>\<open>Loopsend\<close> of \<^verbatim>\<open>core/daemon.hpp\<close>: every four seconds a packet with the configured mode, numbers and strings.\<close>

record loopconf =
  loop_mode :: u8
  loop_num1 :: u32
  loop_num2 :: u32
  loop_num3 :: u32
  loop_num4 :: u32
  loop_str1 :: bytes
  loop_str2 :: bytes

definition loopsend_packet :: "loopconf \<Rightarrow> client \<Rightarrow> u32 \<Rightarrow> bytes" where
  "loopsend_packet conf s rdn =
    (let q = zero_query[36 := loop_mode conf];
         q = set_field 92 (nint32_set (loop_num1 conf)) q; q = set_field 96 (nint32_set (loop_num2 conf)) q;
         q = set_field 100 (nint32_set (loop_num3 conf)) q; q = set_field 104 (nint32_set (loop_num4 conf)) q;
         q = set_field 56 (wristr (loop_str1 conf) (field 56 16 q)) q; q = set_field 72 (wristr (loop_str2 conf) (field 72 16 q)) q
     in set_unique rdn (set_field 4 (nint32_set (myuserid (base s))) (set_password s q)))"

definition loopsend_turn :: "client_env \<Rightarrow> loopconf \<Rightarrow> client \<Rightarrow> client" where
  "loopsend_turn e conf s =
    (case next_randnum e s of (rdn, s) \<Rightarrow>
      s\<lparr>base := send (base s) (parIP (base s)) (parPort (base s)) (seal (iscrypt s) (key s) netQuery (loopsend_packet conf s rdn))\<rparr>)"

definition loopsend_start :: "loopconf \<Rightarrow> loopconf" where
  "loopsend_start conf = conf\<lparr>loop_mode := request_code CONNECT\<rparr>"

end
