(* ===== verification/Client_Props.thy ===== *)
theory Client_Props
  imports Connection_Props Client
begin

text \<open>
  What the client gets: its loops end, which replies they accept, and what the server makes of its
  requests.
\<close>

section \<open>The loop\<close>

lemma await_inbox:
  "await onq onb rdn qypk buf c = (b, q', buf', c') \<Longrightarrow>
    length (inbox c') \<le> length (inbox c) \<and> (b \<longrightarrow> length (inbox c') < length (inbox c)) \<and> parIP c' = parIP c \<and> parPort c' = parPort c"
proof (induction onq onb rdn qypk buf c rule: await.induct)
  case (1 onq onb rdn qypk buf c)
  obtain r es where e: "recv_within_time 100 (inbox c) = (r, es)" by fastforce
  show ?case
  proof (cases r)
    case None
    then show ?thesis
      using "1.prems" e recv_within_time_le [OF e] by (auto simp: await.simps [of onq onb rdn qypk buf c])
  next
    case (Some x)
    obtain a p bs where x: "x = (a, p, bs)" by (cases x)
    note less = recv_within_time_less [OF e [unfolded Some]]
    note ih = "1.IH" [OF e [symmetric] Some x [symmetric] refl refl refl]
    note unfold = "1.prems" [unfolded await.simps [of onq onb rdn qypk buf c] e Some x option.case prod.case Let_def]
    show ?thesis
      using unfold ih(1) [OF _ refl refl] ih(2) less by (auto split: if_splits)
  qed
qed


lemma ask_inbox:
  "ask onq onb rdn n qypk buf c = (r, c') \<Longrightarrow>
    length (inbox c') \<le> length (inbox c) \<and> (r \<noteq> None \<longrightarrow> length (inbox c') < length (inbox c))"
proof (induction n arbitrary: qypk buf c)
  case (Suc n)
  obtain b q1 buf1 c1 where a: "await onq onb rdn qypk buf (send c (parIP c) (parPort c) qypk) = (b, q1, buf1, c1)"
    by (metis prod_cases4)
  then show ?case
    using Suc.prems Suc.IH [of q1 buf1 c1] await_inbox [OF a] by (cases b) auto
qed simp

lemma request_inbox:
  "request lay lay' rdn q buf s = (r, s') \<Longrightarrow>
    length (inbox (base s')) \<le> length (inbox (base s)) \<and> (r \<noteq> None \<longrightarrow> length (inbox (base s')) < length (inbox (base s)))"
  unfolding request_def using ask_inbox by (auto split: prod.splits)

lemma downloadchunk_inbox:
  assumes "downloadchunk e sname n s = (True, bs, s')"
  shows "length (inbox (base s')) < length (inbox (base s))"
proof -
  obtain rdn s1 where r: "next_randnum e s = (rdn, s1)" by fastforce
  then have s1: "base s1 = base s" by (auto simp: next_randnum_def split: prod.splits)
  obtain a s2 where q: "request netQuery netSource rdn (download_packet s1 rdn sname n) zero_source s1 = (a, s2)" by fastforce
  show ?thesis
    using assms request_inbox [OF q] s1 by (cases a) (auto simp: downloadchunk_def r q Let_def split: if_splits)
qed

lemma download_loop_total: "length (inbox (base s)) < fuel \<Longrightarrow> download_loop fuel e sname i s \<noteq> None"
proof (induction fuel arbitrary: i s)
  case (Suc fuel)
  obtain b bs s' where d: "downloadchunk e sname i s = (b, bs, s')" by (metis prod_cases3)
  show ?case
  proof (cases b)
    case True
    then have "length (inbox (base s')) < fuel"
      using downloadchunk_inbox [of e sname i s bs s'] d Suc.prems by simp
    then show ?thesis
      using Suc.IH [of s' "i + 1"] True d by (auto split: prod.splits)
  qed (simp add: d)
qed simp

text \<open>A comparison with the session number of the packet sent can only fail when encryption has changed the packet.\<close>

lemma await_stuck:
  assumes "h_unique q \<noteq> rdn"
  shows "\<exists>buf' c'. await (\<lambda>q. q) onb rdn q buf c = (False, q, buf', c')"
proof (induction "length (inbox c)" arbitrary: buf c rule: less_induct)
  case less
  obtain r es where e: "recv_within_time 100 (inbox c) = (r, es)" by fastforce
  show ?case
  proof (cases r)
    case None
    then show ?thesis using e by (simp add: await.simps [of _ onb rdn q buf c])
  next
    case (Some x)
    obtain a p bs where x: "x = (a, p, bs)" by (cases x)
    have "length (inbox (c\<lparr>inbox := es\<rparr>)) < length (inbox c)"
      using recv_within_time_less [OF e [unfolded Some]] by simp
    note ih = less [OF this]
    show ?thesis
      unfolding await.simps [of _ onb rdn q buf c] using e Some x ih [of "onb (recv_into buf bs)"] ih [of "recv_into buf bs"] assms
      by (auto simp: Let_def)
  qed
qed

lemma ask_stuck:
  assumes "h_unique q \<noteq> rdn"
  shows "fst (ask (\<lambda>q. q) onb rdn n q buf c) = None"
proof (induction n arbitrary: buf c)
  case (Suc n)
  then show ?case
    using await_stuck [OF assms, of onb buf "send c (parIP c) (parPort c) q"] by auto
qed simp

lemma recv_first: "recv_within_time (Suc n) ((t, Some x) # es) = (Some x, es)"
  by simp

section \<open>Uploads\<close>

lemma read_chunk_result:
  "read_chunk n f = (if n \<le> length f then (take n f, drop n f, False) else (f @ [255], [], True))"
  by (induction n f rule: read_chunk.induct) (auto split: if_splits)

lemma upload_chunks_unfold:
  "upload_chunks f = (if 4096 \<le> length f then take 4096 f # upload_chunks (drop 4096 f) else [f @ [255]])"
  by (subst upload_chunks.simps) (simp add: read_chunk_result SOURCE_CHUNK_SIZE_def)

section \<open>Names\<close>

lemma zero_nth: "i < 16 \<Longrightarrow> 8 \<le> i \<Longrightarrow> cbyte (name8 sname @ replicate 8 0) i = 0"
  by (simp add: cbyte_def name8_def nth_append)

lemma client_name_short: "\<not> strlencheck (name8 sname @ replicate 8 0) 16"
  unfolding strlencheck_def using zero_nth [of 8] by (auto intro!: bexI [of _ "8 :: nat"])

lemma readSrc_client: "readSrc d (name8 sname @ replicate 8 0) = None"
  "readSrc_user d junk (name8 sname @ replicate 8 0) uid = None"
  by (simp_all add: readSrc_def readSrc_user_def user_src_def getSrcName_def client_name_short)

lemma nth_set_field: "off + length w \<le> length p \<Longrightarrow> i < length p \<Longrightarrow> i < off \<or> off + length w \<le> i \<Longrightarrow> set_field off w p ! i = p ! i"
  by (auto simp: set_field_def nth_append min_def)

lemma length_le32 [simp]: "length (le32_bytes w) = 4"
  by (simp add: le32_bytes_def htonl_bytes_def)

lemma length_name8 [simp]: "length (name8 sname) = 8"
  by (simp add: name8_def)

lemma length_zero_query [simp]: "length zero_query = 124"
  by (simp add: zero_query_def netQuery_def)

lemma request_header_fields:
  "length (request_header m s rdn zero_query) = 124" "request_header m s rdn zero_query ! 0 = 0"
  "request_header m s rdn zero_query ! 36 = request_code m" "drop 38 (request_header m s rdn zero_query) = replicate 86 0"
proof -
  let ?q = "set_mode m zero_query"
  let ?w = "wristr (mypassword (base s)) (field 20 16 ?q)"
  have q: "length ?q = 124" "?q ! 0 = 0" "?q ! 36 = request_code m" "drop 38 ?q = replicate 86 0"
    by (simp_all add: set_mode_def zero_query_def netQuery_def)
  have w: "length ?w = 16" using q(1) by (simp add: field_def)
  note defs = request_header_def set_unique_def set_password_def header_password_def header_unique_def
  show "length (request_header m s rdn zero_query) = 124" "request_header m s rdn zero_query ! 0 = 0"
    "request_header m s rdn zero_query ! 36 = request_code m" "drop 38 (request_header m s rdn zero_query) = replicate 86 0"
    using q w by (simp_all add: defs nth_set_field drop_set_after)
qed

lemma download_packet_fields:
  "length (download_packet s rdn sname n) = 124" "download_packet s rdn sname n ! 0 = 0"
  "download_packet s rdn sname n ! 36 = request_code GETSRC" "field 56 16 (download_packet s rdn sname n) = name8 sname @ replicate 8 0"
proof -
  let ?h = "request_header GETSRC s rdn zero_query"
  let ?p = "set_field 56 (name8 sname) (set_field 92 (nint32_set n) ?h)"
  note h = request_header_fields [of GETSRC s rdn]
  have p: "length ?p = 124" "?p ! 0 = 0" "?p ! 36 = request_code GETSRC"
    using h by (simp_all add: nth_set_field)
  then show "length (download_packet s rdn sname n) = 124" "download_packet s rdn sname n ! 0 = 0"
    "download_packet s rdn sname n ! 36 = request_code GETSRC"
    by (simp_all add: download_packet_def set_globalMode_def)
  have "field 64 8 ?p = field 64 8 ?h"
    using h by (simp add: field_set_other field_set_before)
  also have "\<dots> = take 8 (drop 26 (drop 38 ?h))"
    by (simp add: field_def)
  finally have "field 64 8 ?p = replicate 8 0"
    using h by simp
  moreover have "field 56 8 ?p = name8 sname"
    using h by (simp add: field_set_same)
  moreover have "field 56 16 ?p = field 56 8 ?p @ field 64 8 ?p"
    using take_add [of 8 8 "drop 56 ?p"] by (simp add: field_def)
  moreover have "field 56 16 (download_packet s rdn sname n) = field 56 16 ?p"
    by (simp add: download_packet_def set_globalMode_def field_def drop_update_swap)
  ultimately show "field 56 16 (download_packet s rdn sname n) = name8 sname @ replicate 8 0"
    by simp
qed

section \<open>Properties\<close>

lemma upload_chunks_concat:
  "concat (upload_chunks f) = f @ [255] \<and> (\<forall>bs \<in> set (upload_chunks f). bs \<noteq> [] \<and> length bs \<le> SOURCE_CHUNK_SIZE)"
proof (induction f rule: measure_induct_rule [of length])
  case (less f)
  show ?case
  proof (cases "4096 \<le> length f")
    case True
    then have u: "upload_chunks f = take 4096 f # upload_chunks (drop 4096 f)"
      using upload_chunks_unfold [of f] by simp
    have "f \<noteq> []" using True by auto
    then show ?thesis
      unfolding u using less [of "drop 4096 f"] True by (simp add: SOURCE_CHUNK_SIZE_def)
  next
    case False
    then have "upload_chunks f = [f @ [255]]"
      using upload_chunks_unfold [of f] by simp
    then show ?thesis using False by (simp add: SOURCE_CHUNK_SIZE_def)
  qed
qed

text \<open>An upload sends the file and one byte more: the end-of-file mark of the last \<open>fgetc\<close> is stored as a
  byte.  The chunks are never empty and never longer than a packet can carry.\<close>

theorem upload_adds_a_byte:
  "concat (upload_chunks f) = f @ [255] \<and> list_all (\<lambda>bs. bs \<noteq> [] \<and> length bs \<le> SOURCE_CHUNK_SIZE) (upload_chunks f)"
  using upload_chunks_concat [of f] by (simp add: list_all_iff)

lemma download_ends: "\<exists>bs s'. download e sname s = Some (bs, s')"
  using download_loop_total [of s "Suc (length (inbox (base s)))" e sname 0] by (auto simp: download_def)

text \<open>An encrypted request is never answered, unless the cipher happens to map its session number to
  itself: the session number is compared with the packet after it was encrypted in place, and every
  packet of the parent is dropped.\<close>

theorem encrypted_request_unanswered:
  assumes "iscrypt s"
  shows "fst (request lay lay' rdn q buf s) = None \<or> h_unique (crypt_encode (aes_encrypt_block (key s)) lay q) = rdn"
  using ask_stuck [of "crypt_encode (aes_encrypt_block (key s)) lay q" rdn] assms
  by (auto simp: request_def seal_def split: prod.splits) (metis fst_conv)+

text \<open>Without encryption the first packet of the parent is the answer.\<close>

lemma plain_request_answered:
  assumes "\<not> iscrypt s" "h_unique q = rdn" "inbox (base s) = (t, Some (parIP (base s), parPort (base s), bs)) # es"
  shows "fst (request lay lay' rdn q buf s) = Some (crypt_decode (aes_decrypt_block (key s)) lay' (recv_into buf bs))"
proof -
  let ?c = "send (base s) (parIP (base s)) (parPort (base s)) q"
  have "recv_within_time 100 (inbox ?c) = (Some (parIP (base s), parPort (base s), bs), es)"
    using assms(3) recv_first [of 99] by simp
  then have "await (\<lambda>q. q) onb rdn q buf ?c = (True, q, onb (recv_into buf bs), ?c\<lparr>inbox := es\<rparr>)" for onb
    using assms(2) by (simp add: await.simps [of _ onb rdn q buf ?c] Let_def)
  then show ?thesis
    using assms(1) by (simp add: request_def seal_def ask.simps(2) [of _ _ _ 9, simplified])
qed

text \<open>No download ever succeeds: the client sends the first eight bytes of a name and zeros, and the
  server wants sixteen bytes that are not zero.  Whoever asks, and in every state of the server, the
  request is refused and no file is touched.\<close>

theorem client_download_refused:
  assumes "(from, pt) \<noteq> (parIP c, parPort c)"
  shows "fst (run e from pt (download_packet s rdn sname n @ pad) c) = Ret False \<and>
    files (snd (run e from pt (download_packet s rdn sname n @ pad) c)) = files c"
proof -
  let ?q = "download_packet s rdn sname n @ pad"
  note f = download_packet_fields [of s rdn sname n]
  have q: "?q ! 0 \<noteq> 116" "h_mode ?q = request_code GETSRC" "q_str1 ?q = name8 sname @ replicate 8 0"
    using f by (simp_all add: h_mode_def q_str1_def nth_append) (simp add: field_def)
  have plain: "decrypt_request e c ?q = (False, junk_key e, ?q)"
    using q(1) by (simp add: decrypt_request_def)
  have no: "\<not> needs_no_login ?q" using q(2) by (simp add: needs_no_login_def)
  let ?c = "c\<lparr>num := num c + 1\<rparr>"
  obtain ok ui d where l: "login (db ?c) (now e) (h_userid ?q) (h_password ?q) = (ok, ui, d)"
    by (metis prod_cases3)
  obtain fresh d' where u: "logunique d (now e) (h_userid ?q) (h_unique ?q) = (fresh, d')"
    by fastforce
  have "dispatch e r x = answer_fail r x" if "packet r = ?q" for r x
    using that q by (simp add: dispatch_def run_GETSRC_def find_src_def readSrc_client)
  then show ?thesis
    unfolding run_ordinary [OF plain no assms] run_login_cases [OF l u] by (simp add: answer_fail_def)
qed


section \<open>A sample client\<close>

definition sample_client :: client where
  "sample_client = \<lparr>base = sample_conn ysdb_empty, globalmode = 102, iscrypt = True, key = nist_key, parpbk = [],
    parhash = [], seed = 0, uniKey = []\<rparr>"

theorem client_download_refused_witness:
  "fst (run sample_env 8 9 (download_packet sample_client 5 (lit ''resource'') 0 @ replicate 4064 0) (sample_conn ysdb_empty)) = Ret False"
  using client_download_refused [of 8 9 "sample_conn ysdb_empty" sample_env] by simp

theorem encrypted_request_unanswered_witness:
  "fst (request netQuery netQuery 5 (set_unique 5 zero_query) zero_query sample_client) = None \<or>
    h_unique (crypt_encode (aes_encrypt_block nist_key) netQuery (set_unique 5 zero_query)) = 5"
  using encrypted_request_unanswered [of sample_client netQuery netQuery 5 "set_unique 5 zero_query" zero_query]
  by (simp add: sample_client_def)

end
