(* ===== verification/Answers.thy ===== *)
theory Answers
  imports Client_Props
begin

text \<open>
  The packets a server sends.  A packet is one of the structs of the protocol, and the receiver casts what it
  gets to the struct it expects, so the size of an answer must follow from the request.  The relation \<open>sends S\<close>
  says that a step only adds packets whose sizes are in \<open>S\<close>; it is carried through the functions of scripts and all
  requests up to \<open>run\<close>.
\<close>

section \<open>Steps that send\<close>

definition sends :: "nat set \<Rightarrow> conn \<Rightarrow> conn \<Rightarrow> bool" where
  "sends S c c' \<longleftrightarrow> (\<exists>ps. sent c' = sent c @ ps \<and> (\<forall>q \<in> set ps. length (snd q) \<in> S))"




lemma sends_mono: "sends S c c' \<Longrightarrow> S \<subseteq> T \<Longrightarrow> sends T c c'"
  unfolding sends_def by blast


lemma sends_fields [simp]:
  "sends S c (c'\<lparr>db := d\<rparr>) = sends S c c'" "sends S c (c'\<lparr>files := f\<rparr>) = sends S c c'"
  "sends S c (c'\<lparr>inbox := i\<rparr>) = sends S c c'" "sends S c (c'\<lparr>pubkey := k\<rparr>) = sends S c c'"
  "sends S c (c'\<lparr>shell := s\<rparr>) = sends S c c'" "sends S c (c'\<lparr>iplocked := b\<rparr>) = sends S c c'"
  "sends S c (c'\<lparr>num := n\<rparr>) = sends S c c'" "sends S (c\<lparr>num := n\<rparr>) c' = sends S c c'"
  "sends S (c\<lparr>iplocked := b\<rparr>) c' = sends S c c'" "sends S (c\<lparr>db := d\<rparr>) c' = sends S c c'"
  "sends S c (push_parent c' a p) = sends S c c'"
  "sends S c (c'\<lparr>ipstack := l, parIP := a, parPort := p\<rparr>) = sends S c c'"
  by (simp_all add: sends_def push_parent_def)

section \<open>The size of a packet\<close>

named_theorems packet_size

lemma length_field_le: "length (field off n p) \<le> n"
  by (simp add: field_def)

lemma set_mode_size [packet_size]: "length (set_mode m p) = length p"
  by (simp add: set_mode_def)

lemma set_field_size [packet_size]: "length v \<le> k \<Longrightarrow> off + k \<le> length p \<Longrightarrow> length (set_field off v p) = length p"
  by simp

lemma copy_unique_size [packet_size]: "12 \<le> length p \<Longrightarrow> length (copy_unique d p) = length p"
  unfolding copy_unique_def by (rule set_field_size [OF length_field_le]) (simp add: header_unique_def)

lemma sign_header_size [packet_size]: "36 \<le> length p \<Longrightarrow> length (sign_header c p) = length p"
  by (simp add: sign_header_def header_password_def)

lemma set_opt_size [packet_size]: "off + 4 \<le> length p \<Longrightarrow> length (set_opt off n p) = length p"
  by (simp add: set_opt_def split: option.split)

lemma str_opt_size [packet_size]: "off + 16 \<le> length p \<Longrightarrow> length (str_opt off s p) = length p"
  by (simp add: str_opt_def field_def split: option.split)

lemma copy_opt_size [packet_size]: "off + 16 \<le> length p \<Longrightarrow> length (copy_opt off s p) = length p"
  by (simp add: copy_opt_def split: option.split)

lemma p2p_packet_size [packet_size]: "96 \<le> length q \<Longrightarrow> length (p2p_packet m a p q) = length q"
  by (simp add: p2p_packet_def packet_size)

lemma zero_sizes [packet_size]: "length zero_query = 124" "length zero_source = 4188"
  by (simp_all add: length_zero_source)

lemma status_packet_size [packet_size]: "length (status_packet c m) = 124"
  by (simp add: status_packet_def packet_size)

lemma crypt_encode_size:
  assumes "layout_ok lay" "length p = size_of lay"
  shows "length (crypt_encode (aes_encrypt_block k) lay p) = size_of lay"
proof -
  let ?s = "packet_seal lay p"
  have s: "length ?s = size_of lay"
    using assms by (subst length_packet_seal) (simp_all add: layout_ok_def)
  have r: "header_unique \<le> length ?s" "room (endchunk lay - header_unique) (drop header_unique ?s)"
    using assms s by (auto simp: room_def layout_ok_def header_unique_def)
  have "block_loop (aes_encrypt_block k) header_unique (endchunk lay) ?s =
      take header_unique ?s @ blocks_map (aes_encrypt_block k) (endchunk lay - header_unique) (drop header_unique ?s)"
    using r by (intro block_loop_blocks_map aes.length_enc)
  then have "length (block_loop (aes_encrypt_block k) header_unique (endchunk lay) ?s) = size_of lay"
    using r s length_blocks_map [OF aes.length_enc r(2)] by simp
  then show ?thesis using assms(2) by (simp add: crypt_encode_def)
qed

lemma seal_size [packet_size]:
  "length p = 124 \<Longrightarrow> length (seal b k netQuery p) = 124"
  "length p = 4188 \<Longrightarrow> length (seal b k netSource p) = 4188"
  using crypt_encode_size [OF layouts_ok(1), of p k] crypt_encode_size [OF layouts_ok(2), of p k]
  by (simp_all add: seal_def netQuery_def netSource_def SOURCE_CHUNK_SIZE_def)




lemma getsrc_packet_size [packet_size]: "length bs \<le> 4096 \<Longrightarrow> length (getsrc_packet c d n bs) = 4188"
  unfolding getsrc_packet_def Let_def
  by (subst set_field_size [where k = 16]) (simp_all add: packet_size field_def set_field_size [where k = 4096])

lemma reg_init_size [packet_size]: "length r = 1124 \<Longrightarrow> length (reg_init f t r u w) = 1124"
  by (simp add: reg_init_def reg_dosign_def split: prod.split)

section \<open>Everything but a request\<close>








section \<open>Requests\<close>










section \<open>The handler\<close>










end
