(* ===== verification/Strbuf.thy ===== *)
theory Strbuf
  imports Prelude "HOL-Library.While_Combinator"
begin

text \<open>
  The growable string buffer of \<^verbatim>\<open>core/lua-cjson/strbuf.c\<close> and
  \<^verbatim>\<open>core/lua-cjson/strbuf.h\<close>, on which the JSON encoder and decoder write.

  The C struct is the record \<open>Lstrbuf_t\<close>; the array \<open>buf\<close> points to is a list whose length is
  the number of bytes allocated, so a store past the allocation is visible: it is the outcome
  \<open>Fault OutOfBounds\<close>.  \<open>die\<close> is \<open>Fault (Die msg)\<close>, a loop that does not end \<open>Fault Hang\<close>.
  Bytes that \<open>malloc\<close> and \<open>realloc\<close> leave indeterminate are zero here; no operation reads them.
  Sizes are natural numbers: overflow of \<open>int\<close> sizes is not modelled.

  The interface \<open>text_buffer\<close> is what a client relies on: a buffer holds a text and every append
  extends it.  It is interpreted on the operations of the source at the end of the theory.
\<close>

section \<open>Outcomes of C code under Lua\<close>

datatype cfault = Die string | OutOfBounds | NullPointer | Hang | DivByZero

text \<open>A C function returns, raises a Lua error (with the state at the \<open>longjmp\<close>), or is lost.\<close>

datatype 's lres = Ok 's | Throw string 's | Fault cfault

primrec lbind :: "'s lres \<Rightarrow> ('s \<Rightarrow> 's lres) \<Rightarrow> 's lres" where
  "lbind (Ok s) f = f s"
| "lbind (Throw m s) f = Throw m s"
| "lbind (Fault e) f = Fault e"

lemma lbind_Ok_iff: "lbind m f = Ok t \<longleftrightarrow> (\<exists>s. m = Ok s \<and> f s = Ok t)"
  by (cases m) auto

section \<open>The buffer\<close>

record Lstrbuf_t =
  sb_buf :: "char list option"
  sb_size :: nat
  sb_length :: nat
  sb_increment :: int
  sb_dynamic :: bool
  sb_reallocs :: nat
  sb_debug :: nat

definition Lstrbuf_DEFAULT_SIZE :: nat where "Lstrbuf_DEFAULT_SIZE = 1023"
definition Lstrbuf_DEFAULT_INCREMENT :: int where "Lstrbuf_DEFAULT_INCREMENT = -2"

definition NUL :: char where "NUL = CHR 0x00"

text \<open>Stores into the array: a run of bytes from an index on.\<close>

definition sb_write :: "Lstrbuf_t \<Rightarrow> nat \<Rightarrow> string \<Rightarrow> Lstrbuf_t lres" where
  "sb_write s i str =
    (case sb_buf s of
      None \<Rightarrow> Fault NullPointer
    | Some b \<Rightarrow>
        if i + length str \<le> length b
        then Ok (s\<lparr>sb_buf := Some (take i b @ str @ drop (i + length str) b)\<rparr>)
        else Fault OutOfBounds)"

definition Lstrbuf_reset :: "Lstrbuf_t \<Rightarrow> Lstrbuf_t" where
  "Lstrbuf_reset s = s\<lparr>sb_length := 0\<rparr>"

definition Lstrbuf_allocated :: "Lstrbuf_t \<Rightarrow> bool" where
  "Lstrbuf_allocated s \<longleftrightarrow> sb_buf s \<noteq> None"

definition Lstrbuf_empty_length :: "Lstrbuf_t \<Rightarrow> int" where
  "Lstrbuf_empty_length s = int (sb_size s) - int (sb_length s) - 1"

definition Lstrbuf_ensure_null :: "Lstrbuf_t \<Rightarrow> Lstrbuf_t lres" where
  "Lstrbuf_ensure_null s = sb_write s (sb_length s) [NUL]"

definition Lstrbuf_init :: "int \<Rightarrow> Lstrbuf_t lres" where
  "Lstrbuf_init len =
    (let sz = (if len \<le> 0 then Lstrbuf_DEFAULT_SIZE else nat len + 1);
         s = \<lparr>sb_buf = Some (replicate sz NUL), sb_size = sz, sb_length = 0,
              sb_increment = Lstrbuf_DEFAULT_INCREMENT, sb_dynamic = False, sb_reallocs = 0, sb_debug = 0\<rparr>
     in Lstrbuf_ensure_null s)"

definition Lstrbuf_new :: "int \<Rightarrow> Lstrbuf_t lres" where
  "Lstrbuf_new len = lbind (Lstrbuf_init len) (\<lambda>s. Ok (s\<lparr>sb_dynamic := True\<rparr>))"

definition Lstrbuf_set_increment :: "Lstrbuf_t \<Rightarrow> int \<Rightarrow> Lstrbuf_t lres" where
  "Lstrbuf_set_increment s increment =
    (if increment = 0 \<or> increment = -1 then Fault (Die ''BUG: Invalid string increment'')
     else Ok (s\<lparr>sb_increment := increment\<rparr>))"

definition Lstrbuf_free :: "Lstrbuf_t \<Rightarrow> Lstrbuf_t" where
  "Lstrbuf_free s = s\<lparr>sb_buf := None\<rparr>"

definition Lstrbuf_free_to_string :: "Lstrbuf_t \<Rightarrow> cfault + (char list \<times> nat)" where
  "Lstrbuf_free_to_string s =
    (case Lstrbuf_ensure_null s of
      Ok s \<Rightarrow> (case sb_buf s of Some b \<Rightarrow> Inr (b, sb_length s) | None \<Rightarrow> Inl NullPointer)
    | Throw _ _ \<Rightarrow> Inl NullPointer
    | Fault e \<Rightarrow> Inl e)"

definition calculate_new_size :: "Lstrbuf_t \<Rightarrow> int \<Rightarrow> cfault + nat" where
  "calculate_new_size s len =
    (if len \<le> 0 then Inl (Die ''BUG: Invalid Lstrbuf length requested'')
     else
       (let reqsize = nat len + 1
        in if reqsize < sb_size s then Inr reqsize
           else if sb_increment s < 0 then
             (case while_option (\<lambda>newsize. newsize < reqsize)
                     (\<lambda>newsize. newsize * nat (- sb_increment s)) (sb_size s) of
               None \<Rightarrow> Inl Hang
             | Some newsize \<Rightarrow> Inr newsize)
           else
             (let inc = nat (sb_increment s)
              in if inc = 0 then Inl DivByZero
                 else Inr (((sb_size s + inc - 1) div inc) * inc))))"

definition Lstrbuf_resize :: "Lstrbuf_t \<Rightarrow> int \<Rightarrow> Lstrbuf_t lres" where
  "Lstrbuf_resize s len =
    (case calculate_new_size s len of
      Inl e \<Rightarrow> Fault e
    | Inr newsize \<Rightarrow>
        (let b = (case sb_buf s of None \<Rightarrow> [] | Some b \<Rightarrow> b)
         in Ok (s\<lparr>sb_size := newsize,
                  sb_buf := Some (take newsize b @ replicate (newsize - length b) NUL),
                  sb_reallocs := sb_reallocs s + 1\<rparr>)))"

definition Lstrbuf_ensure_empty_length :: "Lstrbuf_t \<Rightarrow> int \<Rightarrow> Lstrbuf_t lres" where
  "Lstrbuf_ensure_empty_length s len =
    (if Lstrbuf_empty_length s < len then Lstrbuf_resize s (int (sb_length s) + len) else Ok s)"

definition Lstrbuf_extend_length :: "Lstrbuf_t \<Rightarrow> nat \<Rightarrow> Lstrbuf_t" where
  "Lstrbuf_extend_length s len = s\<lparr>sb_length := sb_length s + len\<rparr>"

definition Lstrbuf_append_mem_unsafe :: "Lstrbuf_t \<Rightarrow> string \<Rightarrow> Lstrbuf_t lres" where
  "Lstrbuf_append_mem_unsafe s c =
    lbind (sb_write s (sb_length s) c) (\<lambda>s. Ok (Lstrbuf_extend_length s (length c)))"

definition Lstrbuf_append_mem :: "Lstrbuf_t \<Rightarrow> string \<Rightarrow> Lstrbuf_t lres" where
  "Lstrbuf_append_mem s c =
    lbind (Lstrbuf_ensure_empty_length s (int (length c))) (\<lambda>s. Lstrbuf_append_mem_unsafe s c)"

definition Lstrbuf_append_char_unsafe :: "Lstrbuf_t \<Rightarrow> char \<Rightarrow> Lstrbuf_t lres" where
  "Lstrbuf_append_char_unsafe s c =
    lbind (sb_write s (sb_length s) [c]) (\<lambda>s. Ok (s\<lparr>sb_length := sb_length s + 1\<rparr>))"

definition Lstrbuf_append_char :: "Lstrbuf_t \<Rightarrow> char \<Rightarrow> Lstrbuf_t lres" where
  "Lstrbuf_append_char s c =
    lbind (Lstrbuf_ensure_empty_length s 1) (\<lambda>s. Lstrbuf_append_char_unsafe s c)"

text \<open>The loop of \<open>Lstrbuf_append_string\<close> over the characters before the terminator, with the
  local variable \<open>space\<close>.\<close>

fun append_string_loop :: "string \<Rightarrow> int \<Rightarrow> Lstrbuf_t \<Rightarrow> Lstrbuf_t lres" where
  "append_string_loop [] space s = Ok s"
| "append_string_loop (c # cs) space s =
    (case (if space < 1 then Lstrbuf_resize s (int (sb_length s) + 1) else Ok s) of
      Ok s' \<Rightarrow>
        (let space = (if space < 1 then Lstrbuf_empty_length s' else space)
         in lbind (Lstrbuf_append_char_unsafe s' c) (append_string_loop cs (space - 1)))
    | r \<Rightarrow> r)"

definition Lstrbuf_append_string :: "Lstrbuf_t \<Rightarrow> string \<Rightarrow> Lstrbuf_t lres" where
  "Lstrbuf_append_string s str =
    append_string_loop (takeWhile (\<lambda>c. c \<noteq> NUL) str) (Lstrbuf_empty_length s) s"

text \<open>\<open>vsnprintf\<close> at the end of the buffer: \<open>out\<close> is the whole formatted text, at most \<open>n - 1\<close> of
  whose characters and a terminator are stored.\<close>

definition vsnprintf_at :: "Lstrbuf_t \<Rightarrow> nat \<Rightarrow> string \<Rightarrow> Lstrbuf_t lres" where
  "vsnprintf_at s n out =
    (if n = 0 then Ok s else sb_write s (sb_length s) (take (n - 1) out @ [NUL]))"

definition Lstrbuf_append_fmt :: "Lstrbuf_t \<Rightarrow> nat \<Rightarrow> string \<Rightarrow> Lstrbuf_t lres" where
  "Lstrbuf_append_fmt s len out =
    lbind (Lstrbuf_ensure_empty_length s (int len))
      (\<lambda>s. lbind (vsnprintf_at s len out) (\<lambda>s. Ok (s\<lparr>sb_length := sb_length s + length out\<rparr>)))"

text \<open>The retry loop: a second failure is a bug of the C library, so two rounds are all there are.\<close>

definition Lstrbuf_append_fmt_retry :: "Lstrbuf_t \<Rightarrow> string \<Rightarrow> Lstrbuf_t lres" where
  "Lstrbuf_append_fmt_retry s out =
    lbind (vsnprintf_at s (nat (Lstrbuf_empty_length s) + 1) out)
      (\<lambda>s. if int (length out) \<le> Lstrbuf_empty_length s
           then Ok (s\<lparr>sb_length := sb_length s + length out\<rparr>)
           else lbind (Lstrbuf_resize s (int (sb_length s + length out)))
             (\<lambda>s. lbind (vsnprintf_at s (nat (Lstrbuf_empty_length s) + 1) out)
               (\<lambda>s. if int (length out) \<le> Lstrbuf_empty_length s
                    then Ok (s\<lparr>sb_length := sb_length s + length out\<rparr>)
                    else Fault (Die ''BUG: length of formatted string changed''))))"

definition Lstrbuf_string :: "Lstrbuf_t \<Rightarrow> string" where
  "Lstrbuf_string s = (case sb_buf s of None \<Rightarrow> [] | Some b \<Rightarrow> take (sb_length s) b)"

section \<open>Invariant\<close>

text \<open>A well-formed buffer owns its allocation, keeps a byte for the terminator and grows
  exponentially, as every buffer the JSON code makes does.\<close>

definition sb_wf :: "Lstrbuf_t \<Rightarrow> bool" where
  "sb_wf s \<longleftrightarrow> (\<exists>b. sb_buf s = Some b \<and> length b = sb_size s) \<and> sb_length s < sb_size s \<and>
    sb_increment s \<le> -2"

definition sb_holds :: "Lstrbuf_t \<Rightarrow> string \<Rightarrow> bool" where
  "sb_holds s t \<longleftrightarrow> sb_wf s \<and> Lstrbuf_string s = t"

lemma sb_holds_length: "sb_holds s t \<Longrightarrow> length t = sb_length s"
  by (auto simp: sb_holds_def sb_wf_def Lstrbuf_string_def)

section \<open>Resizing\<close>

lemma exp_growth:
  assumes "0 < n" "2 \<le> m"
  shows "\<exists>k. while_option (\<lambda>n. n < r) (\<lambda>n. n * m) n = Some k \<and> r \<le> k \<and> n \<le> (k::nat)"
proof -
  have "\<exists>k. while_option (\<lambda>n. n < r) (\<lambda>n. n * m) n = Some k"
    by (rule measure_while_option_Some [where P = "\<lambda>n. 0 < n" and f = "\<lambda>n. r - n"])
      (use assms in \<open>auto intro!: diff_less_mono2\<close>)
  then obtain k where k: "while_option (\<lambda>n. n < r) (\<lambda>n. n * m) n = Some k" ..
  have "n \<le> k"
    by (rule while_option_rule [OF _ k, where P = "\<lambda>j. n \<le> j"])
      (use assms in \<open>auto intro: order_trans\<close>)
  with k while_option_stop [OF k] show ?thesis by auto
qed

lemma resize_ok:
  assumes "sb_holds s t" "int (sb_length s) \<le> len" "0 < len"
  shows "\<exists>s'. Lstrbuf_resize s len = Ok s' \<and> sb_holds s' t \<and> nat len < sb_size s' \<and>
    sb_length s' = sb_length s"
proof -
  from assms(1) obtain b where b: "sb_buf s = Some b" "length b = sb_size s" "sb_length s < sb_size s"
    "sb_increment s \<le> -2" "take (sb_length s) b = t"
    by (auto simp: sb_holds_def sb_wf_def Lstrbuf_string_def)
  obtain k where k: "calculate_new_size s len = Inr k" "nat len < k"
  proof (cases "nat len + 1 < sb_size s")
    case True
    with assms(3) show ?thesis
      by (intro that [of "nat len + 1"]) (simp_all add: calculate_new_size_def)
  next
    case False
    have "2 \<le> nat (- sb_increment s)" "0 < sb_size s"
      using b(3,4) by linarith+
    from exp_growth [OF this(2,1), of "nat len + 1"]
    obtain k where "while_option (\<lambda>n. n < nat len + 1) (\<lambda>n. n * nat (- sb_increment s)) (sb_size s) = Some k"
      "nat len + 1 \<le> k" by auto
    with False assms(3) b(4) show ?thesis
      by (intro that [of k]) (simp_all add: calculate_new_size_def)
  qed
  then have "take (sb_length s) (take k b @ replicate (k - length b) NUL) = t"
    using b assms(2) by (auto simp: min_def)
  with k b assms(2) show ?thesis
    by (auto simp: Lstrbuf_resize_def sb_holds_def sb_wf_def Lstrbuf_string_def)
qed

lemma ensure_empty_length_ok:
  assumes "sb_holds s t" "0 \<le> n"
  shows "\<exists>s'. Lstrbuf_ensure_empty_length s n = Ok s' \<and> sb_holds s' t \<and>
    int (sb_length s') + n < int (sb_size s')"
proof (cases "Lstrbuf_empty_length s < n")
  case True
  with assms have "0 < int (sb_length s) + n"
    by (auto simp: Lstrbuf_empty_length_def sb_holds_def sb_wf_def)
  with resize_ok [OF assms(1), of "int (sb_length s) + n"] assms(2) True show ?thesis
    by (auto simp: Lstrbuf_ensure_empty_length_def)
next
  case False
  with assms show ?thesis
    by (auto simp: Lstrbuf_ensure_empty_length_def Lstrbuf_empty_length_def)
qed

section \<open>Appending\<close>

lemma sb_write_end:
  assumes "sb_holds s t" "sb_length s + length c < sb_size s"
  shows "\<exists>s'. sb_write s (sb_length s) c = Ok s' \<and> sb_holds (Lstrbuf_extend_length s' (length c)) (t @ c) \<and>
    sb_size s' = sb_size s \<and> sb_length s' = sb_length s"
  using assms
  by (auto simp: sb_holds_def sb_wf_def Lstrbuf_string_def sb_write_def Lstrbuf_extend_length_def)

lemma append_mem_unsafe_ok:
  assumes "sb_holds s t" "sb_length s + length c < sb_size s"
  shows "\<exists>s'. Lstrbuf_append_mem_unsafe s c = Ok s' \<and> sb_holds s' (t @ c) \<and> sb_size s' = sb_size s"
  using sb_write_end [OF assms]
  by (auto simp: Lstrbuf_append_mem_unsafe_def Lstrbuf_extend_length_def)

lemma append_char_unsafe_mem: "Lstrbuf_append_char_unsafe s c = Lstrbuf_append_mem_unsafe s [c]"
  by (simp add: Lstrbuf_append_char_unsafe_def Lstrbuf_append_mem_unsafe_def Lstrbuf_extend_length_def)

lemma append_mem_ok:
  assumes "sb_holds s t"
  shows "\<exists>s'. Lstrbuf_append_mem s c = Ok s' \<and> sb_holds s' (t @ c)"
proof -
  obtain s1 where s1: "Lstrbuf_ensure_empty_length s (int (length c)) = Ok s1" "sb_holds s1 t"
    "int (sb_length s1) + int (length c) < int (sb_size s1)"
    using ensure_empty_length_ok [OF assms, of "int (length c)"] by auto
  then have "sb_length s1 + length c < sb_size s1" by linarith
  from append_mem_unsafe_ok [OF s1(2) this] s1(1) show ?thesis
    by (auto simp: Lstrbuf_append_mem_def)
qed

lemma append_char_ok:
  assumes "sb_holds s t"
  shows "\<exists>s'. Lstrbuf_append_char s c = Ok s' \<and> sb_holds s' (t @ [c])"
  using append_mem_ok [OF assms, of "[c]"]
  by (simp add: Lstrbuf_append_char_def Lstrbuf_append_mem_def append_char_unsafe_mem)

lemma append_string_loop_ok:
  assumes "sb_holds s t" "space \<le> Lstrbuf_empty_length s"
  shows "\<exists>s'. append_string_loop cs space s = Ok s' \<and> sb_holds s' (t @ cs)"
  using assms
proof (induction cs arbitrary: s t space)
  case Nil
  then show ?case by simp
next
  case (Cons c cs)
  define r where "r = (if space < 1 then Lstrbuf_resize s (int (sb_length s) + 1) else Ok s)"
  obtain s1 where s1: "r = Ok s1" "sb_holds s1 t" "sb_length s1 + 1 < sb_size s1"
    "(if space < 1 then Lstrbuf_empty_length s1 else space) \<le> Lstrbuf_empty_length s1"
  proof (cases "space < 1")
    case True
    with resize_ok [OF Cons.prems(1), of "int (sb_length s) + 1"] show ?thesis
      by (auto simp: r_def intro!: that)
  next
    case False
    with Cons.prems show ?thesis
      by (auto simp: r_def Lstrbuf_empty_length_def intro!: that)
  qed
  from append_mem_unsafe_ok [OF s1(2), of "[c]"] s1(3)
  obtain s2 where s2: "Lstrbuf_append_char_unsafe s1 c = Ok s2" "sb_holds s2 (t @ [c])"
    "sb_size s2 = sb_size s1"
    by (auto simp: append_char_unsafe_mem)
  have "sb_length s2 = sb_length s1 + 1"
    using sb_holds_length [OF s2(2)] sb_holds_length [OF s1(2)] by simp
  with s1(4) s2(3) have "(if space < 1 then Lstrbuf_empty_length s1 else space) - 1 \<le> Lstrbuf_empty_length s2"
    by (simp add: Lstrbuf_empty_length_def split: if_splits)
  from Cons.IH [OF s2(2) this] show ?case
    using s1(1) s2(1) unfolding r_def by (simp add: Let_def)
qed

lemma append_string_ok:
  assumes "sb_holds s t"
  shows "\<exists>s'. Lstrbuf_append_string s str = Ok s' \<and> sb_holds s' (t @ takeWhile (\<lambda>c. c \<noteq> NUL) str)"
  using append_string_loop_ok [OF assms] by (simp add: Lstrbuf_append_string_def)

lemma reset_ok: "sb_holds s t \<Longrightarrow> sb_holds (Lstrbuf_reset s) []"
  by (auto simp: sb_holds_def sb_wf_def Lstrbuf_string_def Lstrbuf_reset_def)

lemma init_ok: "\<exists>s. Lstrbuf_init len = Ok s \<and> sb_holds s [] \<and> (0 < len \<longrightarrow> sb_size s = nat len + 1) \<and> 0 < sb_size s"
  by (auto simp: Lstrbuf_init_def Lstrbuf_ensure_null_def sb_write_def sb_holds_def sb_wf_def
      Lstrbuf_string_def Let_def Lstrbuf_DEFAULT_SIZE_def Lstrbuf_DEFAULT_INCREMENT_def)

lemma vsnprintf_at_ok:
  assumes "sb_holds s t" "sb_length s + n \<le> sb_size s"
  shows "\<exists>s'. vsnprintf_at s n out = Ok s' \<and> sb_holds s' t \<and> sb_size s' = sb_size s \<and>
    sb_length s' = sb_length s \<and>
    (length out < n \<longrightarrow> sb_holds (s'\<lparr>sb_length := sb_length s' + length out\<rparr>) (t @ out))"
  using assms
  by (auto simp: vsnprintf_at_def sb_write_def sb_holds_def sb_wf_def Lstrbuf_string_def min_def)

section \<open>The interface the JSON code uses\<close>

locale text_buffer =
  fixes holds :: "'b \<Rightarrow> string \<Rightarrow> bool"
    and append_char :: "'b \<Rightarrow> char \<Rightarrow> 'b lres"
    and append_mem :: "'b \<Rightarrow> string \<Rightarrow> 'b lres"
  assumes holds_append_char: "holds b t \<Longrightarrow> \<exists>b'. append_char b c = Ok b' \<and> holds b' (t @ [c])"
    and holds_append_mem: "holds b t \<Longrightarrow> \<exists>b'. append_mem b m = Ok b' \<and> holds b' (t @ m)"
begin

text \<open>A client that appends texts one after the other gets their concatenation, and never fails.\<close>

lemma append_all:
  "holds b t \<Longrightarrow> \<exists>b'. fold (\<lambda>m r. lbind r (\<lambda>b. append_mem b m)) ms (Ok b) = Ok b' \<and> holds b' (t @ concat ms)"
proof (induction ms arbitrary: b t)
  case Nil
  then show ?case by simp
next
  case (Cons m ms)
  from holds_append_mem [OF Cons.prems, of m] obtain b1
    where "append_mem b m = Ok b1" "holds b1 (t @ m)" by auto
  with Cons.IH [OF this(2)] show ?case by auto
qed

lemma append_char_then:
  assumes "holds b t"
    and "\<And>b'. holds b' (t @ [c]) \<Longrightarrow> \<exists>b''. f b' = Ok b'' \<and> holds b'' (t @ [c] @ u)"
  shows "\<exists>b''. lbind (append_char b c) f = Ok b'' \<and> holds b'' (t @ [c] @ u)"
  using holds_append_char [OF assms(1), of c] assms(2) by fastforce

end

interpretation sb: text_buffer sb_holds Lstrbuf_append_char Lstrbuf_append_mem
  by unfold_locales (simp_all add: append_char_ok append_mem_ok)

section \<open>Properties\<close>

text \<open>Appending a sequence of texts to a well-formed buffer always succeeds: every store stays
  inside the allocation, growing ends, the invariant is kept and the buffer holds its old text
  followed by the new ones.\<close>

theorem strbuf_append_all:
  assumes "sb_holds s t"
  shows "\<exists>s'. fold (\<lambda>m r. lbind r (\<lambda>b. Lstrbuf_append_mem b m)) ms (Ok s) = Ok s' \<and>
    sb_holds s' (t @ concat ms)"
  using assms by (rule sb.append_all)

text \<open>A buffer with a positive (linear) increment does not grow when it is full: the next
  append of two or more bytes stores past the end of the allocation.\<close>

theorem linear_growth_overflow:
  assumes "sb_buf s = Some b" "length b = sb_size s" "sb_length s + 1 = sb_size s"
    and "0 < sb_increment s" "nat (sb_increment s) dvd sb_size s" "2 \<le> length c"
  shows "Lstrbuf_append_mem s c = Fault OutOfBounds"
proof -
  let ?i = "nat (sb_increment s)"
  from assms(5) obtain k where k: "sb_size s = ?i * k" ..
  have "(sb_size s + ?i - 1) div ?i = k"
    using assms(4) by (simp add: k div_nat_eqI)
  then have "calculate_new_size s (int (sb_length s) + int (length c)) = Inr (sb_size s)"
    using assms(3,4,6) k by (auto simp: calculate_new_size_def Let_def mult.commute)
  then show ?thesis
    using assms by (simp add: Lstrbuf_append_mem_def Lstrbuf_ensure_empty_length_def Lstrbuf_resize_def
        Lstrbuf_empty_length_def Lstrbuf_append_mem_unsafe_def sb_write_def)
qed

text \<open>Formatting with retry appends the whole formatted text, however long it is, and never
  takes the exit for a changed length.\<close>

theorem append_fmt_retry_total:
  assumes "sb_holds s t"
  shows "\<exists>s'. Lstrbuf_append_fmt_retry s out = Ok s' \<and> sb_holds s' (t @ out)"
proof -
  have free: "sb_length s + (nat (Lstrbuf_empty_length s) + 1) \<le> sb_size s" if "sb_holds s t" for s
    using that by (auto simp: Lstrbuf_empty_length_def sb_holds_def sb_wf_def)
  obtain s1 where s1: "vsnprintf_at s (nat (Lstrbuf_empty_length s) + 1) out = Ok s1" "sb_holds s1 t"
    "sb_size s1 = sb_size s" "sb_length s1 = sb_length s"
    "length out < nat (Lstrbuf_empty_length s) + 1 \<Longrightarrow>
       sb_holds (s1\<lparr>sb_length := sb_length s1 + length out\<rparr>) (t @ out)"
    using vsnprintf_at_ok [OF assms free [OF assms], of out] by metis
  show ?thesis
  proof (cases "int (length out) \<le> Lstrbuf_empty_length s1")
    case True
    with s1 show ?thesis
      by (auto simp: Lstrbuf_append_fmt_retry_def Lstrbuf_empty_length_def)
  next
    case False
    then have "0 < int (sb_length s1 + length out)"
      using s1(2) by (auto simp: Lstrbuf_empty_length_def sb_holds_def sb_wf_def)
    with resize_ok [OF s1(2), of "int (sb_length s1 + length out)"]
    obtain s2 where s2: "Lstrbuf_resize s1 (int (sb_length s1 + length out)) = Ok s2" "sb_holds s2 t"
      "sb_length s1 + length out < sb_size s2" "sb_length s2 = sb_length s1"
      by auto
    obtain s3 where s3: "vsnprintf_at s2 (nat (Lstrbuf_empty_length s2) + 1) out = Ok s3"
      "sb_size s3 = sb_size s2" "sb_length s3 = sb_length s2"
      "length out < nat (Lstrbuf_empty_length s2) + 1 \<Longrightarrow>
         sb_holds (s3\<lparr>sb_length := sb_length s3 + length out\<rparr>) (t @ out)"
      using vsnprintf_at_ok [OF s2(2) free [OF s2(2)], of out] by metis
    from False s1(1) s2 s3 show ?thesis
      by (auto simp: Lstrbuf_append_fmt_retry_def Lstrbuf_empty_length_def)
  qed
qed

definition sb_example :: "int \<Rightarrow> Lstrbuf_t" where
  "sb_example inc = \<lparr>sb_buf = Some ''abc.'', sb_size = 4, sb_length = 3, sb_increment = inc,
    sb_dynamic = False, sb_reallocs = 0, sb_debug = 0\<rparr>"

lemma sb_example_holds: "sb_holds (sb_example (-2)) ''abc''"
  by (simp add: sb_example_def sb_holds_def sb_wf_def Lstrbuf_string_def)

theorem strbuf_append_all_witness:
  "\<exists>s'. fold (\<lambda>m r. lbind r (\<lambda>b. Lstrbuf_append_mem b m)) [''de'', ''f''] (Ok (sb_example (-2))) = Ok s' \<and>
    sb_holds s' ''abcdef''"
  using strbuf_append_all [OF sb_example_holds, of "[''de'', ''f'']"] by simp

theorem linear_growth_overflow_witness: "Lstrbuf_append_mem (sb_example 2) ''xy'' = Fault OutOfBounds"
  by (rule linear_growth_overflow [where b = "''abc.''"]) (simp_all add: sb_example_def)

theorem append_fmt_retry_total_witness:
  "\<exists>s'. Lstrbuf_append_fmt_retry (sb_example (-2)) ''12345'' = Ok s' \<and> sb_holds s' ''abc12345''"
  using append_fmt_retry_total [OF sb_example_holds, of "''12345''"] by simp

end
