(* ===== verification/Fpconv.thy ===== *)
theory Fpconv
  imports Strbuf
begin

text \<open>
  Locale-independent number conversion, \<^verbatim>\<open>core/lua-cjson/fpconv.c\<close>.  The C library's
  \<open>strtod\<close> and \<open>snprintf\<close> depend on the process locale; they are arguments here: \<open>strtod s\<close>
  gives the value and the number of characters read, \<open>fmt_g fmt x\<close> the text printed for a format.
  The static variable \<open>locale_decimal_point\<close> is the argument \<open>dp\<close>.
\<close>

definition FPCONV_G_FMT_BUFSIZE :: nat where "FPCONV_G_FMT_BUFSIZE = 32"

text \<open>\<open>half\<close> is what \<open>snprintf(buf, 8, "%g", 0.5)\<close> prints; the result is the new decimal point, and
  \<open>None\<close> the call of \<open>abort\<close>.\<close>

definition fpconv_update_locale :: "string \<Rightarrow> char option" where
  "fpconv_update_locale half =
    (let buf = take 7 half @ replicate (8 - length (take 7 half)) NUL
     in if buf ! 0 \<noteq> CHR ''0'' \<or> buf ! 2 \<noteq> CHR ''5'' \<or> buf ! 3 \<noteq> NUL then None
        else Some (buf ! 1))"

definition valid_number_character :: "char \<Rightarrow> bool" where
  "valid_number_character ch =
    (let c = of_char ch :: nat
     in if 48 \<le> c \<and> c \<le> 57 then True
        else if ch = CHR ''-'' \<or> ch = CHR ''+'' \<or> ch = CHR ''.'' then True
        else (let lower_ch = c OR 0x20 in 97 \<le> lower_ch \<and> lower_ch \<le> 121))"

definition strtod_buffer_size :: "string \<Rightarrow> nat" where
  "strtod_buffer_size s = length (takeWhile valid_number_character s)"

text \<open>\<open>strchr(buf, '.')\<close> followed by the store of the locale's decimal point.\<close>

fun set_decimal_point :: "char \<Rightarrow> string \<Rightarrow> string" where
  "set_decimal_point dp [] = []"
| "set_decimal_point dp (c # cs) = (if c = CHR ''.'' then dp # cs else c # set_decimal_point dp cs)"

definition fpconv_strtod :: "char \<Rightarrow> (string \<Rightarrow> 'd \<times> nat) \<Rightarrow> 'd \<Rightarrow> string \<Rightarrow> 'd \<times> nat" where
  "fpconv_strtod dp strtod zero nptr =
    (if dp = CHR ''.'' then strtod nptr
     else
       (let buflen = strtod_buffer_size nptr
        in if buflen = 0 then (zero, 0)
           else strtod (set_decimal_point dp (take buflen nptr))))"

text \<open>The printf format for a precision; \<open>None\<close> is the failed assertion.\<close>

definition set_number_format :: "int \<Rightarrow> string option" where
  "set_number_format precision =
    (if 1 \<le> precision \<and> precision \<le> 14 then
       (let d1 = nat precision div 10; d2 = nat precision mod 10
        in Some (''%.'' @ (if d1 \<noteq> 0 then [char_of (48 + d1)] else []) @ [char_of (48 + d2)] @ ''g''))
     else None)"

text \<open>The characters stored at the target (without the terminator) and the returned length.\<close>

definition fpconv_g_fmt :: "char \<Rightarrow> (string \<Rightarrow> 'd \<Rightarrow> string) \<Rightarrow> 'd \<Rightarrow> int \<Rightarrow> (string \<times> nat) option" where
  "fpconv_g_fmt dp fmt_g num precision =
    (case set_number_format precision of
      None \<Rightarrow> None
    | Some fmt \<Rightarrow>
        (let out = fmt_g fmt num; buf = take (FPCONV_G_FMT_BUFSIZE - 1) out
         in if dp = CHR ''.'' then Some (buf, length out)
            else Some (map (\<lambda>b. if b = dp then CHR ''.'' else b) buf, length out)))"

lemma set_number_format_some: "1 \<le> p \<Longrightarrow> p \<le> 14 \<Longrightarrow> \<exists>f. set_number_format p = Some f"
  by (simp add: set_number_format_def Let_def)

lemma fpconv_g_fmt_some:
  assumes "1 \<le> p" "p \<le> 14" "\<And>f. length (fmt_g f num) < 32"
  shows "\<exists>out. fpconv_g_fmt dp fmt_g num p = Some (out, length out) \<and> length out < 32"
proof -
  obtain f where f: "set_number_format p = Some f"
    using set_number_format_some [OF assms(1,2)] ..
  have "length (fmt_g f num) \<le> 31"
    using assms(3) [of f] by simp
  with f show ?thesis
    by (auto simp: fpconv_g_fmt_def FPCONV_G_FMT_BUFSIZE_def Let_def)
qed

text \<open>The scanned prefix is all \<open>strtod\<close> can see: its length is kept and the decimal point moved.\<close>

lemma length_set_decimal_point [simp]: "length (set_decimal_point dp s) = length s"
  by (induction s) auto

text \<open>Printing through the translation buffer is locale independent: where the library prints the
  locale's decimal point, the result has a dot, every other character is unchanged, and the number of
  characters is the returned length.\<close>

theorem g_fmt_locale_independent:
  assumes "1 \<le> p" "p \<le> 14" "\<forall>f. length (fmt_c f num) < 32"
    and "\<forall>f. fmt_loc f num = map (\<lambda>c. if c = CHR ''.'' then dp else c) (fmt_c f num)"
    and "\<forall>f. dp \<notin> set (fmt_c f num)"
  shows "fpconv_g_fmt dp fmt_loc num p = fpconv_g_fmt (CHR ''.'') fmt_c num p"
proof -
  obtain f where f: "set_number_format p = Some f"
    using set_number_format_some [OF assms(1,2)] ..
  have "map ((\<lambda>b. if b = dp then CHR ''.'' else b) \<circ> (\<lambda>c. if c = CHR ''.'' then dp else c)) (fmt_c f num) = fmt_c f num"
    using assms(5) by (intro map_idI) auto
  moreover have "length (fmt_c f num) \<le> 31"
    using assms(3) [rule_format, of f] by simp
  ultimately show ?thesis
    using f assms(4)
    by (cases "dp = CHR ''.''") (auto simp: fpconv_g_fmt_def Let_def FPCONV_G_FMT_BUFSIZE_def map_idI)
qed

theorem g_fmt_locale_independent_witness:
  "fpconv_g_fmt (CHR '','') (\<lambda>_ _. ''0,5'') (1::nat) 14 = fpconv_g_fmt (CHR ''.'') (\<lambda>_ _. ''0.5'') (1::nat) 14"
  using g_fmt_locale_independent [of 14 "\<lambda>_ _. ''0.5''" "1::nat" "\<lambda>_ _. ''0,5''" "CHR '',''"] by simp

end
