(* ===== verification/Gfmt.thy ===== *)
theory Gfmt
  imports Fpconv Complex_Main
begin

text \<open>
  Printing numbers without the C library, \<^verbatim>\<open>core/lua-cjson/g_fmt.c\<close>, which replaces the function of \<open>Fpconv\<close> when the module is built
  with its own conversions.  The function \<open>dtoa\<close> is an argument: it gives the digits of a number, the place of the
  decimal point (9999 for a number that is not finite) and the sign.  The branches for \<open>IGNORE_ZERO_SIGN\<close>, which no build
  defines, are left out.  Exponents are small, so
  that integers are not bounded here.

  The specification is a reader of decimal numbers; \<open>dtoa_digits\<close> is the documented result of \<open>dtoa\<close>.
\<close>

type_synonym 'd dtoa = "'d \<Rightarrow> nat \<Rightarrow> int \<Rightarrow> string \<times> int \<times> bool"

section \<open>The code\<close>

definition dig :: "nat \<Rightarrow> char" where "dig i = char_of (i + 48)"

text \<open>\<open>for(j = 2, k = 10; 10*k <= decpt; j++, k *= 10);\<close> where \<open>k\<close> is never 0.\<close>

function exp_scale :: "nat \<Rightarrow> nat \<Rightarrow> nat \<Rightarrow> nat \<times> nat" where
  "exp_scale j k d = (if 0 < k \<and> 10 * k \<le> d then exp_scale (j + 1) (k * 10) d else (j, k))"
  by pat_completeness auto
termination by (relation "measure (\<lambda>(j, k, d). d - k)") auto

text \<open>The loop that stores the digits of the exponent.\<close>

function exp_digits :: "nat \<Rightarrow> nat \<Rightarrow> nat \<Rightarrow> string" where
  "exp_digits j k d =
    (let i = d div k; j = j - 1
     in dig i # (if j \<le> 0 then [] else exp_digits j k ((d - i * k) * 10)))"
  by pat_completeness auto
termination by (relation "measure (\<lambda>(j, k, d). j)") auto

declare exp_scale.simps [simp del] exp_digits.simps [simp del]

definition exp_text :: "nat \<Rightarrow> string" where
  "exp_text d = (case exp_scale 2 10 d of (j, k) \<Rightarrow> exp_digits j k d)"

text \<open>The loop that stores the digits of a number without exponent, with the point between; it also gives the
  final value of \<open>decpt\<close>.\<close>

fun fixed_loop :: "string \<Rightarrow> int \<Rightarrow> string \<times> int" where
  "fixed_loop [] decpt = ([], decpt)"
| "fixed_loop (c # s) decpt =
    (let decpt = decpt - 1
     in case fixed_loop s decpt of
       (t, rest) \<Rightarrow> (c # (if decpt = 0 \<and> s \<noteq> [] then CHR ''.'' # t else t), rest))"

text \<open>The text of a finite number without its sign.\<close>

definition g_fmt_digits :: "string \<Rightarrow> int \<Rightarrow> int \<Rightarrow> string" where
  "g_fmt_digits s decpt precision =
    (if decpt \<le> - 4 \<or> decpt > precision then
       take 1 s @ (if drop 1 s \<noteq> [] then CHR ''.'' # drop 1 s else []) @ CHR ''e'' #
       (let decpt = decpt - 1
        in if decpt < 0 then CHR ''-'' # exp_text (nat (- decpt)) else CHR ''+'' # exp_text (nat decpt))
     else if decpt \<le> 0 then ''0.'' @ replicate (nat (- decpt)) (CHR ''0'') @ s
     else (case fixed_loop s decpt of (t, rest) \<Rightarrow> t @ replicate (nat rest) (CHR ''0'')))"

text \<open>The text stored at \<open>b\<close>, without its terminator; the value returned is its length.\<close>

definition g_fmt :: "'d dtoa \<Rightarrow> 'd \<Rightarrow> int \<Rightarrow> string" where
  "g_fmt dtoa x precision =
    (case dtoa x 2 precision of
      (s, decpt, sign) \<Rightarrow>
        (if sign then ''-'' else []) @ (if decpt = 9999 then s else g_fmt_digits s decpt precision))"

section \<open>Reading a number\<close>

definition is_dig :: "char \<Rightarrow> bool" where "is_dig c \<longleftrightarrow> (of_char c :: nat) \<in> {48..57}"

fun dec_from :: "nat \<Rightarrow> string \<Rightarrow> nat" where
  "dec_from n [] = n"
| "dec_from n (c # s) = dec_from (10 * n + (of_char c - 48)) s"

abbreviation dec :: "string \<Rightarrow> nat" where "dec \<equiv> dec_from 0"

fun read_exponent :: "string \<Rightarrow> int option" where
  "read_exponent [] = Some 0"
| "read_exponent (e # sg # ds) =
    (if e = CHR ''e'' \<and> ds \<noteq> [] \<and> list_all is_dig ds
     then (if sg = CHR ''+'' then Some (int (dec ds)) else if sg = CHR ''-'' then Some (- int (dec ds)) else None)
     else None)"
| "read_exponent [_] = None"

definition read_unsigned :: "string \<Rightarrow> rat option" where
  "read_unsigned t =
    (let ip = takeWhile is_dig t; r = dropWhile is_dig t;
         (fp, r) = (case r of [] \<Rightarrow> ([], []) | c # r' \<Rightarrow> if c = CHR ''.'' then (takeWhile is_dig r', dropWhile is_dig r') else ([], r))
     in if ip = [] then None
        else map_option (\<lambda>x. of_nat (dec (ip @ fp)) * 10 powi (x - int (length fp))) (read_exponent r))"

definition read_number :: "string \<Rightarrow> rat option" where
  "read_number t =
    (case t of [] \<Rightarrow> None
     | c # r \<Rightarrow> if c = CHR ''-'' then map_option uminus (read_unsigned r) else read_unsigned t)"

text \<open>What \<open>dtoa\<close> documents for a finite number: at least one digit, at most as many as asked for.\<close>

definition dtoa_digits :: "string \<Rightarrow> int \<Rightarrow> int \<Rightarrow> bool" where
  "dtoa_digits s decpt precision \<longleftrightarrow>
    s \<noteq> [] \<and> list_all is_dig s \<and> int (length s) \<le> precision \<and> decpt \<noteq> 9999"

section \<open>Digits\<close>

lemma is_dig_dig: "i < 10 \<Longrightarrow> is_dig (dig i)" "i < 10 \<Longrightarrow> of_char (dig i) - 48 = i"
  by (simp_all add: is_dig_def dig_def)

lemma is_dig_zero [simp]: "is_dig (CHR ''0'')" "\<not> is_dig (CHR ''.'')" "\<not> is_dig (CHR ''e'')" "\<not> is_dig (CHR ''-'')"
  by (simp_all add: is_dig_def)

lemma dec_from_append: "dec_from n (s @ t) = dec_from (dec_from n s) t"
  by (induction n s rule: dec_from.induct) simp_all

lemma dec_from_start: "dec_from n s = n * 10 ^ length s + dec s"
proof (induction s arbitrary: n)
  case (Cons c s)
  have "dec_from n (c # s) = (10 * n + (of_char c - 48)) * 10 ^ length s + dec s"
    using Cons [of "10 * n + (of_char c - 48)"] by simp
  moreover have "dec (c # s) = (of_char c - 48) * 10 ^ length s + dec s"
    using Cons [of "of_char c - 48"] by simp
  ultimately show ?case by (simp add: algebra_simps)
qed simp

lemma dec_append: "dec (s @ t) = dec s * 10 ^ length t + dec t"
  using dec_from_append [of 0 s t] dec_from_start [of "dec s" t] by simp

lemma dec_zeros [simp]: "dec (replicate n (CHR ''0'')) = 0"
  by (induction n) simp_all

lemma list_all_takeWhile:
  "list_all is_dig s \<Longrightarrow> takeWhile is_dig (s @ t) = s @ takeWhile is_dig t"
  "list_all is_dig s \<Longrightarrow> dropWhile is_dig (s @ t) = dropWhile is_dig t"
  by (simp_all add: takeWhile_append2 dropWhile_append2 list_all_iff)

section \<open>The exponent\<close>

lemma exp_digits_dec:
  assumes "0 < k" "d < 10 * k" "0 < j"
  shows "list_all is_dig (exp_digits j k d) \<and> length (exp_digits j k d) = j \<and> dec (exp_digits j k d) = d * 10 ^ (j - 1) div k"
  using assms
proof (induction j k d rule: exp_digits.induct)
  case (1 j k d)
  let ?i = "d div k" and ?r = "d mod k"
  have i: "?i < 10" using 1 by (simp add: less_mult_imp_div_less)
  have r: "d - ?i * k = ?r" by (simp add: minus_div_mult_eq_mod)
  show ?case
  proof (cases "j = 1")
    case True
    then show ?thesis using i is_dig_dig by (subst (1 2 3) exp_digits.simps) (simp add: Let_def)
  next
    case False
    have IH: "list_all is_dig (exp_digits (j - 1) k (?r * 10))" "length (exp_digits (j - 1) k (?r * 10)) = j - 1"
      "dec (exp_digits (j - 1) k (?r * 10)) = ?r * 10 * 10 ^ (j - 1 - 1) div k"
      using "1.IH" [of ?i "j - 1"] 1(2-4) False r by simp_all
    have e: "exp_digits j k d = dig ?i # exp_digits (j - 1) k (?r * 10)"
      using False 1(4) r by (subst exp_digits.simps) (simp add: Let_def)
    have j: "10 * 10 ^ (j - 1 - 1) = (10 :: nat) ^ (j - 1)"
      using False 1(4) by (cases j) (simp_all flip: power_Suc)
    have "d * 10 ^ (j - 1) div k = (?i * 10 ^ (j - 1) * k + ?r * 10 ^ (j - 1)) div k"
      by (metis (no_types, lifting) add_mult_distrib div_mult_mod_eq mult.assoc mult.commute)
    also have "\<dots> = ?i * 10 ^ (j - 1) + ?r * 10 ^ (j - 1) div k"
      using 1(2) by simp
    finally have "dec (exp_digits j k d) = d * 10 ^ (j - 1) div k"
      using IH is_dig_dig(2) [OF i] dec_from_start [of ?i "exp_digits (j - 1) k (?r * 10)"] j
      by (simp add: e mult.assoc)
    then show ?thesis using IH is_dig_dig(1) [OF i] 1(4) by (simp add: e)
  qed
qed

lemma exp_scale_result:
  assumes "exp_scale j k d = (j', k')" "k = 10 ^ (j - 1)" "0 < j" "k \<le> d \<or> j = 2"
  shows "k' = 10 ^ (j' - 1) \<and> d < 10 * k' \<and> 0 < j' \<and> (k' \<le> d \<or> j' = 2)"
  using assms
proof (induction j k d rule: exp_scale.induct)
  case (1 j k d)
  show ?case
  proof (cases "10 * k \<le> d")
    case True
    have "k * 10 = 10 ^ (j + 1 - 1)" using 1(3,4) by (cases j) simp_all
    moreover have "exp_scale (j + 1) (k * 10) d = (j', k')"
      using 1(2) True 1(3) by (simp add: exp_scale.simps [of j])
    ultimately show ?thesis
      using "1.IH" 1(3) True by (simp del: One_nat_def) (metis mult.commute)
  next
    case False
    then have "j' = j" "k' = k" using 1(2) by (simp_all add: exp_scale.simps [of j])
    then show ?thesis using 1(3-5) False by auto
  qed
qed

lemma exp_text_reads:
  "list_all is_dig (exp_text d)" "exp_text d \<noteq> []" "dec (exp_text d) = d" "d < 1000 \<Longrightarrow> length (exp_text d) \<le> 3"
proof -
  obtain j k where s: "exp_scale 2 10 d = (j, k)" by fastforce
  have k: "k = 10 ^ (j - 1)" "d < 10 * k" "0 < j" "k \<le> d \<or> j = 2"
    using exp_scale_result [OF s] by fastforce+
  have t: "exp_text d = exp_digits j k d" by (simp add: exp_text_def s)
  note e = exp_digits_dec [OF _ k(2,3)]
  show "list_all is_dig (exp_text d)" "dec (exp_text d) = d" "exp_text d \<noteq> []"
    using e k(1,3) t by auto
  assume d: "d < 1000"
  have "j \<le> 3"
  proof (rule ccontr)
    assume j: "\<not> j \<le> 3"
    then have "(10 :: nat) ^ 3 \<le> k" unfolding k(1) by (intro power_increasing) auto
    then show False using k(4) d j by auto
  qed
  then show "length (exp_text d) \<le> 3" using e k(1) t by simp
qed

section \<open>Numbers without exponent\<close>

lemma fixed_loop_short:
  "int (length s) \<le> d \<Longrightarrow> fixed_loop s d = (s, d - int (length s))"
  by (induction s arbitrary: d) (auto simp: Let_def)

lemma fixed_loop_past: "d \<le> 0 \<Longrightarrow> fixed_loop s d = (s, d - int (length s))"
  by (induction s arbitrary: d) (auto simp: Let_def)

lemma fixed_loop_point:
  "0 < d \<Longrightarrow> d < int (length s) \<Longrightarrow>
    fixed_loop s d = (take (nat d) s @ CHR ''.'' # drop (nat d) s, d - int (length s))"
proof (induction s arbitrary: d)
  case (Cons c s)
  show ?case
  proof (cases "d = 1")
    case True
    then show ?thesis using Cons.prems by (auto simp: fixed_loop_past Let_def)
  next
    case False
    then show ?thesis using Cons by (auto simp: Let_def nat_diff_distrib take_Cons' drop_Cons')
  qed
qed simp


section \<open>Properties\<close>

lemma read_unsigned_parts:
  assumes "ip \<noteq> []" "list_all is_dig ip" "list_all is_dig fp" "read_exponent ex = Some x"
    and "ex = [] \<or> (\<exists>r. ex = CHR ''e'' # r)"
  shows "read_unsigned (ip @ (if fp = [] then [] else CHR ''.'' # fp) @ ex) =
      Some (of_nat (dec (ip @ fp)) * 10 powi (x - int (length fp)))"
proof -
  have ex: "takeWhile is_dig ex = []" "dropWhile is_dig ex = ex" using assms(5) by auto
  have "takeWhile is_dig (ip @ (if fp = [] then [] else CHR ''.'' # fp) @ ex) = ip"
    "dropWhile is_dig (ip @ (if fp = [] then [] else CHR ''.'' # fp) @ ex) = (if fp = [] then [] else CHR ''.'' # fp) @ ex"
    using assms(2) ex by (simp_all add: list_all_takeWhile)
  then show ?thesis
    using assms ex by (auto simp: read_unsigned_def Let_def list_all_takeWhile)
qed

lemma read_plain: "ip \<noteq> [] \<Longrightarrow> list_all is_dig ip \<Longrightarrow> read_unsigned ip = Some (of_nat (dec ip))"
  using read_unsigned_parts [of ip "[]" "[]" 0] by simp

lemma read_fraction:
  "ip \<noteq> [] \<Longrightarrow> list_all is_dig ip \<Longrightarrow> fp \<noteq> [] \<Longrightarrow> list_all is_dig fp \<Longrightarrow>
    read_unsigned (ip @ CHR ''.'' # fp) = Some (of_nat (dec (ip @ fp)) * 10 powi (- int (length fp)))"
  using read_unsigned_parts [of ip fp "[]" 0] by simp

lemma g_fmt_exponent_reads:
  assumes "dtoa_digits s decpt p" "decpt \<le> - 4 \<or> decpt > p"
  shows "read_unsigned (g_fmt_digits s decpt p) = Some (of_nat (dec s) * 10 powi (decpt - int (length s)))"
proof -
  obtain c r where s: "s = c # r" "is_dig c" "list_all is_dig r"
    using assms(1) by (cases s) (auto simp: dtoa_digits_def)
  let ?ex = "CHR ''e'' # (if decpt - 1 < 0 then CHR ''-'' # exp_text (nat (- (decpt - 1))) else CHR ''+'' # exp_text (nat (decpt - 1)))"
  have x: "read_exponent ?ex = Some (decpt - 1)"
    using exp_text_reads [of "nat (- (decpt - 1))"] exp_text_reads [of "nat (decpt - 1)"] by simp
  have "g_fmt_digits s decpt p = [c] @ (if r = [] then [] else CHR ''.'' # r) @ ?ex"
    using assms(2) by (simp add: g_fmt_digits_def s)
  then show ?thesis
    using read_unsigned_parts [of "[c]" r ?ex, OF _ _ _ x] s by (simp add: algebra_simps)
qed

lemma g_fmt_digits_reads:
  assumes "dtoa_digits s decpt p"
  shows "read_unsigned (g_fmt_digits s decpt p) = Some (of_nat (dec s) * 10 powi (decpt - int (length s)))"
proof -
  have s: "s \<noteq> []" "list_all is_dig s" using assms by (simp_all add: dtoa_digits_def)
  consider "decpt \<le> - 4 \<or> decpt > p" | "- 4 < decpt" "decpt \<le> p" "decpt \<le> 0"
    | "0 < decpt" "decpt \<le> p" "int (length s) \<le> decpt" | "0 < decpt" "decpt \<le> p" "decpt < int (length s)"
    by linarith
  then show ?thesis
  proof cases
    case 1
    then show ?thesis by (rule g_fmt_exponent_reads [OF assms])
  next
    case 2
    let ?z = "replicate (nat (- decpt)) (CHR ''0'')"
    have "read_unsigned (''0'' @ CHR ''.'' # ?z @ s) = Some (of_nat (dec (''0'' @ ?z @ s)) * 10 powi (- int (length (?z @ s))))"
      by (rule read_fraction) (use s in \<open>auto simp: list_all_iff\<close>)
    then show ?thesis using 2 by (simp add: g_fmt_digits_def dec_append algebra_simps)
  next
    case 3
    let ?z = "replicate (nat (decpt - int (length s))) (CHR ''0'')"
    have "read_unsigned (s @ ?z) = Some (of_nat (dec (s @ ?z)))"
      by (rule read_plain) (use s in \<open>auto simp: list_all_iff\<close>)
    then show ?thesis using 3 by (simp add: g_fmt_digits_def fixed_loop_short dec_append power_int_def)
  next
    case 4
    have "read_unsigned (take (nat decpt) s @ CHR ''.'' # drop (nat decpt) s) =
        Some (of_nat (dec (take (nat decpt) s @ drop (nat decpt) s)) * 10 powi (- int (length (drop (nat decpt) s))))"
      by (rule read_fraction) (use s 4 in \<open>auto simp: list_all_iff dest: in_set_takeD in_set_dropD\<close>)
    then show ?thesis using 4 by (simp add: g_fmt_digits_def fixed_loop_point of_nat_diff nat_le_iff)
  qed
qed

lemma g_fmt_digits_starts: "dtoa_digits s decpt p \<Longrightarrow> \<exists>c r. g_fmt_digits s decpt p = c # r \<and> c \<noteq> CHR ''-''"
  using g_fmt_digits_reads [of s decpt p]
  by (cases "g_fmt_digits s decpt p") (auto simp: read_unsigned_def Let_def split: if_splits)

lemma g_fmt_digits_length:
  assumes "dtoa_digits s decpt p" "\<bar>decpt\<bar> < 999"
  shows "int (length (g_fmt_digits s decpt p)) \<le> p + 6"
proof -
  have len: "int (length s) \<le> p" "0 < length s" using assms(1) by (simp_all add: dtoa_digits_def)
  have e: "length (exp_text (nat (- (decpt - 1)))) \<le> 3" "length (exp_text (nat (decpt - 1))) \<le> 3"
    using assms(2) by (intro exp_text_reads; linarith)+
  consider "decpt \<le> - 4 \<or> decpt > p" | "- 4 < decpt" "decpt \<le> p" "decpt \<le> 0"
    | "0 < decpt" "decpt \<le> p" "int (length s) \<le> decpt" | "0 < decpt" "decpt \<le> p" "decpt < int (length s)"
    by linarith
  then show ?thesis
  proof cases
    case 1
    have "length (g_fmt_digits s decpt p) \<le> length s + 6"
      using 1 e len(2) by (simp add: g_fmt_digits_def Let_def min_def)
    then show ?thesis using len(1) by simp
  next
    case 2
    then show ?thesis using len(1) by (simp add: g_fmt_digits_def)
  next
    case 3
    then show ?thesis using len(1) by (simp add: g_fmt_digits_def fixed_loop_short)
  next
    case 4
    then show ?thesis using len(1) by (simp add: g_fmt_digits_def fixed_loop_point)
  qed
qed

text \<open>C37. Printing a number is exact and stays inside its buffer: the text of a finite number reads back as the sign, the digits
  and the place of the point that \<open>dtoa\<close> gave, whichever of the three forms is chosen, and with a precision the
  module accepts it is shorter than the 32 bytes every caller reserves.\<close>

theorem g_fmt_exact:
  assumes "dtoa x 2 p = (s, decpt, sign)" "dtoa_digits s decpt p" "\<bar>decpt\<bar> < 999" "p \<le> 14"
  shows "read_number (g_fmt dtoa x p) = Some ((if sign then - 1 else 1) * of_nat (dec s) * 10 powi (decpt - int (length s))) \<and>
    length (g_fmt dtoa x p) < FPCONV_G_FMT_BUFSIZE"
proof -
  have g: "g_fmt dtoa x p = (if sign then ''-'' else []) @ g_fmt_digits s decpt p"
    using assms(1,2) by (simp add: g_fmt_def dtoa_digits_def)
  obtain c r where "g_fmt_digits s decpt p = c # r" "c \<noteq> CHR ''-''"
    using g_fmt_digits_starts [OF assms(2)] by blast
  then show ?thesis
    using g_fmt_digits_reads [OF assms(2)] g_fmt_digits_length [OF assms(2,3)] assms(4)
    by (auto simp: g read_number_def FPCONV_G_FMT_BUFSIZE_def)
qed

theorem g_fmt_exact_witness:
  "read_number (g_fmt (\<lambda>_ _ _. (''125'', 17, True)) (0 :: nat) 14) = Some (- 125 * 10 ^ 14) \<and>
    g_fmt (\<lambda>_ _ _. (''125'', 17, True)) (0 :: nat) 14 = ''-1.25e+16''"
  using g_fmt_exact [of "\<lambda>_ _ _. (''125'', 17, True)" "0 :: nat" 14 "''125''" 17 True]
  by (simp add: g_fmt_def g_fmt_digits_def exp_text_def exp_scale.simps exp_digits.simps dig_def char_of_def bit_0 dtoa_digits_def is_dig_def Let_def)

end
