(* ===== verification/Cjson.thy ===== *)
theory Cjson
  imports Fpconv
begin

text \<open>
  Lua values, the configuration and the encoder of \<^verbatim>\<open>core/lua-cjson/lua_cjson.c\<close>.

  A Lua value is a \<open>'d lval\<close> over a type \<open>'d\<close> of doubles.  Tables live in a heap and are named by
  their index in it, so a table may contain itself; the entries of a table are listed in the order
  \<open>lua_next\<close> visits them.  The parts of Lua and of the C library the code calls are fields of the
  record \<open>lua_api\<close>, an argument of every function.  A raised Lua error is the outcome \<open>Throw msg s\<close>
  with the buffer as it is at the \<open>longjmp\<close>.
\<close>

section \<open>Lua values and the calls into Lua\<close>

datatype 'd lval =
    LNil
  | LBool bool
  | LLightUserdata nat
  | LNumber 'd
  | LString string
  | LTable nat
  | LFunction nat
  | LUserdata nat
  | LThread nat

type_synonym 'd table = "('d lval \<times> 'd lval) list"
type_synonym 'd heap = "'d table list"

text \<open>\<open>d_integral k\<close> is \<open>floor(k) == k\<close>, \<open>d_ge1 k\<close> is \<open>k >= 1\<close> (so that \<open>k\<close> is not zero), \<open>d_toint\<close> the
  conversion of a double to \<open>int\<close>; \<open>lua_checkstack depth\<close> tells whether the stack can still grow.\<close>

record 'd lua_api =
  d_isinf :: "'d \<Rightarrow> bool"
  d_isnan :: "'d \<Rightarrow> bool"
  d_integral :: "'d \<Rightarrow> bool"
  d_ge1 :: "'d \<Rightarrow> bool"
  d_toint :: "'d \<Rightarrow> int"
  d_of_int :: "int \<Rightarrow> 'd"
  d_zero :: 'd
  c_strtod :: "string \<Rightarrow> 'd \<times> nat"
  c_fmt_g :: "string \<Rightarrow> 'd \<Rightarrow> string"
  locale_decimal_point :: char
  luaL_checkinteger :: "'d lval \<Rightarrow> int option"
  luaL_checkstring :: "'d lval \<Rightarrow> string option"
  lua_checkstack :: "nat \<Rightarrow> bool"

definition lua_typename :: "'d lval \<Rightarrow> string" where
  "lua_typename v =
    (case v of
      LNil \<Rightarrow> ''nil'' | LBool _ \<Rightarrow> ''boolean'' | LLightUserdata _ \<Rightarrow> ''userdata''
    | LNumber _ \<Rightarrow> ''number'' | LString _ \<Rightarrow> ''string'' | LTable _ \<Rightarrow> ''table''
    | LFunction _ \<Rightarrow> ''function'' | LUserdata _ \<Rightarrow> ''userdata'' | LThread _ \<Rightarrow> ''thread'')"

definition table_at :: "'d heap \<Rightarrow> nat \<Rightarrow> 'd table" where
  "table_at h a = (if a < length h then h ! a else [])"

definition key_is_int :: "'d lua_api \<Rightarrow> 'd lval \<Rightarrow> int \<Rightarrow> bool" where
  "key_is_int api k i = (case k of LNumber d \<Rightarrow> d_integral api d \<and> d_toint api d = i | _ \<Rightarrow> False)"

definition lua_rawgeti :: "'d lua_api \<Rightarrow> 'd table \<Rightarrow> int \<Rightarrow> 'd lval" where
  "lua_rawgeti api t i =
    (case find (\<lambda>(k, v). key_is_int api k i) t of None \<Rightarrow> LNil | Some (k, v) \<Rightarrow> v)"

text \<open>Decimal numbers in messages.\<close>

fun dec_digits :: "nat \<Rightarrow> string" where
  "dec_digits n = (if n < 10 then [char_of (48 + n)] else dec_digits (n div 10) @ [char_of (48 + n mod 10)])"

declare dec_digits.simps [simp del]

definition show_int :: "int \<Rightarrow> string" where
  "show_int i = (if i < 0 then CHR ''-'' # dec_digits (nat (- i)) else dec_digits (nat i))"

text \<open>\<open>luaL_argerror\<close>; the name of the called function, which Lua adds, is left out.\<close>

definition argerror :: "nat \<Rightarrow> string \<Rightarrow> string" where
  "argerror n msg = ''bad argument #'' @ dec_digits n @ '' ('' @ msg @ '')''"

section \<open>Configuration\<close>

datatype json_token_type_t =
    T_OBJ_BEGIN | T_OBJ_END | T_ARR_BEGIN | T_ARR_END | T_STRING | T_NUMBER | T_BOOLEAN
  | T_NULL | T_COLON | T_COMMA | T_END | T_WHITESPACE | T_ERROR | T_UNKNOWN

definition json_token_type_name :: "json_token_type_t \<Rightarrow> string" where
  "json_token_type_name t =
    (case t of
      T_OBJ_BEGIN \<Rightarrow> ''T_OBJ_BEGIN'' | T_OBJ_END \<Rightarrow> ''T_OBJ_END''
    | T_ARR_BEGIN \<Rightarrow> ''T_ARR_BEGIN'' | T_ARR_END \<Rightarrow> ''T_ARR_END''
    | T_STRING \<Rightarrow> ''T_STRING'' | T_NUMBER \<Rightarrow> ''T_NUMBER'' | T_BOOLEAN \<Rightarrow> ''T_BOOLEAN''
    | T_NULL \<Rightarrow> ''T_NULL'' | T_COLON \<Rightarrow> ''T_COLON'' | T_COMMA \<Rightarrow> ''T_COMMA'' | T_END \<Rightarrow> ''T_END''
    | T_WHITESPACE \<Rightarrow> ''T_WHITESPACE'' | T_ERROR \<Rightarrow> ''T_ERROR'' | T_UNKNOWN \<Rightarrow> ''T_UNKNOWN'')"

record json_config_t =
  ch2token :: "char \<Rightarrow> json_token_type_t"
  escape2char :: "char \<Rightarrow> char"
  encode_buf :: Lstrbuf_t
  encode_sparse_convert :: int
  encode_sparse_ratio :: int
  encode_sparse_safe :: int
  encode_max_depth :: int
  encode_invalid_numbers :: int
  encode_number_precision :: int
  encode_keep_buffer :: int
  decode_invalid_numbers :: int
  decode_max_depth :: int

definition BSL :: char where "BSL = CHR 0x5C"
definition DQUOTE :: char where "DQUOTE = CHR 0x22"

text \<open>The table \<open>char2escape\<close>: the characters that are written as an escape.\<close>

definition hex_lower :: "nat \<Rightarrow> char" where
  "hex_lower n = ''0123456789abcdef'' ! n"

definition char2escape :: "char \<Rightarrow> string option" where
  "char2escape c =
    (if c = CHR 0x08 then Some [BSL, CHR ''b'']
     else if c = CHR 0x09 then Some [BSL, CHR ''t'']
     else if c = CHR 0x0A then Some [BSL, CHR ''n'']
     else if c = CHR 0x0C then Some [BSL, CHR ''f'']
     else if c = CHR 0x0D then Some [BSL, CHR ''r'']
     else if c = DQUOTE then Some [BSL, DQUOTE]
     else if c = CHR ''/'' then Some [BSL, CHR ''/'']
     else if c = BSL then Some [BSL, BSL]
     else if (of_char c :: nat) < 32 \<or> (of_char c :: nat) = 127
       then Some (BSL # ''u00'' @ [hex_lower (of_char c div 16), hex_lower (of_char c mod 16)])
     else None)"

text \<open>Arguments of a configuration function: too many are an error, missing ones are nil.\<close>

definition json_arg_init :: "'d lval list \<Rightarrow> nat \<Rightarrow> string + 'd lval list" where
  "json_arg_init args n =
    (if length args \<le> n then Inr (args @ replicate (n - length args) LNil)
     else Inl (argerror (n + 1) ''found too many arguments''))"

definition INT_MAX :: int where "INT_MAX = 2147483647"

text \<open>The conversion of a \<open>lua_Integer\<close> to \<open>int\<close>.\<close>

definition to_c_int :: "int \<Rightarrow> int" where
  "to_c_int i = sint (word_of_int i :: u32)"

text \<open>The new value of the setting, or the error raised.\<close>

definition json_integer_option :: "'d lua_api \<Rightarrow> 'd lval \<Rightarrow> int \<Rightarrow> int \<Rightarrow> int \<Rightarrow> string + int" where
  "json_integer_option api arg setting mn mx =
    (if arg = LNil then Inr setting
     else
       (case luaL_checkinteger api arg of
         None \<Rightarrow> Inl ''number has no integer representation''
       | Some i \<Rightarrow>
           (let v = to_c_int i
            in if mn \<le> v \<and> v \<le> mx then Inr v
               else Inl (argerror 1 (take 63 (''expected integer between '' @ show_int mn @ '' and '' @ show_int mx))))))"

text \<open>\<open>luaL_checkoption\<close> without a default: the position of the string in the list of options.\<close>

fun option_index :: "string \<Rightarrow> string list \<Rightarrow> int \<Rightarrow> int option" where
  "option_index s [] i = None"
| "option_index s (x # xs) i = (if s = x then Some i else option_index s xs (i + 1))"

definition json_enum_option :: "'d lua_api \<Rightarrow> 'd lval \<Rightarrow> int \<Rightarrow> string list option \<Rightarrow> int \<Rightarrow> string + int" where
  "json_enum_option api arg setting options bool_true =
    (let opts = (case options of None \<Rightarrow> [''off'', ''on''] | Some os \<Rightarrow> os);
         bt = (case options of None \<Rightarrow> 1 | Some _ \<Rightarrow> bool_true)
     in if arg = LNil then Inr setting
        else
          (case arg of
            LBool b \<Rightarrow>
              if bt \<noteq> 0 then Inr ((if b then 1 else 0) * bt) else Inl ''string expected''
          | _ \<Rightarrow>
              (case luaL_checkstring api arg of
                None \<Rightarrow> Inl ''string expected''
              | Some s \<Rightarrow>
                  (case option_index s opts 0 of
                    None \<Rightarrow> Inl (''invalid option '' @ s)
                  | Some i \<Rightarrow> Inr i))))"

text \<open>What the option functions push as their result.\<close>

definition enum_result :: "int \<Rightarrow> string list option \<Rightarrow> int \<Rightarrow> 'd lval" where
  "enum_result setting options bool_true =
    (let opts = (case options of None \<Rightarrow> [''off'', ''on''] | Some os \<Rightarrow> os);
         bt = (case options of None \<Rightarrow> 1 | Some _ \<Rightarrow> bool_true)
     in if bt \<noteq> 0 \<and> (setting = 0 \<or> setting = bt) then LBool (setting \<noteq> 0)
        else LString (opts ! nat setting))"

type_synonym cfg_result = "json_config_t lres"

definition of_setting :: "json_config_t \<Rightarrow> string + int \<Rightarrow> (int \<Rightarrow> json_config_t) \<Rightarrow> cfg_result" where
  "of_setting cfg r f = (case r of Inl m \<Rightarrow> Throw m cfg | Inr v \<Rightarrow> Ok (f v))"

definition json_cfg_encode_sparse_array :: "'d lua_api \<Rightarrow> json_config_t \<Rightarrow> 'd lval list \<Rightarrow> cfg_result" where
  "json_cfg_encode_sparse_array api cfg args =
    (case json_arg_init args 3 of
      Inl m \<Rightarrow> Throw m cfg
    | Inr a \<Rightarrow>
        lbind (of_setting cfg (json_enum_option api (a ! 0) (encode_sparse_convert cfg) None 1)
                (\<lambda>v. cfg\<lparr>encode_sparse_convert := v\<rparr>))
          (\<lambda>cfg. lbind (of_setting cfg (json_integer_option api (a ! 1) (encode_sparse_ratio cfg) 0 INT_MAX)
                (\<lambda>v. cfg\<lparr>encode_sparse_ratio := v\<rparr>))
            (\<lambda>cfg. of_setting cfg (json_integer_option api (a ! 2) (encode_sparse_safe cfg) 0 INT_MAX)
                (\<lambda>v. cfg\<lparr>encode_sparse_safe := v\<rparr>))))"

definition json_cfg_encode_max_depth :: "'d lua_api \<Rightarrow> json_config_t \<Rightarrow> 'd lval list \<Rightarrow> cfg_result" where
  "json_cfg_encode_max_depth api cfg args =
    (case json_arg_init args 1 of
      Inl m \<Rightarrow> Throw m cfg
    | Inr a \<Rightarrow> of_setting cfg (json_integer_option api (a ! 0) (encode_max_depth cfg) 1 INT_MAX)
        (\<lambda>v. cfg\<lparr>encode_max_depth := v\<rparr>))"

definition json_cfg_decode_max_depth :: "'d lua_api \<Rightarrow> json_config_t \<Rightarrow> 'd lval list \<Rightarrow> cfg_result" where
  "json_cfg_decode_max_depth api cfg args =
    (case json_arg_init args 1 of
      Inl m \<Rightarrow> Throw m cfg
    | Inr a \<Rightarrow> of_setting cfg (json_integer_option api (a ! 0) (decode_max_depth cfg) 1 INT_MAX)
        (\<lambda>v. cfg\<lparr>decode_max_depth := v\<rparr>))"

definition json_cfg_encode_number_precision :: "'d lua_api \<Rightarrow> json_config_t \<Rightarrow> 'd lval list \<Rightarrow> cfg_result" where
  "json_cfg_encode_number_precision api cfg args =
    (case json_arg_init args 1 of
      Inl m \<Rightarrow> Throw m cfg
    | Inr a \<Rightarrow> of_setting cfg (json_integer_option api (a ! 0) (encode_number_precision cfg) 1 14)
        (\<lambda>v. cfg\<lparr>encode_number_precision := v\<rparr>))"

text \<open>The comparison of the old and the new setting is the C expression \<open>old_value ^ new\<close>.\<close>

definition json_cfg_encode_keep_buffer :: "'d lua_api \<Rightarrow> json_config_t \<Rightarrow> 'd lval list \<Rightarrow> cfg_result" where
  "json_cfg_encode_keep_buffer api cfg args =
    (case json_arg_init args 1 of
      Inl m \<Rightarrow> Throw m cfg
    | Inr a \<Rightarrow>
        (case json_enum_option api (a ! 0) (encode_keep_buffer cfg) None 1 of
          Inl m \<Rightarrow> Throw m cfg
        | Inr v \<Rightarrow>
            (let old_value = encode_keep_buffer cfg; cfg = cfg\<lparr>encode_keep_buffer := v\<rparr>
             in if old_value XOR v \<noteq> 0 then
                  (if v \<noteq> 0 then
                     (case Lstrbuf_init 0 of
                       Ok b \<Rightarrow> Ok (cfg\<lparr>encode_buf := b\<rparr>)
                     | Throw m b \<Rightarrow> Throw m (cfg\<lparr>encode_buf := b\<rparr>)
                     | Fault e \<Rightarrow> Fault e)
                   else Ok (cfg\<lparr>encode_buf := Lstrbuf_free (encode_buf cfg)\<rparr>))
                else Ok cfg)))"

definition json_cfg_encode_invalid_numbers :: "'d lua_api \<Rightarrow> json_config_t \<Rightarrow> 'd lval list \<Rightarrow> cfg_result" where
  "json_cfg_encode_invalid_numbers api cfg args =
    (case json_arg_init args 1 of
      Inl m \<Rightarrow> Throw m cfg
    | Inr a \<Rightarrow> of_setting cfg
        (json_enum_option api (a ! 0) (encode_invalid_numbers cfg) (Some [''off'', ''on'', ''null'']) 1)
        (\<lambda>v. cfg\<lparr>encode_invalid_numbers := v\<rparr>))"

definition json_cfg_decode_invalid_numbers :: "'d lua_api \<Rightarrow> json_config_t \<Rightarrow> 'd lval list \<Rightarrow> cfg_result" where
  "json_cfg_decode_invalid_numbers api cfg args =
    (case json_arg_init args 1 of
      Inl m \<Rightarrow> Throw m cfg
    | Inr a \<Rightarrow> of_setting cfg (json_enum_option api (a ! 0) (decode_invalid_numbers cfg) None 1)
        (\<lambda>v. cfg\<lparr>decode_invalid_numbers := v\<rparr>))"

definition json_destroy_config :: "json_config_t \<Rightarrow> json_config_t" where
  "json_destroy_config cfg = cfg\<lparr>encode_buf := Lstrbuf_free (encode_buf cfg)\<rparr>"

definition default_ch2token :: "char \<Rightarrow> json_token_type_t" where
  "default_ch2token c =
    (if c = CHR ''{'' then T_OBJ_BEGIN
     else if c = CHR ''}'' then T_OBJ_END
     else if c = CHR ''['' then T_ARR_BEGIN
     else if c = CHR '']'' then T_ARR_END
     else if c = CHR '','' then T_COMMA
     else if c = CHR '':'' then T_COLON
     else if c = NUL then T_END
     else if c = CHR '' '' \<or> c = CHR 0x09 \<or> c = CHR 0x0A \<or> c = CHR 0x0D then T_WHITESPACE
     else if c \<in> set ''fiInNt+-0123456789'' \<or> c = DQUOTE then T_UNKNOWN
     else T_ERROR)"

definition default_escape2char :: "char \<Rightarrow> char" where
  "default_escape2char c =
    (if c = DQUOTE then DQUOTE
     else if c = BSL then BSL
     else if c = CHR ''/'' then CHR ''/''
     else if c = CHR ''b'' then CHR 0x08
     else if c = CHR ''t'' then CHR 0x09
     else if c = CHR ''n'' then CHR 0x0A
     else if c = CHR ''f'' then CHR 0x0C
     else if c = CHR ''r'' then CHR 0x0D
     else if c = CHR ''u'' then CHR ''u''
     else NUL)"

definition json_create_config :: "cfg_result" where
  "json_create_config =
    (case Lstrbuf_init 0 of
      Ok b \<Rightarrow> Ok \<lparr>ch2token = default_ch2token, escape2char = default_escape2char, encode_buf = b,
        encode_sparse_convert = 0, encode_sparse_ratio = 2, encode_sparse_safe = 10,
        encode_max_depth = 1000, encode_invalid_numbers = 0, encode_number_precision = 14,
        encode_keep_buffer = 1, decode_invalid_numbers = 1, decode_max_depth = 1000\<rparr>
    | Throw m b \<Rightarrow> Fault NullPointer
    | Fault e \<Rightarrow> Fault e)"

end
