(* ===== verification/Cjson_Encode.thy ===== *)
theory Cjson_Encode
  imports Cjson
begin

text \<open>
  The encoder of \<^verbatim>\<open>core/lua-cjson/lua_cjson.c\<close> (\<open>json_append_*\<close>, \<open>json_encode\<close>): it walks a Lua
  value, which may be cyclic, and writes JSON text into a string buffer.  The abstract
  specification \<open>enc_data\<close> gives the text alone; the buffer code refines it, and no input makes it
  store outside its buffer or run forever.
\<close>

section \<open>Definitions\<close>

definition json_encode_exception :: "json_config_t \<Rightarrow> Lstrbuf_t \<Rightarrow> 'd lval \<Rightarrow> string \<Rightarrow> Lstrbuf_t lres" where
  "json_encode_exception cfg json v reason =
    Throw (''Cannot serialise '' @ lua_typename v @ '': '' @ reason)
      (if encode_keep_buffer cfg = 0 then Lstrbuf_free json else json)"

definition append_escaped :: "char \<Rightarrow> Lstrbuf_t \<Rightarrow> Lstrbuf_t lres" where
  "append_escaped c json =
    (case char2escape c of
      Some escstr \<Rightarrow> Lstrbuf_append_string json escstr
    | None \<Rightarrow> Lstrbuf_append_char_unsafe json c)"

fun append_escaped_all :: "string \<Rightarrow> Lstrbuf_t \<Rightarrow> Lstrbuf_t lres" where
  "append_escaped_all [] json = Ok json"
| "append_escaped_all (c # cs) json = lbind (append_escaped c json) (append_escaped_all cs)"

definition json_append_string :: "Lstrbuf_t \<Rightarrow> string \<Rightarrow> Lstrbuf_t lres" where
  "json_append_string json str =
    lbind (Lstrbuf_ensure_empty_length json (int (length str) * 6 + 2))
      (\<lambda>json. lbind (Lstrbuf_append_char_unsafe json DQUOTE)
        (\<lambda>json. lbind (append_escaped_all str json)
          (\<lambda>json. Lstrbuf_append_char_unsafe json DQUOTE)))"

text \<open>The scan of the keys: \<open>None\<close> when a key is no positive integer, else the largest key and the
  number of keys.\<close>

fun array_scan :: "'d lua_api \<Rightarrow> 'd table \<Rightarrow> int \<Rightarrow> int \<Rightarrow> (int \<times> int) option" where
  "array_scan api [] mx items = Some (mx, items)"
| "array_scan api ((k, v) # t) mx items =
    (case k of
      LNumber d \<Rightarrow>
        if d_integral api d \<and> d_ge1 api d
        then array_scan api t (if mx < d_toint api d then d_toint api d else mx) (items + 1)
        else None
    | _ \<Rightarrow> None)"

definition lua_array_length :: "'d lua_api \<Rightarrow> json_config_t \<Rightarrow> 'd lval \<Rightarrow> 'd table \<Rightarrow> Lstrbuf_t \<Rightarrow> Lstrbuf_t lres + int" where
  "lua_array_length api cfg v t json =
    (case array_scan api t 0 0 of
      None \<Rightarrow> Inr (-1)
    | Some (mx, items) \<Rightarrow>
        if 0 < encode_sparse_ratio cfg \<and> items * encode_sparse_ratio cfg < mx \<and> encode_sparse_safe cfg < mx
        then (if encode_sparse_convert cfg = 0
              then Inl (json_encode_exception cfg json v ''excessively sparse array'')
              else Inr (-1))
        else Inr mx)"

definition json_check_encode_depth :: "'d lua_api \<Rightarrow> json_config_t \<Rightarrow> nat \<Rightarrow> Lstrbuf_t \<Rightarrow> Lstrbuf_t lres" where
  "json_check_encode_depth api cfg current_depth json =
    (if int current_depth \<le> encode_max_depth cfg \<and> lua_checkstack api current_depth then Ok json
     else Throw (''Cannot serialise, excessive nesting ('' @ dec_digits current_depth @ '')'')
       (if encode_keep_buffer cfg = 0 then Lstrbuf_free json else json))"

text \<open>The store of the printed number is at the end of the buffer, in the 32 bytes reserved before.\<close>

definition json_append_number :: "'d lua_api \<Rightarrow> json_config_t \<Rightarrow> Lstrbuf_t \<Rightarrow> 'd \<Rightarrow> Lstrbuf_t lres" where
  "json_append_number api cfg json num =
    (if encode_invalid_numbers cfg = 0 \<and> (d_isinf api num \<or> d_isnan api num)
     then json_encode_exception cfg json (LNumber num) ''must not be NaN or Inf''
     else if encode_invalid_numbers cfg = 1 \<and> d_isnan api num
     then Lstrbuf_append_mem json ''nan''
     else if encode_invalid_numbers cfg \<noteq> 0 \<and> encode_invalid_numbers cfg \<noteq> 1 \<and> (d_isinf api num \<or> d_isnan api num)
     then Lstrbuf_append_mem json ''null''
     else
       lbind (Lstrbuf_ensure_empty_length json (int FPCONV_G_FMT_BUFSIZE))
         (\<lambda>json.
           case fpconv_g_fmt (locale_decimal_point api) (c_fmt_g api) num (encode_number_precision cfg) of
             None \<Rightarrow> Fault (Die ''assertion failed'')
           | Some (out, len) \<Rightarrow>
               lbind (sb_write json (sb_length json) (out @ [NUL])) (\<lambda>json. Ok (Lstrbuf_extend_length json len))))"

text \<open>The key of an object entry and the colon.\<close>

definition append_key :: "'d lua_api \<Rightarrow> json_config_t \<Rightarrow> Lstrbuf_t \<Rightarrow> 'd lval \<Rightarrow> Lstrbuf_t lres" where
  "append_key api cfg json k =
    (case k of
      LNumber d \<Rightarrow>
        lbind (Lstrbuf_append_char json DQUOTE)
          (\<lambda>json. lbind (json_append_number api cfg json d) (\<lambda>json. Lstrbuf_append_mem json [DQUOTE, CHR '':'']))
    | LString s \<Rightarrow> lbind (json_append_string json s) (\<lambda>json. Lstrbuf_append_char json (CHR '':''))
    | _ \<Rightarrow> json_encode_exception cfg json k ''table key must be a number or string'')"

definition append_comma :: "bool \<Rightarrow> Lstrbuf_t \<Rightarrow> Lstrbuf_t lres" where
  "append_comma comma json = (if comma then Lstrbuf_append_char json (CHR '','') else Ok json)"

lemma lbind_cong [fundef_cong]:
  "m = m' \<Longrightarrow> (\<And>s. m' = Ok s \<Longrightarrow> f s = g s) \<Longrightarrow> lbind m f = lbind m' g"
  by (cases m') auto

lemma json_check_encode_depth_Ok:
  "json_check_encode_depth api cfg d json = Ok json' \<Longrightarrow> d \<le> nat (encode_max_depth cfg) \<and> json' = json"
  by (auto simp: json_check_encode_depth_def split: if_splits)

text \<open>\<open>json_append_data\<close> and the loops of \<open>json_append_array\<close> and \<open>json_append_object\<close>.  A table is
  entered one level deeper, and only while the depth limit allows: that is what ends the walk of a
  cyclic table.\<close>

function json_append_data ::
    "'d lua_api \<Rightarrow> json_config_t \<Rightarrow> 'd heap \<Rightarrow> nat \<Rightarrow> 'd lval \<Rightarrow> Lstrbuf_t \<Rightarrow> Lstrbuf_t lres"
  and json_append_array ::
    "'d lua_api \<Rightarrow> json_config_t \<Rightarrow> 'd heap \<Rightarrow> nat \<Rightarrow> 'd table \<Rightarrow> int \<Rightarrow> int \<Rightarrow> bool \<Rightarrow> Lstrbuf_t \<Rightarrow> Lstrbuf_t lres"
  and json_append_object ::
    "'d lua_api \<Rightarrow> json_config_t \<Rightarrow> 'd heap \<Rightarrow> nat \<Rightarrow> 'd table \<Rightarrow> bool \<Rightarrow> Lstrbuf_t \<Rightarrow> Lstrbuf_t lres"
where
  "json_append_data api cfg h depth v json =
    (case v of
      LString s \<Rightarrow> json_append_string json s
    | LNumber d \<Rightarrow> json_append_number api cfg json d
    | LBool b \<Rightarrow> Lstrbuf_append_mem json (if b then ''true'' else ''false'')
    | LTable a \<Rightarrow>
        (case json_check_encode_depth api cfg (Suc depth) json of
          Ok json \<Rightarrow>
            (case lua_array_length api cfg v (table_at h a) json of
              Inl r \<Rightarrow> r
            | Inr len \<Rightarrow>
                if 0 < len then
                  lbind (Lstrbuf_append_char json (CHR ''[''))
                    (\<lambda>json. lbind (json_append_array api cfg h (Suc depth) (table_at h a) 1 len False json)
                      (\<lambda>json. Lstrbuf_append_char json (CHR '']'')))
                else
                  lbind (Lstrbuf_append_char json (CHR ''{''))
                    (\<lambda>json. lbind (json_append_object api cfg h (Suc depth) (table_at h a) False json)
                      (\<lambda>json. Lstrbuf_append_char json (CHR ''}''))))
        | Throw m j \<Rightarrow> Throw m j
        | Fault e \<Rightarrow> Fault e)
    | LNil \<Rightarrow> Lstrbuf_append_mem json ''null''
    | LLightUserdata p \<Rightarrow>
        if p = 0 then Lstrbuf_append_mem json ''null''
        else json_encode_exception cfg json v ''type not supported''
    | _ \<Rightarrow> json_encode_exception cfg json v ''type not supported'')"
| "json_append_array api cfg h depth t i len comma json =
    (if i \<le> len then
       lbind (append_comma comma json)
         (\<lambda>json. lbind (json_append_data api cfg h depth (lua_rawgeti api t i) json)
           (\<lambda>json. json_append_array api cfg h depth t (i + 1) len True json))
     else Ok json)"
| "json_append_object api cfg h depth [] comma json = Ok json"
| "json_append_object api cfg h depth ((k, v) # t) comma json =
    lbind (append_comma comma json)
      (\<lambda>json. lbind (append_key api cfg json k)
        (\<lambda>json. lbind (json_append_data api cfg h depth v json)
          (\<lambda>json. json_append_object api cfg h depth t True json)))"
  by pat_completeness auto

termination
  by (relation "measures [
        (\<lambda>x. case x of Inl (_, cfg, _, d, _, _) \<Rightarrow> nat (encode_max_depth cfg) - d
              | Inr (Inl (_, cfg, _, d, _, _, _, _, _)) \<Rightarrow> nat (encode_max_depth cfg) - d
              | Inr (Inr (_, cfg, _, d, _, _, _)) \<Rightarrow> nat (encode_max_depth cfg) - d),
        (\<lambda>x. case x of Inl _ \<Rightarrow> 0 | _ \<Rightarrow> 1),
        (\<lambda>x. case x of Inl _ \<Rightarrow> 0
              | Inr (Inl (_, _, _, _, _, i, len, _, _)) \<Rightarrow> nat (len + 1 - i)
              | Inr (Inr (_, _, _, _, t, _, _)) \<Rightarrow> length t)]")
    (auto dest!: json_check_encode_depth_Ok)

declare json_append_data.simps [simp del] json_append_array.simps [simp del]

text \<open>\<open>json_encode\<close>: the pushed string and the configuration, whose buffer is the one written when it
  is kept.\<close>

definition json_encode :: "'d lua_api \<Rightarrow> json_config_t \<Rightarrow> 'd heap \<Rightarrow> 'd lval list \<Rightarrow> (json_config_t \<times> string) lres" where
  "json_encode api cfg h args =
    (case args of
      [v] \<Rightarrow>
        if encode_keep_buffer cfg = 0 then
          (case Lstrbuf_init 0 of
            Ok b \<Rightarrow>
              (case json_append_data api cfg h 0 v b of
                Ok b \<Rightarrow> Ok (cfg, Lstrbuf_string b)
              | Throw m b \<Rightarrow> Throw m (cfg, [])
              | Fault e \<Rightarrow> Fault e)
          | Throw m b \<Rightarrow> Fault NullPointer
          | Fault e \<Rightarrow> Fault e)
        else
          (case json_append_data api cfg h 0 v (Lstrbuf_reset (encode_buf cfg)) of
            Ok b \<Rightarrow> Ok (cfg\<lparr>encode_buf := b\<rparr>, Lstrbuf_string b)
          | Throw m b \<Rightarrow> Throw m (cfg\<lparr>encode_buf := b\<rparr>, [])
          | Fault e \<Rightarrow> Fault e)
    | _ \<Rightarrow> Throw (argerror 1 ''expected 1 argument'') (cfg, []))"

section \<open>Specification: the text alone\<close>

definition escape_char :: "char \<Rightarrow> string" where
  "escape_char c = (case char2escape c of Some e \<Rightarrow> e | None \<Rightarrow> [c])"

definition quoted :: "string \<Rightarrow> string" where
  "quoted s = [DQUOTE] @ concat (map escape_char s) @ [DQUOTE]"

text \<open>Texts one after the other; the first error wins.\<close>

definition cat :: "string + string \<Rightarrow> (string + string) \<Rightarrow> string + string" where
  "cat a b = (case a of Inl m \<Rightarrow> Inl m | Inr s \<Rightarrow> (case b of Inl m \<Rightarrow> Inl m | Inr t \<Rightarrow> Inr (s @ t)))"

definition enc_exception :: "'d lval \<Rightarrow> string \<Rightarrow> string + string" where
  "enc_exception v reason = Inl (''Cannot serialise '' @ lua_typename v @ '': '' @ reason)"

definition enc_number :: "'d lua_api \<Rightarrow> json_config_t \<Rightarrow> 'd \<Rightarrow> string + string" where
  "enc_number api cfg num =
    (if encode_invalid_numbers cfg = 0 \<and> (d_isinf api num \<or> d_isnan api num)
     then enc_exception (LNumber num) ''must not be NaN or Inf''
     else if encode_invalid_numbers cfg = 1 \<and> d_isnan api num then Inr ''nan''
     else if encode_invalid_numbers cfg \<noteq> 0 \<and> encode_invalid_numbers cfg \<noteq> 1 \<and> (d_isinf api num \<or> d_isnan api num)
     then Inr ''null''
     else Inr (fst (the (fpconv_g_fmt (locale_decimal_point api) (c_fmt_g api) num (encode_number_precision cfg)))))"

definition enc_key :: "'d lua_api \<Rightarrow> json_config_t \<Rightarrow> 'd lval \<Rightarrow> string + string" where
  "enc_key api cfg k =
    (case k of
      LNumber d \<Rightarrow> cat (Inr [DQUOTE]) (cat (enc_number api cfg d) (Inr [DQUOTE, CHR '':'']))
    | LString s \<Rightarrow> Inr (quoted s @ '':'')
    | _ \<Rightarrow> enc_exception k ''table key must be a number or string'')"

definition enc_array_length :: "'d lua_api \<Rightarrow> json_config_t \<Rightarrow> 'd lval \<Rightarrow> 'd table \<Rightarrow> string + int" where
  "enc_array_length api cfg v t =
    (case array_scan api t 0 0 of
      None \<Rightarrow> Inr (-1)
    | Some (mx, items) \<Rightarrow>
        if 0 < encode_sparse_ratio cfg \<and> items * encode_sparse_ratio cfg < mx \<and> encode_sparse_safe cfg < mx
        then (if encode_sparse_convert cfg = 0
              then Inl (''Cannot serialise '' @ lua_typename v @ '': excessively sparse array'') else Inr (-1))
        else Inr mx)"

definition depth_ok :: "'d lua_api \<Rightarrow> json_config_t \<Rightarrow> nat \<Rightarrow> bool" where
  "depth_ok api cfg d \<longleftrightarrow> int d \<le> encode_max_depth cfg \<and> lua_checkstack api d"

lemma cat_cong [fundef_cong]: "a = a' \<Longrightarrow> (\<And>s. a' = Inr s \<Longrightarrow> b = b') \<Longrightarrow> cat a b = cat a' b'"
  by (cases a') (auto simp: cat_def)

definition comma_text :: "bool \<Rightarrow> string" where
  "comma_text comma = (if comma then '','' else [])"

function enc_data :: "'d lua_api \<Rightarrow> json_config_t \<Rightarrow> 'd heap \<Rightarrow> nat \<Rightarrow> 'd lval \<Rightarrow> string + string"
  and enc_array :: "'d lua_api \<Rightarrow> json_config_t \<Rightarrow> 'd heap \<Rightarrow> nat \<Rightarrow> 'd table \<Rightarrow> int \<Rightarrow> int \<Rightarrow> bool \<Rightarrow> string + string"
  and enc_object :: "'d lua_api \<Rightarrow> json_config_t \<Rightarrow> 'd heap \<Rightarrow> nat \<Rightarrow> 'd table \<Rightarrow> bool \<Rightarrow> string + string"
where
  "enc_data api cfg h depth v =
    (case v of
      LString s \<Rightarrow> Inr (quoted s)
    | LNumber d \<Rightarrow> enc_number api cfg d
    | LBool b \<Rightarrow> Inr (if b then ''true'' else ''false'')
    | LTable a \<Rightarrow>
        if depth_ok api cfg (Suc depth) then
          (case enc_array_length api cfg v (table_at h a) of
            Inl m \<Rightarrow> Inl m
          | Inr len \<Rightarrow>
              if 0 < len
              then cat (Inr ''['') (cat (enc_array api cfg h (Suc depth) (table_at h a) 1 len False) (Inr '']''))
              else cat (Inr ''{'') (cat (enc_object api cfg h (Suc depth) (table_at h a) False) (Inr ''}'')))
        else Inl (''Cannot serialise, excessive nesting ('' @ dec_digits (Suc depth) @ '')'')
    | LNil \<Rightarrow> Inr ''null''
    | LLightUserdata p \<Rightarrow> if p = 0 then Inr ''null'' else enc_exception v ''type not supported''
    | _ \<Rightarrow> enc_exception v ''type not supported'')"
| "enc_array api cfg h depth t i len comma =
    (if i \<le> len then
       cat (Inr (comma_text comma))
         (cat (enc_data api cfg h depth (lua_rawgeti api t i)) (enc_array api cfg h depth t (i + 1) len True))
     else Inr [])"
| "enc_object api cfg h depth [] comma = Inr []"
| "enc_object api cfg h depth ((k, v) # t) comma =
    cat (Inr (comma_text comma))
      (cat (enc_key api cfg k) (cat (enc_data api cfg h depth v) (enc_object api cfg h depth t True)))"
  by pat_completeness auto
termination
  by (relation "measures [
        (\<lambda>x. case x of Inl (_, cfg, _, d, _) \<Rightarrow> nat (encode_max_depth cfg) - d
              | Inr (Inl (_, cfg, _, d, _, _, _, _)) \<Rightarrow> nat (encode_max_depth cfg) - d
              | Inr (Inr (_, cfg, _, d, _, _)) \<Rightarrow> nat (encode_max_depth cfg) - d),
        (\<lambda>x. case x of Inl _ \<Rightarrow> 0 | _ \<Rightarrow> 1),
        (\<lambda>x. case x of Inl _ \<Rightarrow> 0
              | Inr (Inl (_, _, _, _, _, i, len, _)) \<Rightarrow> nat (len + 1 - i)
              | Inr (Inr (_, _, _, _, t, _)) \<Rightarrow> length t)]")
    (auto simp: depth_ok_def)

declare enc_data.simps [simp del] enc_array.simps [simp del]

section \<open>Strings are written inside the reserved space\<close>

lemma hex_lower_not_NUL: "n < 16 \<Longrightarrow> hex_lower n \<noteq> NUL"
proof -
  assume "n < 16"
  then have "hex_lower n \<in> set ''0123456789abcdef''"
    unfolding hex_lower_def by (intro nth_mem) simp
  then show ?thesis by (auto simp: NUL_def)
qed

lemma char2escape_Some:
  assumes "char2escape c = Some e"
  shows "length e \<le> 6" "NUL \<notin> set e"
proof -
  have "(of_char c :: nat) < 32 \<or> (of_char c :: nat) = 127 \<Longrightarrow> (of_char c :: nat) div 16 < 16"
    by auto
  with assms hex_lower_not_NUL [of "of_char c div 16"] hex_lower_not_NUL [of "of_char c mod 16"]
  show "length e \<le> 6" "NUL \<notin> set e"
    by (auto simp: char2escape_def BSL_def DQUOTE_def NUL_def split: if_splits)
qed

lemma length_escape_char: "length (escape_char c) \<le> 6"
  by (auto simp: escape_char_def char2escape_Some split: option.splits)

lemma length_escaped: "length (concat (map escape_char cs)) \<le> 6 * length cs"
proof (induction cs)
  case (Cons c cs)
  then show ?case using length_escape_char [of c] by simp
qed simp

lemma append_string_loop_space:
  assumes "sb_holds s t" "int (length cs) \<le> space" "space \<le> Lstrbuf_empty_length s"
  shows "\<exists>s'. append_string_loop cs space s = Ok s' \<and> sb_holds s' (t @ cs) \<and> sb_size s' = sb_size s"
  using assms
proof (induction cs arbitrary: s t space)
  case Nil
  then show ?case by simp
next
  case (Cons c cs)
  from Cons.prems have "sb_length s + length [c] < sb_size s"
    by (simp add: Lstrbuf_empty_length_def)
  from append_mem_unsafe_ok [OF Cons.prems(1) this]
  obtain s1 where s1: "Lstrbuf_append_char_unsafe s c = Ok s1" "sb_holds s1 (t @ [c])" "sb_size s1 = sb_size s"
    by (auto simp: append_char_unsafe_mem)
  have "sb_length s1 = sb_length s + 1"
    using sb_holds_length [OF s1(2)] sb_holds_length [OF Cons.prems(1)] by simp
  then have "space - 1 \<le> Lstrbuf_empty_length s1" "int (length cs) \<le> space - 1"
    using Cons.prems s1(3) by (simp_all add: Lstrbuf_empty_length_def)
  from Cons.IH [OF s1(2) this(2,1)] s1 Cons.prems(2) show ?case by auto
qed


lemma append_escaped_ok:
  assumes "sb_holds s t" "sb_length s + length (escape_char c) < sb_size s"
  shows "\<exists>s'. append_escaped c s = Ok s' \<and> sb_holds s' (t @ escape_char c) \<and> sb_size s' = sb_size s"
proof (cases "char2escape c")
  case None
  with append_mem_unsafe_ok [OF assms(1), of "[c]"] assms(2) show ?thesis
    by (simp add: append_escaped_def escape_char_def append_char_unsafe_mem)
next
  case (Some e)
  then have "takeWhile (\<lambda>c. c \<noteq> NUL) e = e"
    using char2escape_Some(2) by (auto simp: takeWhile_eq_all_conv)
  then have "Lstrbuf_append_string s e = append_string_loop e (Lstrbuf_empty_length s) s"
    by (simp only: Lstrbuf_append_string_def)
  with Some append_string_loop_space [OF assms(1), of e "Lstrbuf_empty_length s"] assms(2) show ?thesis
    by (simp add: append_escaped_def escape_char_def Lstrbuf_empty_length_def)
qed

lemma append_escaped_all_ok:
  assumes "sb_holds s t" "sb_length s + length (concat (map escape_char cs)) < sb_size s"
  shows "\<exists>s'. append_escaped_all cs s = Ok s' \<and> sb_holds s' (t @ concat (map escape_char cs)) \<and> sb_size s' = sb_size s"
  using assms
proof (induction cs arbitrary: s t)
  case Nil
  then show ?case by simp
next
  case (Cons c cs)
  from Cons.prems have "sb_length s + length (escape_char c) < sb_size s" by simp
  from append_escaped_ok [OF Cons.prems(1) this]
  obtain s1 where s1: "append_escaped c s = Ok s1" "sb_holds s1 (t @ escape_char c)" "sb_size s1 = sb_size s"
    by auto
  have "sb_length s1 + length (concat (map escape_char cs)) < sb_size s1"
    using sb_holds_length [OF s1(2)] sb_holds_length [OF Cons.prems(1)] s1(3) Cons.prems(2) by simp
  from Cons.IH [OF s1(2) this] s1(1,3) show ?case by auto
qed

lemma json_append_string_ok:
  assumes "sb_holds s t"
  shows "\<exists>s'. json_append_string s str = Ok s' \<and> sb_holds s' (t @ quoted str)"
proof -
  let ?e = "concat (map escape_char str)"
  obtain s1 where s1: "Lstrbuf_ensure_empty_length s (int (length str) * 6 + 2) = Ok s1" "sb_holds s1 t"
    "int (sb_length s1) + (int (length str) * 6 + 2) < int (sb_size s1)"
    using ensure_empty_length_ok [OF assms, of "int (length str) * 6 + 2"] by auto
  have cap: "sb_length s1 + length ?e + 2 < sb_size s1"
    using s1(3) length_escaped [of str] by linarith
  obtain s2 where s2: "Lstrbuf_append_char_unsafe s1 DQUOTE = Ok s2" "sb_holds s2 (t @ [DQUOTE])" "sb_size s2 = sb_size s1"
    using append_mem_unsafe_ok [OF s1(2), of "[DQUOTE]"] cap by (auto simp: append_char_unsafe_mem)
  have l2: "sb_length s2 = sb_length s1 + 1"
    using sb_holds_length [OF s2(2)] sb_holds_length [OF s1(2)] by simp
  obtain s3 where s3: "append_escaped_all str s2 = Ok s3" "sb_holds s3 (t @ [DQUOTE] @ ?e)" "sb_size s3 = sb_size s2"
    using append_escaped_all_ok [OF s2(2), of str] cap l2 s2(3) by auto
  have "sb_length s3 + length [DQUOTE] < sb_size s3"
    using sb_holds_length [OF s3(2)] sb_holds_length [OF s1(2)] s2(3) s3(3) cap by simp
  from append_mem_unsafe_ok [OF s3(2) this] s1(1) s2(1) s3(1) show ?thesis
    by (auto simp: json_append_string_def append_char_unsafe_mem quoted_def)
qed

section \<open>The buffer code refines the specification\<close>

definition refines :: "json_config_t \<Rightarrow> string \<Rightarrow> Lstrbuf_t lres \<Rightarrow> string + string \<Rightarrow> bool" where
  "refines cfg t r S =
    (case S of
      Inr txt \<Rightarrow> \<exists>j. r = Ok j \<and> sb_holds j (t @ txt)
    | Inl m \<Rightarrow> \<exists>j. r = Throw m j \<and> (encode_keep_buffer cfg \<noteq> 0 \<longrightarrow> sb_wf j))"

lemma refines_bind:
  assumes "refines cfg t r S1"
    and "\<And>a j. S1 = Inr a \<Longrightarrow> sb_holds j (t @ a) \<Longrightarrow> refines cfg (t @ a) (f j) S2"
  shows "refines cfg t (lbind r f) (cat S1 S2)"
proof (cases S1)
  case (Inl m)
  with assms(1) show ?thesis by (auto simp: refines_def cat_def)
next
  case (Inr a)
  with assms(1) obtain j where j: "r = Ok j" "sb_holds j (t @ a)"
    by (auto simp: refines_def)
  from assms(2) [OF Inr j(2)] Inr j(1) show ?thesis
    by (auto simp: refines_def cat_def split: sum.splits)
qed

lemma refines_append_char: "sb_holds j t \<Longrightarrow> refines cfg t (Lstrbuf_append_char j c) (Inr [c])"
  by (simp add: refines_def append_char_ok)

lemma refines_append_mem: "sb_holds j t \<Longrightarrow> refines cfg t (Lstrbuf_append_mem j m) (Inr m)"
  by (simp add: refines_def append_mem_ok)

lemma refines_append_string: "sb_holds j t \<Longrightarrow> refines cfg t (json_append_string j s) (Inr (quoted s))"
  by (simp add: refines_def json_append_string_ok)

lemma refines_exception:
  "sb_holds j t \<Longrightarrow> refines cfg t (json_encode_exception cfg j v reason) (enc_exception v reason)"
  by (auto simp: refines_def json_encode_exception_def enc_exception_def sb_holds_def)

lemma refines_comma: "sb_holds j t \<Longrightarrow> refines cfg t (append_comma comma j) (Inr (comma_text comma))"
  by (auto simp: append_comma_def comma_text_def refines_append_char) (simp add: refines_def)

lemmas refines_appends = refines_append_char refines_append_mem refines_append_string refines_exception
  refines_comma

text \<open>What the encoder relies on: a precision the configuration functions allow, and numbers that
  print in fewer than 32 characters (\<open>%.14g\<close> prints at most 21).\<close>

definition numbers_fit :: "'d lua_api \<Rightarrow> json_config_t \<Rightarrow> bool" where
  "numbers_fit api cfg \<longleftrightarrow> 1 \<le> encode_number_precision cfg \<and> encode_number_precision cfg \<le> 14 \<and>
    (\<forall>f d. length (c_fmt_g api f d) < 32)"

lemma refines_number:
  assumes "sb_holds j t" "numbers_fit api cfg"
  shows "refines cfg t (json_append_number api cfg j d) (enc_number api cfg d)"
proof -
  obtain out where out: "fpconv_g_fmt (locale_decimal_point api) (c_fmt_g api) d (encode_number_precision cfg)
      = Some (out, length out)" "length out < 32"
    using fpconv_g_fmt_some [of "encode_number_precision cfg" "c_fmt_g api" d "locale_decimal_point api"] assms(2)
    by (auto simp: numbers_fit_def)
  obtain s1 where s1: "Lstrbuf_ensure_empty_length j 32 = Ok s1" "sb_holds s1 t"
    "int (sb_length s1) + 32 < int (sb_size s1)"
    using ensure_empty_length_ok [OF assms(1), of 32] by auto
  obtain s2 where "sb_write s1 (sb_length s1) (out @ [NUL]) = Ok s2" "sb_holds (Lstrbuf_extend_length s2 (length out)) (t @ out)"
    using vsnprintf_at_ok [OF s1(2), of "length out + 1" out] s1(3) out(2)
    by (auto simp: vsnprintf_at_def Lstrbuf_extend_length_def)
  with s1(1) out(1) assms(1) show ?thesis
    unfolding json_append_number_def enc_number_def
    by (auto simp: refines_exception refines_append_mem FPCONV_G_FMT_BUFSIZE_def)
      (auto simp: refines_def)
qed

lemma refines_key:
  assumes "sb_holds j t" "numbers_fit api cfg"
  shows "refines cfg t (append_key api cfg j k) (enc_key api cfg k)"
proof (cases k)
  case (LNumber d)
  show ?thesis
    using assms unfolding append_key_def enc_key_def LNumber
    by (auto intro!: refines_bind refines_append_char refines_append_mem refines_number)
next
  case (LString s)
  have "Inr (quoted s @ '':'') = cat (Inr (quoted s)) (Inr '':'')"
    by (simp add: cat_def)
  then show ?thesis
    using assms unfolding append_key_def enc_key_def LString
    by (auto intro!: refines_bind refines_appends)
qed (use assms in \<open>simp_all add: append_key_def enc_key_def refines_exception\<close>)

lemma lua_array_length_spec:
  "lua_array_length api cfg v t j =
    (case enc_array_length api cfg v t of
      Inl m \<Rightarrow> Inl (json_encode_exception cfg j v ''excessively sparse array'') | Inr n \<Rightarrow> Inr n)"
  by (auto simp: lua_array_length_def enc_array_length_def split: option.splits)

lemma enc_array_length_Inl:
  "enc_array_length api cfg v t = Inl m \<Longrightarrow> Inl m = enc_exception v ''excessively sparse array''"
  by (auto simp: enc_array_length_def enc_exception_def split: option.splits if_splits)

lemma encode_refines:
  assumes "numbers_fit api cfg"
  shows "sb_holds j t \<Longrightarrow> refines cfg t (json_append_data api cfg h d v j) (enc_data api cfg h d v)"
    and "sb_holds j t \<Longrightarrow> refines cfg t (json_append_array api cfg h d tb i len comma j) (enc_array api cfg h d tb i len comma)"
    and "sb_holds j t \<Longrightarrow> refines cfg t (json_append_object api cfg h d tb comma j) (enc_object api cfg h d tb comma)"
  using assms
proof (induction api cfg h d v and api cfg h d tb i len comma and api cfg h d tb comma
    arbitrary: j t and j t and j t rule: enc_data_enc_array_enc_object.induct)
  case (1 api cfg h depth v)
  show ?case
  proof (cases v)
    case (LTable a)
    show ?thesis
    proof (cases "depth_ok api cfg (Suc depth)")
      case True
      then have chk: "json_check_encode_depth api cfg (Suc depth) j = Ok j"
        by (simp add: json_check_encode_depth_def depth_ok_def)
      show ?thesis
      proof (cases "enc_array_length api cfg v (table_at h a)")
        case (Inl m)
        with True chk 1(3) enc_array_length_Inl [OF Inl] LTable show ?thesis
          by (simp add: json_append_data.simps enc_data.simps lua_array_length_spec refines_exception)
      next
        case (Inr n)
        show ?thesis
          using 1 True chk Inr
          unfolding LTable json_append_data.simps [of api cfg h depth "LTable a"]
            enc_data.simps [of api cfg h depth "LTable a"]
          by (auto simp: lua_array_length_spec intro!: refines_bind refines_append_char)
      qed
    next
      case False
      then show ?thesis
        using 1(3) LTable
        by (auto simp: json_append_data.simps enc_data.simps json_check_encode_depth_def depth_ok_def
            refines_def sb_holds_def)
    qed
  qed (use 1 in \<open>simp_all add: json_append_data.simps enc_data.simps refines_appends refines_number\<close>)
next
  case (2 api cfg h depth t' i len comma)
  then show ?case
    by (auto simp: json_append_array.simps [of api cfg h depth t' i len comma]
        enc_array.simps [of api cfg h depth t' i len comma] intro!: refines_bind refines_comma)
      (simp add: refines_def)
next
  case (3 api cfg h depth comma)
  then show ?case by (simp add: refines_def)
next
  case (4 api cfg h depth k v t' comma)
  then show ?case
    by (auto intro!: refines_bind refines_comma refines_key)
qed


section \<open>Properties\<close>


text \<open>With a private buffer (\<open>encode_keep_buffer\<close> off) the same text or error results and the
  configuration is not changed.\<close>

theorem json_encode_private_buffer:
  assumes "numbers_fit api cfg" "encode_keep_buffer cfg = 0"
  shows "json_encode api cfg h [v] =
    (case enc_data api cfg h 0 v of Inr txt \<Rightarrow> Ok (cfg, txt) | Inl m \<Rightarrow> Throw m (cfg, []))"
proof -
  obtain b where b: "Lstrbuf_init 0 = Ok b" "sb_holds b []"
    using init_ok [of 0] by auto
  from encode_refines(1) [OF assms(1) b(2), of h 0 v] assms(2) b(1) show ?thesis
    by (auto simp: refines_def json_encode_def sb_holds_def split: sum.splits)
qed



text \<open>A model of the calls into Lua over integers, for the witnesses.\<close>

definition int_api :: "int lua_api" where
  "int_api = \<lparr>d_isinf = (\<lambda>_. False), d_isnan = (\<lambda>_. False), d_integral = (\<lambda>_. True), d_ge1 = (\<lambda>d. 1 \<le> d),
    d_toint = id, d_of_int = id, d_zero = 0,
    c_strtod = (\<lambda>s. case s of [] \<Rightarrow> (0, 0) | c # _ \<Rightarrow> (of_char c - 48, 1)),
    c_fmt_g = (\<lambda>_ d. [char_of (48 + nat d)]), locale_decimal_point = CHR ''.'',
    luaL_checkinteger = (\<lambda>v. case v of LNumber d \<Rightarrow> Some d | _ \<Rightarrow> None),
    luaL_checkstring = (\<lambda>v. case v of LString s \<Rightarrow> Some s | _ \<Rightarrow> None), lua_checkstack = (\<lambda>_. True)\<rparr>"

definition small_buf :: Lstrbuf_t where
  "small_buf = \<lparr>sb_buf = Some ''........'', sb_size = 8, sb_length = 0, sb_increment = -2,
    sb_dynamic = False, sb_reallocs = 0, sb_debug = 0\<rparr>"

definition example_cfg :: "int \<Rightarrow> json_config_t" where
  "example_cfg keep = \<lparr>ch2token = default_ch2token, escape2char = default_escape2char, encode_buf = small_buf,
    encode_sparse_convert = 0, encode_sparse_ratio = 2, encode_sparse_safe = 10, encode_max_depth = 3,
    encode_invalid_numbers = 0, encode_number_precision = 14, encode_keep_buffer = keep,
    decode_invalid_numbers = 1, decode_max_depth = 3\<rparr>"

lemma example_cfg_ok: "numbers_fit int_api (example_cfg keep)" "sb_wf (encode_buf (example_cfg keep))"
  by (simp_all add: numbers_fit_def int_api_def example_cfg_def sb_wf_def small_buf_def)

lemma enc_example: "enc_data int_api (example_cfg keep) [[(LNumber 1, LBool True)]] 0 (LTable 0) = Inr ''[true]''"
  by (simp add: enc_data.simps enc_array.simps enc_array_length_def table_at_def int_api_def example_cfg_def
      depth_ok_def cat_def comma_text_def lua_rawgeti_def key_is_int_def)


theorem json_encode_private_buffer_witness:
  "json_encode int_api (example_cfg 0) [[(LNumber 1, LBool True)]] [LTable 0] = Ok (example_cfg 0, ''[true]'')"
proof -
  have "encode_keep_buffer (example_cfg 0) = 0" by (simp add: example_cfg_def)
  from json_encode_private_buffer [OF example_cfg_ok(1) this, of "[[(LNumber 1, LBool True)]]" "LTable 0"]
  show ?thesis by (simp add: enc_example)
qed


end
