(* ===== verification/Cjson_Decode.thy ===== *)
theory Cjson_Decode
  imports Cjson_Encode "HOL-Library.AList"
begin

text \<open>
  The decoder of \<^verbatim>\<open>core/lua-cjson/lua_cjson.c\<close>: the lexer (\<open>json_next_token\<close> and its helpers), the
  recursive-descent parser (\<open>json_process_value\<close>, \<open>json_parse_object_context\<close>,
  \<open>json_parse_array_context\<close>) and \<open>json_decode\<close>.

  A parse state holds the text, the position \<open>ptr\<close>, the temporary buffer \<open>tmp\<close> into which strings are
  decoded without bounds checks, and the nesting depth.  Reading at or after the end of the text gives
  the terminating zero byte.  Tables are created in the heap of \<open>Cjson\<close>.  The parser recursion carries
  fuel; \<open>json_decode\<close> supplies enough for every input, which is proved.
\<close>

section \<open>Parse state and tokens\<close>

record json_parse_t =
  jp_data :: string
  jp_ptr :: nat
  jp_tmp :: Lstrbuf_t
  jp_depth :: nat

datatype 'd token_value = TVNone | TVString string | TVNumber 'd | TVBoolean bool

record 'd json_token_t =
  tok_type :: json_token_type_t
  tok_index :: nat
  tok_value :: "'d token_value"

text \<open>\<open>*(json->ptr + k)\<close>\<close>

definition jp_at :: "json_parse_t \<Rightarrow> nat \<Rightarrow> char" where
  "jp_at json k = (if jp_ptr json + k < length (jp_data json) then jp_data json ! (jp_ptr json + k) else NUL)"

definition jp_skip :: "json_parse_t \<Rightarrow> nat \<Rightarrow> json_parse_t" where
  "jp_skip json n = json\<lparr>jp_ptr := jp_ptr json + n\<rparr>"

text \<open>A character as the signed \<open>char\<close> of the platform.\<close>

definition schar :: "char \<Rightarrow> int" where
  "schar c = (let n = of_char c :: int in if n < 128 then n else n - 256)"

section \<open>Unicode escapes\<close>

definition hexdigit2int :: "char \<Rightarrow> int" where
  "hexdigit2int hex =
    (let c = of_char hex :: nat
     in if 48 \<le> c \<and> c \<le> 57 then int c - 48
        else (let c = c OR 0x20 in if 97 \<le> c \<and> c \<le> 102 then 10 + int c - 97 else -1))"

definition decode_hex4 :: "json_parse_t \<Rightarrow> nat \<Rightarrow> int" where
  "decode_hex4 json k =
    (let digit = map (\<lambda>i. hexdigit2int (jp_at json (k + i))) [0..<4]
     in if \<exists>d \<in> set digit. d < 0 then -1
        else push_bit 12 (digit ! 0) + push_bit 8 (digit ! 1) + push_bit 4 (digit ! 2) + digit ! 3)"

definition codepoint_to_utf8 :: "nat \<Rightarrow> string" where
  "codepoint_to_utf8 codepoint =
    (if codepoint \<le> 0x7F then [char_of codepoint]
     else if codepoint \<le> 0x7FF then
       [char_of (drop_bit 6 codepoint OR 0xC0), char_of ((codepoint AND 0x3F) OR 0x80)]
     else if codepoint \<le> 0xFFFF then
       [char_of (drop_bit 12 codepoint OR 0xE0), char_of ((drop_bit 6 codepoint AND 0x3F) OR 0x80),
        char_of ((codepoint AND 0x3F) OR 0x80)]
     else if codepoint \<le> 0x1FFFFF then
       [char_of (drop_bit 18 codepoint OR 0xF0), char_of ((drop_bit 12 codepoint AND 0x3F) OR 0x80),
        char_of ((drop_bit 6 codepoint AND 0x3F) OR 0x80), char_of ((codepoint AND 0x3F) OR 0x80)]
     else [])"

text \<open>The end of \<open>json_append_unicode_escape\<close>: append the bytes and skip the escape.\<close>

definition append_codepoint :: "json_parse_t \<Rightarrow> nat \<Rightarrow> nat \<Rightarrow> json_parse_t option lres" where
  "append_codepoint json codepoint escape_len =
    (let utf8 = codepoint_to_utf8 codepoint
     in if utf8 = [] then Ok None
        else
          (case Lstrbuf_append_mem_unsafe (jp_tmp json) utf8 of
            Ok b \<Rightarrow> Ok (Some (jp_skip (json\<lparr>jp_tmp := b\<rparr>) escape_len))
          | Throw m b \<Rightarrow> Fault NullPointer
          | Fault e \<Rightarrow> Fault e))"

text \<open>\<open>Ok None\<close> is the error return \<open>-1\<close>.\<close>

definition json_append_unicode_escape :: "json_parse_t \<Rightarrow> json_parse_t option lres" where
  "json_append_unicode_escape json =
    (let codepoint = decode_hex4 json 2
     in if codepoint < 0 then Ok None
        else if nat codepoint AND 0xF800 = 0xD800 then
          (if nat codepoint AND 0x400 \<noteq> 0 then Ok None
           else if jp_at json 6 \<noteq> BSL \<or> jp_at json 7 \<noteq> CHR ''u'' then Ok None
           else
             (let surrogate_low = decode_hex4 json 8
              in if surrogate_low < 0 then Ok None
                 else if nat surrogate_low AND 0xFC00 \<noteq> 0xDC00 then Ok None
                 else append_codepoint json
                   ((push_bit 10 (nat codepoint AND 0x3FF) OR (nat surrogate_low AND 0x3FF)) + 0x10000) 12))
        else append_codepoint json (nat codepoint) 6)"

definition json_set_token_error :: "json_parse_t \<Rightarrow> string \<Rightarrow> 'd json_token_t" where
  "json_set_token_error json errtype =
    \<lparr>tok_type = T_ERROR, tok_index = jp_ptr json, tok_value = TVString errtype\<rparr>"

section \<open>The lexer\<close>

lemma append_codepoint_Some:
  "append_codepoint json c n = Ok (Some json') \<Longrightarrow>
    jp_ptr json' = jp_ptr json + n \<and> jp_data json' = jp_data json \<and> jp_depth json' = jp_depth json"
  by (auto simp: append_codepoint_def jp_skip_def Let_def split: if_splits lres.splits)

lemma unicode_escape_progress:
  "json_append_unicode_escape json = Ok (Some json') \<Longrightarrow>
    jp_ptr json < jp_ptr json' \<and> jp_data json' = jp_data json \<and> jp_depth json' = jp_depth json"
  by (auto simp: json_append_unicode_escape_def Let_def dest!: append_codepoint_Some split: if_splits)

lemma jp_at_not_NUL: "jp_at json k \<noteq> NUL \<Longrightarrow> jp_ptr json + k < length (jp_data json)"
  by (auto simp: jp_at_def split: if_splits)

text \<open>The loop of \<open>json_next_string_token\<close>; \<open>index\<close> is the token's position.\<close>

function json_string_loop :: "json_config_t \<Rightarrow> nat \<Rightarrow> json_parse_t \<Rightarrow> (json_parse_t \<times> 'd json_token_t) lres" where
  "json_string_loop cfg index json =
    (let ch = jp_at json 0
     in if ch = DQUOTE then
          (case Lstrbuf_ensure_null (jp_tmp json) of
            Ok b \<Rightarrow>
              Ok (jp_skip (json\<lparr>jp_tmp := b\<rparr>) 1,
                \<lparr>tok_type = T_STRING, tok_index = index, tok_value = TVString (Lstrbuf_string b)\<rparr>)
          | Throw m b \<Rightarrow> Fault NullPointer
          | Fault e \<Rightarrow> Fault e)
        else if ch = NUL then Ok (json, json_set_token_error json ''unexpected end of string'')
        else if ch = BSL then
          (let ch = escape2char cfg (jp_at json 1)
           in if ch = CHR ''u'' then
                (case json_append_unicode_escape json of
                  Ok (Some json') \<Rightarrow> json_string_loop cfg index json'
                | Ok None \<Rightarrow> Ok (json, json_set_token_error json ''invalid unicode escape code'')
                | Throw m b \<Rightarrow> Fault NullPointer
                | Fault e \<Rightarrow> Fault e)
              else if ch = NUL then Ok (json, json_set_token_error json ''invalid escape code'')
              else
                (case Lstrbuf_append_char_unsafe (jp_tmp json) ch of
                  Ok b \<Rightarrow> json_string_loop cfg index (jp_skip (json\<lparr>jp_tmp := b\<rparr>) 2)
                | Throw m b \<Rightarrow> Fault NullPointer
                | Fault e \<Rightarrow> Fault e))
        else
          (case Lstrbuf_append_char_unsafe (jp_tmp json) ch of
            Ok b \<Rightarrow> json_string_loop cfg index (jp_skip (json\<lparr>jp_tmp := b\<rparr>) 1)
          | Throw m b \<Rightarrow> Fault NullPointer
          | Fault e \<Rightarrow> Fault e))"
  by pat_completeness auto
termination
proof (relation "measure (\<lambda>(cfg, index, json). length (jp_data json) - jp_ptr json)", goal_cases)
  case 1
  then show ?case by simp
next
  case (2 cfg index json x xa x1 x1a)
  then show ?case
    using unicode_escape_progress jp_at_not_NUL [of json 0] by fastforce
next
  case (3 cfg index json x xa x1)
  then show ?case using jp_at_not_NUL [of json 0] by (auto simp: jp_skip_def)
next
  case (4 cfg index json x x1)
  then show ?case using jp_at_not_NUL [of json 0] by (auto simp: jp_skip_def)
qed

declare json_string_loop.simps [simp del]

definition json_next_string_token :: "json_config_t \<Rightarrow> nat \<Rightarrow> json_parse_t \<Rightarrow> (json_parse_t \<times> 'd json_token_t) lres" where
  "json_next_string_token cfg index json =
    json_string_loop cfg index (jp_skip (json\<lparr>jp_tmp := Lstrbuf_reset (jp_tmp json)\<rparr>) 1)"

text \<open>\<open>strncmp(json->ptr, w, n) == 0\<close>, and \<open>strncasecmp\<close> for a lower-case word.\<close>

definition jp_match :: "json_parse_t \<Rightarrow> nat \<Rightarrow> string \<Rightarrow> bool" where
  "jp_match json k w = (map (\<lambda>i. jp_at json (k + i)) [0..<length w] = w)"

definition to_lower :: "char \<Rightarrow> char" where
  "to_lower c = (let n = of_char c :: nat in if 65 \<le> n \<and> n \<le> 90 then char_of (n + 32) else c)"

definition jp_casematch :: "json_parse_t \<Rightarrow> nat \<Rightarrow> string \<Rightarrow> bool" where
  "jp_casematch json k w = (map (\<lambda>i. to_lower (jp_at json (k + i))) [0..<length w] = w)"

definition json_is_invalid_number :: "json_parse_t \<Rightarrow> bool" where
  "json_is_invalid_number json =
    (if jp_at json 0 = CHR ''+'' then True
     else
       (let p = (if jp_at json 0 = CHR ''-'' then 1 else 0)
        in if jp_at json p = CHR ''0'' then
             (let ch2 = schar (jp_at json (p + 1))
              in ch2 OR 0x20 = 120 \<or> (48 \<le> ch2 \<and> ch2 \<le> 57))
           else if schar (jp_at json p) \<le> 57 then False
           else jp_casematch json p ''inf'' \<or> jp_casematch json p ''nan''))"

definition json_next_number_token :: "'d lua_api \<Rightarrow> nat \<Rightarrow> json_parse_t \<Rightarrow> json_parse_t \<times> 'd json_token_t" where
  "json_next_number_token api index json =
    (let (v, n) = fpconv_strtod (locale_decimal_point api) (c_strtod api) (d_zero api)
                    (takeWhile (\<lambda>c. c \<noteq> NUL) (drop (jp_ptr json) (jp_data json)))
     in if n = 0 then (json, json_set_token_error json ''invalid number'')
        else (jp_skip json n, \<lparr>tok_type = T_NUMBER, tok_index = index, tok_value = TVNumber v\<rparr>))"

text \<open>The whitespace loop stops at the terminator, which is no whitespace.\<close>

definition skip_whitespace :: "json_config_t \<Rightarrow> json_parse_t \<Rightarrow> json_parse_t" where
  "skip_whitespace cfg json =
    jp_skip json (length (takeWhile (\<lambda>c. ch2token cfg c = T_WHITESPACE) (drop (jp_ptr json) (jp_data json))))"

definition plain_token :: "json_token_type_t \<Rightarrow> nat \<Rightarrow> 'd token_value \<Rightarrow> 'd json_token_t" where
  "plain_token ty index v = \<lparr>tok_type = ty, tok_index = index, tok_value = v\<rparr>"

definition json_next_token :: "'d lua_api \<Rightarrow> json_config_t \<Rightarrow> json_parse_t \<Rightarrow> (json_parse_t \<times> 'd json_token_t) lres" where
  "json_next_token api cfg json0 =
    (let json = skip_whitespace cfg json0;
         ch = jp_at json 0; ty = ch2token cfg ch; index = jp_ptr json
     in if ty = T_ERROR then Ok (json, json_set_token_error json ''invalid token'')
        else if ty = T_END then Ok (json, plain_token T_END index TVNone)
        else if ty \<noteq> T_UNKNOWN then Ok (jp_skip json 1, plain_token ty index TVNone)
        else if ch = DQUOTE then json_next_string_token cfg index json
        else if ch = CHR ''-'' \<or> (48 \<le> (of_char ch :: nat) \<and> (of_char ch :: nat) \<le> 57) then
          (if decode_invalid_numbers cfg = 0 \<and> json_is_invalid_number json
           then Ok (json, json_set_token_error json ''invalid number'')
           else Ok (json_next_number_token api index json))
        else if jp_match json 0 ''true'' then Ok (jp_skip json 4, plain_token T_BOOLEAN index (TVBoolean True))
        else if jp_match json 0 ''false'' then Ok (jp_skip json 5, plain_token T_BOOLEAN index (TVBoolean False))
        else if jp_match json 0 ''null'' then Ok (jp_skip json 4, plain_token T_NULL index TVNone)
        else if decode_invalid_numbers cfg \<noteq> 0 \<and> json_is_invalid_number json
        then Ok (json_next_number_token api index json)
        else Ok (json, json_set_token_error json ''invalid token''))"

section \<open>The parser\<close>

text \<open>The outcome of a parsing function: the heap, the value it leaves on the Lua stack and the parse
  state.  When an error is raised the temporary buffer has been freed.\<close>

type_synonym 'd parse_result = "('d heap \<times> 'd lval \<times> json_parse_t) lres"

text \<open>The members of the union \<open>token->value\<close>.\<close>

definition token_string :: "'d json_token_t \<Rightarrow> string" where
  "token_string token = (case tok_value token of TVString s \<Rightarrow> s | _ \<Rightarrow> [])"

definition token_number :: "'d lua_api \<Rightarrow> 'd json_token_t \<Rightarrow> 'd" where
  "token_number api token = (case tok_value token of TVNumber d \<Rightarrow> d | _ \<Rightarrow> d_zero api)"

definition token_boolean :: "'d json_token_t \<Rightarrow> bool" where
  "token_boolean token = (case tok_value token of TVBoolean b \<Rightarrow> b | _ \<Rightarrow> False)"

definition parse_throw :: "string \<Rightarrow> 'd heap \<Rightarrow> json_parse_t \<Rightarrow> 'd parse_result" where
  "parse_throw msg h json = Throw msg (h, LNil, json\<lparr>jp_tmp := Lstrbuf_free (jp_tmp json)\<rparr>)"

definition json_throw_parse_error :: "'d heap \<Rightarrow> json_parse_t \<Rightarrow> string \<Rightarrow> 'd json_token_t \<Rightarrow> 'd parse_result" where
  "json_throw_parse_error h json ex token =
    (let found = (if tok_type token = T_ERROR then token_string token
                  else json_token_type_name (tok_type token))
     in parse_throw (''Expected '' @ ex @ '' but found '' @ found @ '' at character '' @
          show_int (int (tok_index token) + 1)) h json)"

definition json_decode_ascend :: "json_parse_t \<Rightarrow> json_parse_t" where
  "json_decode_ascend json = json\<lparr>jp_depth := jp_depth json - 1\<rparr>"

definition json_decode_descend :: "'d lua_api \<Rightarrow> json_config_t \<Rightarrow> 'd heap \<Rightarrow> json_parse_t \<Rightarrow> 'd parse_result" where
  "json_decode_descend api cfg h json0 =
    (let json = json0\<lparr>jp_depth := jp_depth json0 + 1\<rparr>
     in if int (jp_depth json) \<le> decode_max_depth cfg \<and> lua_checkstack api (jp_depth json)
        then Ok (h, LNil, json)
        else parse_throw (''Found too many nested data structures ('' @ show_int (int (jp_depth json)) @
          '') at character '' @ show_int (int (jp_ptr json))) h json)"

text \<open>The next token, with the continuation of its caller; a lost lexer loses the parser.\<close>

definition with_token :: "'d lua_api \<Rightarrow> json_config_t \<Rightarrow> json_parse_t \<Rightarrow>
    (json_parse_t \<Rightarrow> 'd json_token_t \<Rightarrow> 'd parse_result) \<Rightarrow> 'd parse_result" where
  "with_token api cfg json f =
    (case json_next_token api cfg json of
      Ok (json, token) \<Rightarrow> f json token
    | Throw m _ \<Rightarrow> Fault NullPointer
    | Fault e \<Rightarrow> Fault e)"

definition pbind :: "'d parse_result \<Rightarrow> ('d heap \<Rightarrow> 'd lval \<Rightarrow> json_parse_t \<Rightarrow> 'd parse_result) \<Rightarrow> 'd parse_result" where
  "pbind r f = lbind r (\<lambda>(h, v, json). f h v json)"

text \<open>\<open>lua_newtable\<close>, and \<open>lua_rawset\<close> on the table at an address: an existing key keeps its place.\<close>

definition table_set :: "'d heap \<Rightarrow> nat \<Rightarrow> 'd lval \<Rightarrow> 'd lval \<Rightarrow> 'd heap" where
  "table_set h a k v = h[a := AList.update k v (table_at h a)]"

text \<open>The three parser functions call one another.  The loops of the two contexts take the parser of
  the nested values as an argument and a bound \<open>k\<close> on their iterations; \<open>json_process_value\<close> ties the
  knot, with a bound on the nesting.  The address of the new table is \<open>a\<close>.\<close>

type_synonym 'd value_parser = "'d heap \<Rightarrow> json_parse_t \<Rightarrow> 'd json_token_t \<Rightarrow> 'd parse_result"

primrec object_loop :: "'d lua_api \<Rightarrow> json_config_t \<Rightarrow> 'd value_parser \<Rightarrow> nat \<Rightarrow>
    'd heap \<Rightarrow> nat \<Rightarrow> json_parse_t \<Rightarrow> 'd json_token_t \<Rightarrow> 'd parse_result" where
  "object_loop api cfg process_value 0 h a json token = Fault Hang"
| "object_loop api cfg process_value (Suc k) h a json token =
    (if tok_type token \<noteq> T_STRING then json_throw_parse_error h json ''object key string'' token
     else let key = LString (token_string token) in
       with_token api cfg json (\<lambda>json token.
         if tok_type token \<noteq> T_COLON then json_throw_parse_error h json ''colon'' token
         else with_token api cfg json (\<lambda>json token.
           pbind (process_value h json token) (\<lambda>h v json.
             with_token api cfg json (\<lambda>json token.
               if tok_type token = T_OBJ_END
               then Ok (table_set h a key v, LTable a, json_decode_ascend json)
               else if tok_type token \<noteq> T_COMMA
               then json_throw_parse_error (table_set h a key v) json ''comma or object end'' token
               else with_token api cfg json (\<lambda>json token.
                 object_loop api cfg process_value k (table_set h a key v) a json token))))))"

definition json_parse_object_context :: "'d lua_api \<Rightarrow> json_config_t \<Rightarrow> 'd value_parser \<Rightarrow> nat \<Rightarrow>
    'd heap \<Rightarrow> json_parse_t \<Rightarrow> 'd parse_result" where
  "json_parse_object_context api cfg process_value k h json =
    pbind (json_decode_descend api cfg h json)
      (\<lambda>h _ json. with_token api cfg json (\<lambda>json token.
        if tok_type token = T_OBJ_END
        then Ok (h @ [[]], LTable (length h), json_decode_ascend json)
        else object_loop api cfg process_value k (h @ [[]]) (length h) json token))"

primrec array_loop :: "'d lua_api \<Rightarrow> json_config_t \<Rightarrow> 'd value_parser \<Rightarrow> nat \<Rightarrow>
    'd heap \<Rightarrow> nat \<Rightarrow> int \<Rightarrow> json_parse_t \<Rightarrow> 'd json_token_t \<Rightarrow> 'd parse_result" where
  "array_loop api cfg process_value 0 h a i json token = Fault Hang"
| "array_loop api cfg process_value (Suc k) h a i json token =
    pbind (process_value h json token) (\<lambda>h v json.
      with_token api cfg json (\<lambda>json token.
        if tok_type token = T_ARR_END
        then Ok (table_set h a (LNumber (d_of_int api i)) v, LTable a, json_decode_ascend json)
        else if tok_type token \<noteq> T_COMMA
        then json_throw_parse_error (table_set h a (LNumber (d_of_int api i)) v) json ''comma or array end'' token
        else with_token api cfg json (\<lambda>json token.
          array_loop api cfg process_value k (table_set h a (LNumber (d_of_int api i)) v) a (i + 1) json token)))"

definition json_parse_array_context :: "'d lua_api \<Rightarrow> json_config_t \<Rightarrow> 'd value_parser \<Rightarrow> nat \<Rightarrow>
    'd heap \<Rightarrow> json_parse_t \<Rightarrow> 'd parse_result" where
  "json_parse_array_context api cfg process_value k h json =
    pbind (json_decode_descend api cfg h json)
      (\<lambda>h _ json. with_token api cfg json (\<lambda>json token.
        if tok_type token = T_ARR_END
        then Ok (h @ [[]], LTable (length h), json_decode_ascend json)
        else array_loop api cfg process_value k (h @ [[]]) (length h) 1 json token))"

primrec json_process_value :: "'d lua_api \<Rightarrow> json_config_t \<Rightarrow> nat \<Rightarrow> 'd value_parser" where
  "json_process_value api cfg 0 h json token = Fault Hang"
| "json_process_value api cfg (Suc fuel) h json token =
    (if tok_type token = T_STRING then Ok (h, LString (token_string token), json)
     else if tok_type token = T_NUMBER then Ok (h, LNumber (token_number api token), json)
     else if tok_type token = T_BOOLEAN then Ok (h, LBool (token_boolean token), json)
     else if tok_type token = T_OBJ_BEGIN
       then json_parse_object_context api cfg (json_process_value api cfg fuel) (fuel + 1) h json
     else if tok_type token = T_ARR_BEGIN
       then json_parse_array_context api cfg (json_process_value api cfg fuel) (fuel + 1) h json
     else if tok_type token = T_NULL then Ok (h, LLightUserdata 0, json)
     else json_throw_parse_error h json ''value'' token)"

text \<open>\<open>json_decode\<close> on the argument list; \<open>json_len\<close> and \<open>data\<close> are those of the string argument.\<close>

definition decode_fuel :: "string \<Rightarrow> nat" where
  "decode_fuel data = length data + 2"

definition json_decode :: "'d lua_api \<Rightarrow> json_config_t \<Rightarrow> 'd heap \<Rightarrow> 'd lval list \<Rightarrow> ('d heap \<times> 'd lval) lres" where
  "json_decode api cfg h args =
    (case args of
      [arg] \<Rightarrow>
        (case luaL_checkstring api arg of
          None \<Rightarrow> Throw (argerror 1 (''string expected, got '' @ lua_typename arg)) (h, LNil)
        | Some data \<Rightarrow>
            if 2 \<le> length data \<and> (data ! 0 = NUL \<or> data ! 1 = NUL)
            then Throw ''JSON parser does not support UTF-16 or UTF-32'' (h, LNil)
            else
              (case Lstrbuf_new (int (length data)) of
                Ok tmp \<Rightarrow>
                  (case with_token api cfg \<lparr>jp_data = data, jp_ptr = 0, jp_tmp = tmp, jp_depth = 0\<rparr>
                      (\<lambda>json token. pbind (json_process_value api cfg (decode_fuel data) h json token)
                        (\<lambda>h v json. with_token api cfg json (\<lambda>json token.
                          if tok_type token \<noteq> T_END then json_throw_parse_error h json ''the end'' token
                          else Ok (h, v, json\<lparr>jp_tmp := Lstrbuf_free (jp_tmp json)\<rparr>)))) of
                    Ok (h, v, json) \<Rightarrow> Ok (h, v)
                  | Throw m (h, v, json) \<Rightarrow> Throw m (h, LNil)
                  | Fault e \<Rightarrow> Fault e)
              | Throw m b \<Rightarrow> Fault NullPointer
              | Fault e \<Rightarrow> Fault e))
    | _ \<Rightarrow> Throw (argerror 1 ''expected 1 argument'') (h, LNil))"

text \<open>\<open>json_protect_conversion\<close> around a conversion function: a raised error is returned as a pair.\<close>

definition json_protect_conversion :: "('d lval list \<Rightarrow> ('s \<times> 'd lval) lres) \<Rightarrow> 's \<Rightarrow> 'd lval list \<Rightarrow> ('s \<times> 'd lval list) lres" where
  "json_protect_conversion f s args =
    (if length args = 1 then
       (case f args of
         Ok (s, v) \<Rightarrow> Ok (s, [v])
       | Throw m (s, _) \<Rightarrow> Ok (s, [LNil, LString m])
       | Fault e \<Rightarrow> Fault e)
     else Throw (argerror 1 ''expected 1 argument'') (s, []))"

end
