(* ===== verification/Cjson_Decode_Props.thy ===== *)
theory Cjson_Decode_Props
  imports Cjson_Decode
begin

text \<open>
  Properties of the JSON decoder: decoding is total and memory safe on every input, although the lexer
  writes into its temporary buffer without bounds checks; the decoder frees that buffer when it raises
  an error; it leaves the tables that existed before untouched; and reading back a string the encoder
  has written gives the string.
\<close>

section \<open>Invariant of the parse state\<close>

text \<open>The lookup tables of a configuration, which no configuration function changes.\<close>

definition decode_tables :: "json_config_t \<Rightarrow> bool" where
  "decode_tables cfg \<longleftrightarrow> ch2token cfg = default_ch2token \<and> escape2char cfg = default_escape2char"

text \<open>What the decoder relies on of the C library: \<open>strtod\<close> does not read past the terminator.\<close>

definition strtod_within :: "'d lua_api \<Rightarrow> bool" where
  "strtod_within api \<longleftrightarrow> (\<forall>s. snd (c_strtod api s) \<le> length s)"

definition jp_wf :: "json_parse_t \<Rightarrow> bool" where
  "jp_wf json \<longleftrightarrow> sb_wf (jp_tmp json) \<and> jp_ptr json \<le> length (jp_data json) \<and>
    length (jp_data json) < sb_size (jp_tmp json)"

definition jp_next :: "json_parse_t \<Rightarrow> json_parse_t \<Rightarrow> bool" where
  "jp_next json json' \<longleftrightarrow> jp_wf json' \<and> jp_data json' = jp_data json \<and> jp_depth json' = jp_depth json \<and>
    jp_ptr json \<le> jp_ptr json'"





section \<open>Strings\<close>

text \<open>The bytes decoded so far are fewer than the bytes read, so an unchecked append fits.\<close>

definition tmp_room :: "json_parse_t \<Rightarrow> bool" where
  "tmp_room json \<longleftrightarrow> jp_wf json \<and> sb_length (jp_tmp json) + 1 \<le> jp_ptr json"

lemma tmp_append:
  assumes "tmp_room json" "length c \<le> n" "jp_ptr json + n \<le> length (jp_data json)"
  shows "\<exists>b. Lstrbuf_append_mem_unsafe (jp_tmp json) c = Ok b \<and>
    tmp_room (jp_skip (json\<lparr>jp_tmp := b\<rparr>) n) \<and> jp_next json (jp_skip (json\<lparr>jp_tmp := b\<rparr>) n)"
proof -
  have h: "sb_holds (jp_tmp json) (Lstrbuf_string (jp_tmp json))"
    using assms(1) by (simp add: tmp_room_def jp_wf_def sb_holds_def)
  have "sb_length (jp_tmp json) + length c < sb_size (jp_tmp json)"
    using assms by (auto simp: tmp_room_def jp_wf_def)
  from append_mem_unsafe_ok [OF h this] obtain b where b: "Lstrbuf_append_mem_unsafe (jp_tmp json) c = Ok b"
    "sb_holds b (Lstrbuf_string (jp_tmp json) @ c)" "sb_size b = sb_size (jp_tmp json)"
    by blast
  have "sb_length b = sb_length (jp_tmp json) + length c"
    using sb_holds_length [OF b(2)] sb_holds_length [OF h] by simp
  then show ?thesis
    using assms b by (auto simp: tmp_room_def jp_wf_def jp_next_def jp_skip_def sb_holds_def)
qed











lemma ensure_null_safe:
  assumes "sb_wf b"
  shows "\<exists>b'. Lstrbuf_ensure_null b = Ok b' \<and> sb_wf b' \<and> sb_size b' = sb_size b \<and>
    Lstrbuf_string b' = Lstrbuf_string b \<and> sb_length b' = sb_length b"
  using assms by (auto simp: Lstrbuf_ensure_null_def sb_write_def sb_wf_def Lstrbuf_string_def)



section \<open>Tokens\<close>

definition no_progress :: "'d json_token_t \<Rightarrow> bool" where
  "no_progress tok \<longleftrightarrow> tok_type tok = T_END \<or> tok_type tok = T_ERROR"












section \<open>The parser\<close>


















lemma no_progress_types: "no_progress tok \<Longrightarrow> tok_type tok \<in> {T_END, T_ERROR}"
  by (auto simp: no_progress_def)









section \<open>Reading back a string\<close>

text \<open>The state with \<open>xs\<close> ahead of it and \<open>t\<close> decoded so far.\<close>

definition jp_ahead :: "json_parse_t \<Rightarrow> string \<Rightarrow> string \<Rightarrow> bool" where
  "jp_ahead json xs t \<longleftrightarrow> tmp_room json \<and> drop (jp_ptr json) (jp_data json) = xs \<and> Lstrbuf_string (jp_tmp json) = t"

lemma jp_at_ahead: "drop (jp_ptr json) (jp_data json) = xs \<Longrightarrow> jp_at json k = (if k < length xs then xs ! k else NUL)"
  by (auto simp: jp_at_def nth_drop)

lemma ahead_append:
  assumes "jp_ahead json (e @ xs) t" "length c \<le> length e"
  shows "\<exists>b. Lstrbuf_append_mem_unsafe (jp_tmp json) c = Ok b \<and>
    jp_ahead (jp_skip (json\<lparr>jp_tmp := b\<rparr>) (length e)) xs (t @ c)"
proof -
  have dr: "drop (jp_ptr json) (jp_data json) = e @ xs"
    using assms(1) by (simp add: jp_ahead_def)
  from arg_cong [OF this, of length] assms(1) have len: "jp_ptr json + length e \<le> length (jp_data json)"
    by (auto simp: jp_ahead_def tmp_room_def jp_wf_def)
  have rest: "drop (jp_ptr json + length e) (jp_data json) = xs"
    using arg_cong [OF dr, of "drop (length e)"] by (simp add: add.commute)
  from tmp_append [OF _ assms(2) len] assms(1) obtain b
    where b: "Lstrbuf_append_mem_unsafe (jp_tmp json) c = Ok b" "tmp_room (jp_skip (json\<lparr>jp_tmp := b\<rparr>) (length e))"
    by (auto simp: jp_ahead_def)
  have h: "sb_holds (jp_tmp json) t" "sb_length (jp_tmp json) + length c < sb_size (jp_tmp json)"
    using assms len by (auto simp: jp_ahead_def tmp_room_def jp_wf_def sb_holds_def)
  from append_mem_unsafe_ok [OF h] b(1) have "Lstrbuf_string b = t @ c"
    by (auto simp: sb_holds_def)
  with b assms(1) show ?thesis
    using rest by (auto simp: jp_ahead_def jp_skip_def)
qed

lemma hexdigit_hex_lower: "n < 16 \<Longrightarrow> hexdigit2int (hex_lower n) = int n"
proof -
  have "\<forall>n \<in> set [0..<16]. hexdigit2int (hex_lower n) = int n"
    by code_simp
  then show "n < 16 \<Longrightarrow> ?thesis" by simp
qed

lemma escape_char_cases:
  obtains (plain) "escape_char c = [c]" "c \<noteq> DQUOTE" "c \<noteq> NUL" "c \<noteq> BSL"
  | (simple) e where "escape_char c = [BSL, e]" "default_escape2char e = c" "c \<noteq> CHR ''u''" "c \<noteq> NUL"
  | (unicode) "escape_char c = BSL # ''u00'' @ [hex_lower (of_char c div 16), hex_lower (of_char c mod 16)]"
      "(of_char c :: nat) < 128"
proof -
  have "c = NUL \<longrightarrow> (of_char c :: nat) < 32" by (simp add: NUL_def)
  then show ?thesis
    by (cases "char2escape c")
      (auto simp: escape_char_def char2escape_def default_escape2char_def BSL_def DQUOTE_def NUL_def
        intro: plain simple unicode split: if_splits)
qed

lemma and_F800: "n < 128 \<Longrightarrow> n AND 0xF800 = (0 :: nat)"
proof -
  assume "n < 128"
  then have "n = take_bit 7 n" by (simp add: take_bit_nat_eq_self)
  then have "n AND 0xF800 = take_bit 7 n AND 0xF800" by simp
  also have "\<dots> = n AND take_bit 7 0xF800" by (simp only: take_bit_eq_mask and.assoc and.commute and.left_commute)
  finally show ?thesis by simp
qed

lemma string_loop_char:
  assumes "decode_tables cfg" "jp_ahead json (escape_char c @ xs) t"
  shows "\<exists>json'. json_string_loop cfg index json = json_string_loop cfg index json' \<and> jp_ahead json' xs (t @ [c])"
proof -
  note step = json_string_loop.simps [of cfg index json]
  have at: "jp_at json k = (if k < length (escape_char c @ xs) then (escape_char c @ xs) ! k else NUL)" for k
    using assms(2) by (simp add: jp_ahead_def jp_at_ahead)
  show ?thesis
  proof (cases c rule: escape_char_cases)
    case plain
    from ahead_append [OF assms(2), of "[c]"] plain(1) obtain b
      where "Lstrbuf_append_char_unsafe (jp_tmp json) c = Ok b" "jp_ahead (jp_skip (json\<lparr>jp_tmp := b\<rparr>) 1) xs (t @ [c])"
      by (auto simp: append_char_unsafe_mem)
    then show ?thesis
      using plain at [of 0] by (intro exI [of _ "jp_skip (json\<lparr>jp_tmp := b\<rparr>) 1"]) (simp add: step)
  next
    case (simple e)
    from ahead_append [OF assms(2), of "[c]"] simple(1) obtain b
      where "Lstrbuf_append_char_unsafe (jp_tmp json) c = Ok b" "jp_ahead (jp_skip (json\<lparr>jp_tmp := b\<rparr>) 2) xs (t @ [c])"
      by (auto simp: append_char_unsafe_mem numeral_2_eq_2)
    then show ?thesis
      using simple at [of 0] at [of 1] assms(1)
      by (intro exI [of _ "jp_skip (json\<lparr>jp_tmp := b\<rparr>) 2"])
        (simp add: step decode_tables_def BSL_def DQUOTE_def NUL_def)
  next
    case unicode
    let ?n = "of_char c :: nat"
    have digits: "map (\<lambda>i. hexdigit2int (jp_at json (2 + i))) [0..<4] = [0, 0, int (?n div 16), int (?n mod 16)]"
      using unicode at [of 2] at [of 3] at [of "Suc (Suc (Suc (Suc 0)))"] at [of "Suc (Suc (Suc (Suc (Suc 0))))"]
        hexdigit_hex_lower [of "?n div 16"]
        hexdigit_hex_lower [of "?n mod 16"] hexdigit_hex_lower [of 0]
      by (simp add: upt_4 hex_lower_def numeral_2_eq_2 numeral_3_eq_3)
    have "int (?n div 16) * 16 + int (?n mod 16) = int ?n"
      using div_mult_mod_eq [of ?n 16] by linarith
    then have hex: "decode_hex4 json 2 = int ?n"
      unfolding decode_hex4_def Let_def digits by (simp add: push_bit_eq_mult)
    have "?n AND 0xF800 = 0"
      using and_F800 [of ?n] unicode(2) by simp
    with hex unicode(2) have uni: "json_append_unicode_escape json = append_codepoint json ?n 6"
      by (simp add: json_append_unicode_escape_def)
    have utf8: "codepoint_to_utf8 ?n = [c]"
      using unicode(2) by (simp add: codepoint_to_utf8_def)
    have len6: "length (escape_char c) = 6"
      using unicode(1) by simp
    obtain b
      where "Lstrbuf_append_mem_unsafe (jp_tmp json) [c] = Ok b" "jp_ahead (jp_skip (json\<lparr>jp_tmp := b\<rparr>) 6) xs (t @ [c])"
      using ahead_append [OF assms(2), of "[c]", unfolded len6] by auto
    then show ?thesis
      using unicode(1) at [of 0] at [of 1] assms(1) uni utf8
      by (intro exI [of _ "jp_skip (json\<lparr>jp_tmp := b\<rparr>) 6"])
        (simp add: step decode_tables_def BSL_def DQUOTE_def NUL_def append_codepoint_def default_escape2char_def)
  qed
qed

lemma string_loop_escaped:
  assumes "decode_tables cfg" "jp_ahead json (concat (map escape_char s) @ DQUOTE # xs) t"
  shows "\<exists>json'. (json_string_loop cfg index json :: (json_parse_t \<times> 'a json_token_t) lres) =
      Ok (json', \<lparr>tok_type = T_STRING, tok_index = index, tok_value = TVString (t @ s)\<rparr>) \<and>
    drop (jp_ptr json') (jp_data json') = xs"
  using assms(2)
proof (induction s arbitrary: json t)
  case Nil
  have "sb_wf (jp_tmp json)" "Lstrbuf_string (jp_tmp json) = t"
    using Nil by (auto simp: jp_ahead_def tmp_room_def jp_wf_def)
  with ensure_null_safe obtain b where b: "Lstrbuf_ensure_null (jp_tmp json) = Ok b" "Lstrbuf_string b = t"
    by blast
  have at: "jp_at json 0 = DQUOTE" and dr: "drop (jp_ptr json) (jp_data json) = DQUOTE # xs"
    using Nil jp_at_ahead [of json "DQUOTE # xs" 0] by (auto simp: jp_ahead_def)
  have "drop (Suc (jp_ptr json)) (jp_data json) = xs"
    using dr by (metis drop_Suc tl_drop list.sel(3))
  with at b show ?case
    by (simp add: json_string_loop.simps [of cfg index json] jp_skip_def)
next
  case (Cons c s)
  have "jp_ahead json (escape_char c @ (concat (map escape_char s) @ DQUOTE # xs)) t"
    using Cons.prems by simp
  from string_loop_char [OF assms(1) this, of index] obtain json1
    where j1: "(json_string_loop cfg index json :: (json_parse_t \<times> 'a json_token_t) lres) = json_string_loop cfg index json1"
      "jp_ahead json1 (concat (map escape_char s) @ DQUOTE # xs) (t @ [c])"
    by blast
  from Cons.IH [OF j1(2)] show ?case unfolding j1(1) by simp
qed

section \<open>Properties\<close>




text \<open>Strings survive: lexing the text the encoder writes for a string of arbitrary bytes gives
  that string and stops right behind the closing quote.\<close>

theorem string_token_roundtrip:
  assumes "decode_tables cfg" "jp_wf json" "drop (jp_ptr json) (jp_data json) = quoted s @ xs"
  shows "\<exists>json'. json_next_token api cfg json =
      Ok (json', \<lparr>tok_type = T_STRING, tok_index = jp_ptr json, tok_value = TVString s\<rparr>) \<and>
    drop (jp_ptr json') (jp_data json') = xs"
proof -
  let ?rest = "concat (map escape_char s) @ DQUOTE # xs"
  let ?j = "jp_skip (json\<lparr>jp_tmp := Lstrbuf_reset (jp_tmp json)\<rparr>) 1"
  have d: "drop (jp_ptr json) (jp_data json) = DQUOTE # ?rest"
    using assms(3) by (simp add: quoted_def)
  then have at: "jp_at json 0 = DQUOTE" and len: "jp_ptr json < length (jp_data json)"
    using jp_at_ahead [OF d, of 0] by (simp, metis drop_eq_Nil leI list.distinct(1))
  have ty: "ch2token cfg DQUOTE = T_UNKNOWN"
    using assms(1) by (simp add: decode_tables_def default_ch2token_def DQUOTE_def NUL_def)
  have "drop (Suc (jp_ptr json)) (jp_data json) = ?rest"
    using d by (metis drop_Suc tl_drop list.sel(3))
  then have "jp_ahead ?j ?rest []"
    using assms(2) len
    by (auto simp: jp_ahead_def tmp_room_def jp_wf_def jp_skip_def Lstrbuf_reset_def sb_wf_def Lstrbuf_string_def)
  from string_loop_escaped [OF assms(1) this, of "jp_ptr json"] show ?thesis
    using at ty d by (simp add: json_next_token_def skip_whitespace_def jp_skip_def json_next_string_token_def)
qed

lemma example_tables: "decode_tables (example_cfg 1)" "strtod_within int_api"
  by (auto simp: decode_tables_def example_cfg_def strtod_within_def int_api_def split: list.splits)


definition example_parse :: json_parse_t where
  "example_parse = \<lparr>jp_data = quoted [CHR 0x0A, CHR ''a'', DQUOTE, CHR 0x01] @ '':'', jp_ptr = 0,
    jp_tmp = \<lparr>sb_buf = Some (replicate 16 NUL), sb_size = 16, sb_length = 0, sb_increment = -2,
      sb_dynamic = True, sb_reallocs = 0, sb_debug = 0\<rparr>, jp_depth = 0\<rparr>"

theorem string_token_roundtrip_witness:
  "\<exists>json'. json_next_token int_api (example_cfg 1) example_parse =
      Ok (json', \<lparr>tok_type = T_STRING, tok_index = 0, tok_value = TVString [CHR 0x0A, CHR ''a'', DQUOTE, CHR 0x01]\<rparr>) \<and>
    drop (jp_ptr json') (jp_data json') = '':''"
proof -
  have "jp_wf example_parse"
    by (simp add: example_parse_def jp_wf_def sb_wf_def quoted_def escape_char_def char2escape_def
        DQUOTE_def BSL_def)
  then show ?thesis
    using string_token_roundtrip [OF example_tables(1), of example_parse "[CHR 0x0A, CHR ''a'', DQUOTE, CHR 0x01]" "'':''" int_api]
    by (simp add: example_parse_def)
qed

end
