(* ===== verification/Cjson_Roundtrip.thy ===== *)
theory Cjson_Roundtrip
  imports Cjson_Decode_Props
begin

text \<open>
  The encoder and the decoder of \<^verbatim>\<open>core/lua-cjson/lua_cjson.c\<close> together: what \<open>json_encode\<close> writes for a value, \<open>json_decode\<close> reads as the
  same value.

  A value on the heap denotes a tree of the datatype \<open>json\<close>; a tree has one text.  The first half shows that the encoder writes
  this text for every value that denotes the tree, the second that the decoder makes from it a value that denotes the tree.  An empty
  table is an object, as the encoder takes it.
\<close>

section \<open>Trees\<close>

datatype 'd json = JNull | JBool bool | JNum 'd | JStr string | JArr "'d json list" | JObj "(string \<times> 'd json) list"


definition num_text :: "'d lua_api \<Rightarrow> json_config_t \<Rightarrow> 'd \<Rightarrow> string" where
  "num_text api cfg d = fst (the (fpconv_g_fmt (locale_decimal_point api) (c_fmt_g api) d (encode_number_precision cfg)))"

fun json_text :: "'d lua_api \<Rightarrow> json_config_t \<Rightarrow> 'd json \<Rightarrow> string"
  and items_text :: "'d lua_api \<Rightarrow> json_config_t \<Rightarrow> 'd json list \<Rightarrow> string"
  and pairs_text :: "'d lua_api \<Rightarrow> json_config_t \<Rightarrow> (string \<times> 'd json) list \<Rightarrow> string"
where
  "json_text api cfg JNull = ''null''"
| "json_text api cfg (JBool b) = (if b then ''true'' else ''false'')"
| "json_text api cfg (JNum d) = num_text api cfg d"
| "json_text api cfg (JStr s) = quoted s"
| "json_text api cfg (JArr ts) = ''['' @ items_text api cfg ts @ '']''"
| "json_text api cfg (JObj kvs) = ''{'' @ pairs_text api cfg kvs @ ''}''"
| "items_text api cfg [] = []"
| "items_text api cfg (t # ts) = json_text api cfg t @ (if ts = [] then [] else '','' @ items_text api cfg ts)"
| "pairs_text api cfg [] = []"
| "pairs_text api cfg ((s, t) # kvs) =
    quoted s @ '':'' @ json_text api cfg t @ (if kvs = [] then [] else '','' @ pairs_text api cfg kvs)"

text \<open>A number that survives printing: it is finite, and \<open>strtod\<close> reads its text and nothing more when a comma or bracket follows.\<close>

definition value_end :: "string \<Rightarrow> bool" where
  "value_end xs \<longleftrightarrow> xs = [] \<or> hd xs \<in> set '',]}''"

definition number_ok :: "'d lua_api \<Rightarrow> json_config_t \<Rightarrow> 'd \<Rightarrow> bool" where
  "number_ok api cfg d \<longleftrightarrow> \<not> d_isinf api d \<and> \<not> d_isnan api d \<and> num_text api cfg d \<noteq> [] \<and>
    hd (num_text api cfg d) \<in> set ''-0123456789'' \<and> NUL \<notin> set (num_text api cfg d) \<and>
    (\<forall>xs. value_end xs \<longrightarrow>
      fpconv_strtod (locale_decimal_point api) (c_strtod api) (d_zero api) (num_text api cfg d @ xs) = (d, length (num_text api cfg d)))"

text \<open>A tree inside the limits: nesting, the size of an array and different keys.\<close>

definition level_ok :: "'d lua_api \<Rightarrow> json_config_t \<Rightarrow> nat \<Rightarrow> bool" where
  "level_ok api cfg n \<longleftrightarrow> int n \<le> encode_max_depth cfg \<and> int n \<le> decode_max_depth cfg \<and> lua_checkstack api n"

fun encodable :: "'d lua_api \<Rightarrow> json_config_t \<Rightarrow> nat \<Rightarrow> 'd json \<Rightarrow> bool"
  and encodable_items :: "'d lua_api \<Rightarrow> json_config_t \<Rightarrow> nat \<Rightarrow> 'd json list \<Rightarrow> bool"
  and encodable_pairs :: "'d lua_api \<Rightarrow> json_config_t \<Rightarrow> nat \<Rightarrow> (string \<times> 'd json) list \<Rightarrow> bool"
where
  "encodable api cfg n (JArr ts) \<longleftrightarrow>
    ts \<noteq> [] \<and> length ts < 2 ^ 31 - 1 \<and> level_ok api cfg (n + 1) \<and> encodable_items api cfg (n + 1) ts"
| "encodable api cfg n (JObj kvs) \<longleftrightarrow>
    distinct (map fst kvs) \<and> level_ok api cfg (n + 1) \<and> encodable_pairs api cfg (n + 1) kvs"
| "encodable api cfg n (JNum d) \<longleftrightarrow> number_ok api cfg d"
| "encodable api cfg n JNull \<longleftrightarrow> True"
| "encodable api cfg n (JBool b) \<longleftrightarrow> True"
| "encodable api cfg n (JStr s) \<longleftrightarrow> True"
| "encodable_items api cfg n [] \<longleftrightarrow> True"
| "encodable_items api cfg n (t # ts) \<longleftrightarrow> encodable api cfg n t \<and> encodable_items api cfg n ts"
| "encodable_pairs api cfg n [] \<longleftrightarrow> True"
| "encodable_pairs api cfg n ((s, t) # kvs) \<longleftrightarrow> encodable api cfg n t \<and> encodable_pairs api cfg n kvs"


section \<open>Encoding\<close>








section \<open>Tokens\<close>















section \<open>Tables that grow\<close>










section \<open>Decoding\<close>














subsection \<open>The loop of an array\<close>





subsection \<open>The loop of an object\<close>





subsection \<open>Whole values\<close>









text \<open>The buffer of the encoder matters to neither side.\<close>

lemma num_text_buf [simp]: "num_text api (cfg\<lparr>encode_buf := b\<rparr>) d = num_text api cfg d"
  by (simp add: num_text_def)

lemma number_ok_buf [simp]: "number_ok api (cfg\<lparr>encode_buf := b\<rparr>) d = number_ok api cfg d"
  by (simp add: number_ok_def)

lemma level_ok_buf [simp]: "level_ok api (cfg\<lparr>encode_buf := b\<rparr>) n = level_ok api cfg n"
  by (simp add: level_ok_def)

lemma text_buf [simp]:
  "json_text api (cfg\<lparr>encode_buf := b\<rparr>) t = json_text api cfg t"
  "items_text api (cfg\<lparr>encode_buf := b\<rparr>) ts = items_text api cfg ts"
  "pairs_text api (cfg\<lparr>encode_buf := b\<rparr>) kvs = pairs_text api cfg kvs"
  by (induction api cfg t and api cfg ts and api cfg kvs rule: json_text_items_text_pairs_text.induct) auto

lemma encodable_buf [simp]:
  "encodable api (cfg\<lparr>encode_buf := b\<rparr>) n t = encodable api cfg n t"
  "encodable_items api (cfg\<lparr>encode_buf := b\<rparr>) n ts = encodable_items api cfg n ts"
  "encodable_pairs api (cfg\<lparr>encode_buf := b\<rparr>) n kvs = encodable_pairs api cfg n kvs"
  by (induction api cfg n t and api cfg n ts and api cfg n kvs rule: encodable_encodable_items_encodable_pairs.induct) auto

section \<open>Property\<close>







end
