(* ===== verification/Accounts.thy ===== *)
theory Accounts
  imports YsDB
begin

text \<open>
  What the account database promises, without its keys: an abstract state with one map for each kind of data, the operations on it,
  and the proof that \<^verbatim>\<open>core/ysdb.hpp\<close> implements them over its two key-value stores.

  \<open>abs_db\<close> reads the maps out of the stores.  The refinement needs that no two kinds of data, no two users and no two
  resources ever share a key.
\<close>

section \<open>The specification\<close>










section \<open>The implementation\<close>



section \<open>Refinement\<close>

lemma lit_distinct [simp]: "lit ''_tmp'' \<noteq> lit ''_key''" "lit ''_tmp'' \<noteq> lit ''_time''" "lit ''_key'' \<noteq> lit ''_time''"
  "lit ''_key'' \<noteq> lit ''_tmp''" "lit ''_time'' \<noteq> lit ''_tmp''" "lit ''_time'' \<noteq> lit ''_key''"
  by (simp_all add: lit_def)

lemma srcpre_user [simp]: "srcpre @ n \<noteq> user_key u s" "user_key u s \<noteq> srcpre @ n"
  by (simp_all add: user_key_def srcpre_def userpre_def lit_def)

lemma lit_not_Nil [simp]: "[] \<noteq> lit ''_tmp''" "[] \<noteq> lit ''_key''" "[] \<noteq> lit ''_time''"
  by (simp_all add: lit_def)













end
