(* ===== verification/Http_Request.thy ===== *)
theory Http_Request
  imports YsDB
begin

text \<open>
  A request of the HTTP server: the fields and the parser of \<^verbatim>\<open>core/httpdpaser.hpp\<close>, and the reading of lines and
  headers, class \<open>request\<close> and \<open>get_line\<close> of \<^verbatim>\<open>core/httpd.hpp\<close>.  A socket is the list of the bytes its
  peer sends before it closes; \<open>recv\<close> on the empty list returns 0.  A pointer is the list of the bytes that may be
  read from it on; a read behind that list is a failure (\<open>None\<close>).
\<close>

type_synonym fields = "bytes \<rightharpoonup> bytes"

section \<open>Pairs\<close>

text \<open>\<open>char\<close> is signed.\<close>

definition downchar :: "u8 \<Rightarrow> u8" where
  "downchar c = (if sint c < 65 then c else if sint c > 90 then c else c + (97 - 65))"

fun downstr :: "bytes \<Rightarrow> bytes" where
  "downstr [] = []"
| "downstr (c # s) = (if c = 0 then c # s else downchar c # downstr s)"

text \<open>The loops of \<open>kv_paser\<close> that fill \<open>buffer_k\<close> and \<open>buffer_v\<close>: the bytes copied and the pointer behind them.  The
  test \<open>cp != '\0'\<close> compares the pointer and never stops the loop.\<close>

fun kv_copy :: "nat \<Rightarrow> u8 \<Rightarrow> bytes \<Rightarrow> (bytes \<times> bytes) option" where
  "kv_copy 0 sep m = Some ([], m)"
| "kv_copy (Suc n) sep [] = None"
| "kv_copy (Suc n) sep (c # m) =
    (if c = sep then Some ([], c # m)
     else (case kv_copy n sep m of None \<Rightarrow> None | Some (b, r) \<Rightarrow> Some (c # b, r)))"

lemma kv_copy_shorter: "kv_copy n sep m = Some (b, r) \<Longrightarrow> length r \<le> length m"
  by (induction n sep m arbitrary: b rule: kv_copy.induct) (force split: if_splits option.splits)+

function kv_paser :: "u8 \<Rightarrow> u8 \<Rightarrow> bytes \<Rightarrow> fields \<Rightarrow> fields option" where
  "kv_paser cl ce str om =
    (case str of [] \<Rightarrow> None
     | c # _ \<Rightarrow>
       if c = 0 then Some om
       else
         (case kv_copy 126 cl str of None \<Rightarrow> None
          | Some (buffer_k, cp) \<Rightarrow>
            (case kv_copy 1022 ce (tl cp) of None \<Rightarrow> None
             | Some (buffer_v, cp') \<Rightarrow> kv_paser cl ce (tl cp') (om(cstr buffer_k \<mapsto> cstr buffer_v)))))"
  by pat_completeness auto
termination
proof (relation "measure (\<lambda>(cl, ce, str, om). length str)", simp, goal_cases)
  case (1 cl ce str om c rest kv buffer_k cp kv' buffer_v cp')
  then have "length cp \<le> length str" "length cp' \<le> length (tl cp)" "0 < length str"
    using kv_copy_shorter by blast+
  then show ?case by (cases str) auto
qed

declare kv_paser.simps [simp del]

section \<open>Requests\<close>

text \<open>\<open>postdata\<close> is not initialised; \<open>req_query\<close> and \<open>req_cookie\<close> are pointers, \<open>None\<close> is \<open>NULL\<close>.\<close>

record request =
  inited :: bool
  req_url :: bytes
  req_query :: "bytes option"
  req_cookie :: "bytes option"
  postmode :: bool
  content_length :: int
  postdata :: bytes
  paseredquery :: fields
  paseredpost :: fields
  paseredcookie :: fields
  paseredheader :: fields

definition requestBase :: "bytes \<Rightarrow> request" where
  "requestBase uninit =
    \<lparr>inited = False, req_url = [], req_query = None, req_cookie = None, postmode = False, content_length = -1, postdata = uninit,
     paseredquery = Map.empty, paseredpost = Map.empty, paseredcookie = Map.empty, paseredheader = Map.empty\<rparr>"

definition decode_pairs :: "bytes option \<Rightarrow> u8 \<Rightarrow> fields \<Rightarrow> fields option" where
  "decode_pairs p ce om =
    (case p of None \<Rightarrow> Some om
     | Some [] \<Rightarrow> None
     | Some (c # s) \<Rightarrow> if c = 0 then Some om else kv_paser 61 ce (c # s) om)"

definition query_decode :: "request \<Rightarrow> request option" where
  "query_decode r = map_option (\<lambda>om. r\<lparr>paseredquery := om\<rparr>) (decode_pairs (req_query r) 38 (paseredquery r))"

definition cookie_decode :: "request \<Rightarrow> request option" where
  "cookie_decode r = map_option (\<lambda>om. r\<lparr>paseredcookie := om\<rparr>) (decode_pairs (req_cookie r) 59 (paseredcookie r))"

definition post_decode :: "request \<Rightarrow> request option" where
  "post_decode r =
    (let r = r\<lparr>postdata := (postdata r)[4095 := 0]\<rparr>
     in map_option (\<lambda>om. r\<lparr>paseredpost := om\<rparr>) (decode_pairs (Some (postdata r)) 38 (paseredpost r)))"

section \<open>Lines\<close>

text \<open>One byte for a line: a carriage return becomes a line feed and takes a line feed behind it along.\<close>

fun recv_char :: "bytes \<Rightarrow> (u8 \<times> bytes) option" where
  "recv_char [] = None"
| "recv_char (c # s) = (if c = 13 then Some (10, if s \<noteq> [] \<and> hd s = 10 then tl s else s) else Some (c, s))"

fun get_line_loop :: "nat \<Rightarrow> bytes \<Rightarrow> bytes \<times> bytes" where
  "get_line_loop 0 sock = ([], sock)"
| "get_line_loop (Suc n) sock =
    (case recv_char sock of None \<Rightarrow> ([], sock)
     | Some (c, sock) \<Rightarrow>
       if c = 10 then ([c], sock) else (case get_line_loop n sock of (buf, sock) \<Rightarrow> (c # buf, sock)))"

text \<open>The bytes stored before the terminator, whose number is the result, and the rest of the stream.\<close>

definition get_line :: "bytes \<Rightarrow> nat \<Rightarrow> bytes \<times> bytes" where
  "get_line sock sz = get_line_loop (sz - 1) sock"

lemma recv_char_shorter: "recv_char s = Some (c, s') \<Longrightarrow> length s' < length s"
  by (cases s) (auto split: if_splits)

lemma get_line_loop_shorter: "get_line_loop n s = (l, s') \<Longrightarrow> l \<noteq> [] \<Longrightarrow> length s' < length s"
  and get_line_loop_Nil: "get_line_loop n s = ([], s') \<Longrightarrow> s' = s \<and> (n = 0 \<or> s = [])"
proof -
  have "get_line_loop n s = (l, s') \<Longrightarrow> length s' \<le> length s \<and> (l \<noteq> [] \<longrightarrow> length s' < length s)"
    by (induction n s arbitrary: l rule: get_line_loop.induct)
      (fastforce split: option.splits if_splits prod.splits dest: recv_char_shorter)+
  then show "get_line_loop n s = (l, s') \<Longrightarrow> l \<noteq> [] \<Longrightarrow> length s' < length s" by blast
  show "get_line_loop n s = ([], s') \<Longrightarrow> s' = s \<and> (n = 0 \<or> s = [])"
    by (cases n; cases s) (auto split: option.splits if_splits prod.splits)
qed

section \<open>Headers\<close>

text \<open>The body of the loop of \<open>readheader\<close>: the line is cut at the colon and entered when a value follows.\<close>

definition header_field :: "bytes \<Rightarrow> fields \<Rightarrow> fields" where
  "header_field buf m =
    (let s = cstr buf; k = takeWhile (\<lambda>c. c \<noteq> 58) s; v = drop (length k + 1) s
     in if s \<noteq> [] \<and> v \<noteq> [] then m(downstr k \<mapsto> v) else m)"

function readheader_loop :: "bool \<Rightarrow> bytes \<Rightarrow> bytes \<Rightarrow> fields \<Rightarrow> fields \<times> bytes" where
  "readheader_loop go buf sock m =
    (if go \<and> cstr buf \<noteq> [10]
     then (case get_line sock 4096 of (buf', sock') \<Rightarrow> readheader_loop (buf' \<noteq> []) buf' sock' (header_field buf m))
     else (m, sock))"
  by pat_completeness auto
termination
  by (relation "measure (\<lambda>(go, buf, sock, m). length sock + (if go then 1 else 0))")
    (auto simp: get_line_def dest: get_line_loop_shorter [OF sym] get_line_loop_Nil [OF sym])

declare readheader_loop.simps [simp del]

text \<open>\<open>atoi\<close> of the C library: \<open>strtol\<close>, which clamps, cut to an \<open>int\<close>.\<close>

definition isspace :: "u8 \<Rightarrow> bool" where
  "isspace c \<longleftrightarrow> c = 32 \<or> 9 \<le> c \<and> c \<le> 13"

definition digits_val :: "bytes \<Rightarrow> int" where
  "digits_val s = fold (\<lambda>c n. n * 10 + (uint c - 48)) (takeWhile (\<lambda>c. 48 \<le> c \<and> c \<le> 57) s) 0"

definition strtol_val :: "bytes \<Rightarrow> int" where
  "strtol_val s =
    (let s = dropWhile isspace (cstr s);
         n = (if s \<noteq> [] \<and> hd s = 45 then - digits_val (tl s) else if s \<noteq> [] \<and> hd s = 43 then digits_val (tl s) else digits_val s)
     in max (- (2 ^ 63)) (min (2 ^ 63 - 1) n))"

definition atoi :: "bytes \<Rightarrow> int" where
  "atoi s = sint (word_of_int (strtol_val s) :: u32)"

text \<open>\<open>readheader\<close>: \<open>numchars\<close> is not initialised.\<close>

definition readheader :: "int \<Rightarrow> request \<Rightarrow> bytes \<Rightarrow> request \<times> bytes" where
  "readheader numchars r sock =
    (case readheader_loop (0 < numchars) [] sock (paseredheader r) of
      (m, sock) \<Rightarrow>
        (r\<lparr>paseredheader := m, content_length := (case m (lit ''content-length'') of Some v \<Rightarrow> atoi v | None \<Rightarrow> -1)\<rparr>, sock))"

definition init :: "int \<Rightarrow> request \<Rightarrow> bytes \<Rightarrow> request \<times> bytes" where
  "init numchars r sock = (if inited r then (r, sock) else readheader numchars (r\<lparr>inited := True\<rparr>) sock)"

definition checkpost :: "int \<Rightarrow> request \<Rightarrow> bytes \<Rightarrow> bool \<times> request \<times> bytes" where
  "checkpost numchars r sock = (case init numchars r sock of (r, sock) \<Rightarrow> (content_length r \<noteq> -1, r, sock))"

definition getcookie :: "int \<Rightarrow> request \<Rightarrow> bytes \<Rightarrow> bool \<times> request \<times> bytes" where
  "getcookie numchars r sock =
    (case init numchars r sock of
      (r, sock) \<Rightarrow>
        (case paseredheader r (lit ''cookie'') of
          None \<Rightarrow> (False, r, sock)
        | Some v \<Rightarrow> (True, r\<lparr>req_cookie := Some (v @ [0])\<rparr>, sock)))"

text \<open>\<open>got\<close> is how much the one call of \<open>recv\<close> delivers, at most the size of the buffer.\<close>

definition getpost :: "int \<Rightarrow> nat \<Rightarrow> request \<Rightarrow> bytes \<Rightarrow> bool \<times> request \<times> bytes" where
  "getpost numchars got r sock =
    (case checkpost numchars r sock of
      (ok, r, sock) \<Rightarrow>
        if \<not> ok then (False, r, sock)
        else
          (let n = min got (min 4096 (length sock))
           in (True, r\<lparr>postdata := take n sock @ drop n (postdata r)\<rparr>, drop n sock)))"

text \<open>The copying of the body: a byte that does not arrive leaves the variable as it is.\<close>

fun copy_body :: "nat \<Rightarrow> u8 \<Rightarrow> bytes \<Rightarrow> bytes \<times> bytes" where
  "copy_body 0 c sock = ([], sock)"
| "copy_body (Suc n) c sock =
    (case sock of
      [] \<Rightarrow> (case copy_body n c [] of (out, sock) \<Rightarrow> (c # out, sock))
    | c # sock \<Rightarrow> (case copy_body n c sock of (out, sock) \<Rightarrow> (c # out, sock)))"

text \<open>The limit is unsigned, so the length is compared as an unsigned number.\<close>

definition writePostIntoFile :: "int \<Rightarrow> u8 \<Rightarrow> u32 \<Rightarrow> request \<Rightarrow> bytes \<Rightarrow> bool \<times> bytes \<times> request \<times> bytes" where
  "writePostIntoFile numchars c httpBodyLength r sock =
    (case checkpost numchars r sock of
      (ok, r, sock) \<Rightarrow>
        if \<not> ok then (False, [], r, sock)
        else if httpBodyLength < word_of_int (content_length r) then (False, [], r, sock)
        else (case copy_body (nat (content_length r)) c sock of (out, sock) \<Rightarrow> (True, out, r, sock)))"

section \<open>Lines and headers of a well-formed request\<close>

lemma get_line_loop_prefix:
  assumes "10 \<notin> set l" "13 \<notin> set l" "length l \<le> n"
  shows "get_line_loop n (l @ s) = (case get_line_loop (n - length l) s of (buf, s') \<Rightarrow> (l @ buf, s'))"
  using assms
proof (induction l arbitrary: n)
  case (Cons c l)
  then obtain n' where "n = Suc n'" by (cases n) auto
  with Cons show ?case by (auto split: prod.splits)
qed simp

definition line_end :: "bytes \<Rightarrow> bytes \<Rightarrow> bool" where
  "line_end eol rest \<longleftrightarrow> eol = [10] \<or> eol = [13, 10] \<or> eol = [13] \<and> (rest = [] \<or> hd rest \<noteq> 10)"

lemma get_line_loop_eol:
  assumes "line_end eol rest" "0 < n"
  shows "get_line_loop n (eol @ rest) = ([10], rest)"
  using assms by (cases n) (auto simp: line_end_def)

lemma get_line_prefix:
  assumes "10 \<notin> set l" "13 \<notin> set l" "length l + 1 < sz" "line_end eol rest"
  shows "get_line (l @ eol @ rest) sz = (l @ [10], rest)"
  using get_line_loop_prefix [OF assms(1,2), of "sz - 1" "eol @ rest"] get_line_loop_eol [OF assms(4), of "sz - 1 - length l"] assms(3)
  by (simp add: get_line_def)

lemma get_line_bound: "length (fst (get_line s sz)) \<le> sz - 1"
proof -
  have "length (fst (get_line_loop n s)) \<le> n" for n
    by (induction n s rule: get_line_loop.induct) (auto split: option.splits prod.splits)
  then show ?thesis by (simp add: get_line_def)
qed

lemma cstr_no_zero: "0 \<notin> set s \<Longrightarrow> cstr s = s"
  by (auto simp: cstr_def takeWhile_eq_all_conv)

text \<open>A line that fits the buffer.\<close>

definition text_line :: "nat \<Rightarrow> bytes \<Rightarrow> bool" where
  "text_line sz l \<longleftrightarrow> l \<noteq> [] \<and> set l \<inter> {0, 10, 13} = {} \<and> length l + 1 < sz"

text \<open>The contract of the loops that read header lines until the empty one: \<open>view\<close> is the line in the buffer,
  \<open>feed\<close> uses it and loads the next, \<open>res\<close> is what is returned.\<close>

locale header_loop =
  fixes loop :: "bool \<Rightarrow> 'b \<Rightarrow> bytes \<Rightarrow> 'r \<times> bytes"
    and view :: "'b \<Rightarrow> bytes"
    and feed :: "bytes \<Rightarrow> 'b \<Rightarrow> 'b"
    and res :: "'b \<Rightarrow> 'r"
    and sz :: nat
  assumes loop_unfold: "loop go b s =
      (if go \<and> view b \<noteq> [10] then (case get_line s sz of (l, s') \<Rightarrow> loop (l \<noteq> []) (feed l b) s') else (res b, s))"
    and view_feed: "0 \<notin> set l \<Longrightarrow> view (feed l b) = l"
    and size_pos: "1 < sz"
begin

lemma loop_blank:
  assumes "view b \<noteq> [10]"
  shows "loop True b ([13, 10] @ body) = (res (feed [10] b), body)"
proof -
  have "get_line ([] @ [13, 10] @ body) sz = ([] @ [10], body)"
    using size_pos by (intro get_line_prefix) (simp_all add: line_end_def)
  then show ?thesis
    using assms by (simp add: loop_unfold [of True b] loop_unfold [of True "feed [10] b"] view_feed)
qed

lemma loop_lines:
  assumes "list_all (text_line sz) ls" "view b \<noteq> [10]"
  shows "loop True b (concat (map (\<lambda>l. l @ [13, 10]) ls) @ [13, 10] @ body) =
    (res (feed [10] (fold (\<lambda>l. feed (l @ [10])) ls b)), body)"
  using assms
proof (induction ls arbitrary: b)
  case Nil
  then show ?case using loop_blank [of b body] by simp
next
  case (Cons l ls)
  let ?s = "concat (map (\<lambda>l. l @ [13, 10]) ls) @ [13, 10] @ body"
  have "get_line (l @ [13, 10] @ ?s) sz = (l @ [10], ?s)"
    using Cons.prems by (intro get_line_prefix) (auto simp: text_line_def line_end_def)
  moreover have "view (feed (l @ [10]) b) = l @ [10]"
    using Cons.prems by (intro view_feed) (auto simp: text_line_def)
  moreover have "l @ [10] \<noteq> [10]" using Cons.prems by (simp add: text_line_def)
  ultimately show ?case
    using Cons.prems Cons.IH [of "feed (l @ [10]) b"] by (simp add: loop_unfold [of True b])
qed

lemma loop_closed: "view b \<noteq> [10] \<Longrightarrow> loop True b [] = (res (feed [] b), [])"
  using size_pos
  by (cases "sz - 1") (simp_all add: loop_unfold [of True b] loop_unfold [of False] get_line_def)

end

text \<open>A header as a browser writes it.\<close>

definition header_line :: "bytes \<times> bytes \<Rightarrow> bytes" where
  "header_line h = fst h @ [58] @ snd h @ [13, 10]"

definition header_ok :: "bytes \<times> bytes \<Rightarrow> bool" where
  "header_ok h \<longleftrightarrow> set (fst h) \<inter> {0, 10, 13, 58} = {} \<and> set (snd h) \<inter> {0, 10, 13} = {} \<and> length (fst h) + length (snd h) < 4090"

definition enter_headers :: "(bytes \<times> bytes) list \<Rightarrow> fields \<Rightarrow> fields" where
  "enter_headers hs m = fold (\<lambda>(k, v) m. m(map downchar k \<mapsto> v @ [10])) hs m"

lemma enter_headers_simps [simp]:
  "enter_headers [] m = m" "enter_headers ((k, v) # hs) m = enter_headers hs (m(map downchar k \<mapsto> v @ [10]))"
  by (simp_all add: enter_headers_def)

lemma downstr_map: "0 \<notin> set s \<Longrightarrow> downstr s = map downchar s"
  by (induction s) auto

lemma header_field_line:
  assumes "header_ok (k, v)"
  shows "header_field (k @ 58 # v @ [10]) m = m(map downchar k \<mapsto> v @ [10])"
proof -
  have "cstr (k @ 58 # v @ [10]) = k @ 58 # v @ [10]" using assms by (intro cstr_no_zero) (auto simp: header_ok_def)
  moreover have "takeWhile (\<lambda>c. c \<noteq> 58) (k @ 58 # v @ [10]) = k"
    using assms by (subst takeWhile_append2) (auto simp: header_ok_def)
  ultimately show ?thesis using assms by (simp add: header_field_def downstr_map header_ok_def)
qed

interpretation rh: header_loop "\<lambda>go (buf, m) s. readheader_loop go buf s m" "\<lambda>(buf, m). cstr buf"
  "\<lambda>l (buf, m). (l, header_field buf m)" snd 4096
  by unfold_locales (auto simp: readheader_loop.simps cstr_no_zero split: prod.splits)

text \<open>A header as a line of text.\<close>

definition header_text :: "bytes \<times> bytes \<Rightarrow> bytes" where
  "header_text h = fst h @ 58 # snd h"

lemma header_lines: "concat (map header_line hs) = concat (map (\<lambda>l. l @ [13, 10]) (map header_text hs))"
  by (induction hs) (simp_all add: header_line_def header_text_def)

lemma header_text_line: "list_all header_ok hs \<Longrightarrow> list_all (text_line 4096) (map header_text hs)"
  by (auto simp: list_all_iff header_ok_def header_text_def text_line_def)

lemma fold_headers:
  "list_all header_ok hs \<Longrightarrow> (case fold (\<lambda>l (buf, m). (l @ [10], header_field buf m)) (map header_text hs) (buf, m) of
     (buf', m') \<Rightarrow> header_field buf' m' = enter_headers hs (header_field buf m))"
proof (induction hs arbitrary: buf m)
  case (Cons h hs)
  obtain k v where h: "h = (k, v)" by force
  have "header_field (k @ 58 # v @ [10]) (header_field buf m) = (header_field buf m)(map downchar k \<mapsto> v @ [10])"
    using Cons.prems h by (intro header_field_line) simp
  then show ?case
    using Cons.IH [of "k @ 58 # v @ [10]" "header_field buf m"] Cons.prems h by (simp add: header_text_def del: fun_upd_apply)
qed simp

lemma readheader_loop_lines:
  assumes "list_all header_ok hs" "cstr buf \<noteq> [10]"
  shows "readheader_loop True buf (concat (map header_line hs) @ [13, 10] @ body) m = (enter_headers hs (header_field buf m), body)"
proof -
  have "readheader_loop True buf (concat (map header_line hs) @ [13, 10] @ body) m =
      (case fold (\<lambda>l (buf, m). (l @ [10], header_field buf m)) (map header_text hs) (buf, m) of (buf', m') \<Rightarrow> header_field buf' m', body)"
    using rh.loop_lines [OF header_text_line [OF assms(1)], of "(buf, m)" body] assms(2)
    by (simp add: header_lines split: prod.splits)
  then show ?thesis using fold_headers [OF assms(1), of buf m] by (simp split: prod.splits)
qed

lemma header_field_Nil [simp]: "header_field [] m = m"
  by (simp add: header_field_def cstr_def)

lemma readheader_lines:
  assumes "list_all header_ok hs" "0 < numchars"
  shows "readheader numchars r (concat (map header_line hs) @ [13, 10] @ body) =
    (r\<lparr>paseredheader := enter_headers hs (paseredheader r),
       content_length := (case enter_headers hs (paseredheader r) (lit ''content-length'') of Some v \<Rightarrow> atoi v | None \<Rightarrow> -1)\<rparr>, body)"
  using readheader_loop_lines [OF assms(1), of "[]" body "paseredheader r"] assms(2)
  by (simp add: readheader_def cstr_def)

section \<open>Pairs\<close>

lemma kv_copy_sep:
  "sep \<notin> set b \<Longrightarrow> length b \<le> n \<Longrightarrow> kv_copy n sep (b @ sep # m) = Some (b, sep # m)"
proof (induction b arbitrary: n)
  case Nil
  then show ?case by (cases n) auto
next
  case (Cons c b)
  then obtain n' where "n = Suc n'" by (cases n) auto
  with Cons show ?case by auto
qed

lemma kv_copy_overread: "sep \<notin> set m \<Longrightarrow> length m < n \<Longrightarrow> kv_copy n sep m = None"
proof (induction m arbitrary: n)
  case Nil
  then show ?case by (cases n) auto
next
  case (Cons c m)
  then obtain n' where "n = Suc n'" by (cases n) auto
  with Cons show ?case by auto
qed

definition pair_ok :: "u8 \<Rightarrow> u8 \<Rightarrow> bytes \<times> bytes \<Rightarrow> bool" where
  "pair_ok cl ce p \<longleftrightarrow> set (fst p) \<inter> {0, cl} = {} \<and> set (snd p) \<inter> {0, ce} = {} \<and> length (fst p) \<le> 126 \<and> length (snd p) \<le> 1022"

definition pair_text :: "u8 \<Rightarrow> u8 \<Rightarrow> bytes \<times> bytes \<Rightarrow> bytes" where
  "pair_text cl ce p = fst p @ [cl] @ snd p @ [ce]"

definition enter_pairs :: "(bytes \<times> bytes) list \<Rightarrow> fields \<Rightarrow> fields" where
  "enter_pairs ps om = fold (\<lambda>(k, v) om. om(k \<mapsto> v)) ps om"

lemma kv_paser_pair:
  assumes "cl \<noteq> 0" "pair_ok cl ce (k, v)"
  shows "kv_paser cl ce (k @ cl # v @ ce # m) om = kv_paser cl ce m (om(k \<mapsto> v))"
proof -
  have "hd (k @ cl # v @ ce # m) \<noteq> 0" using assms by (cases k) (auto simp: pair_ok_def)
  moreover have "kv_copy 126 cl (k @ cl # v @ ce # m) = Some (k, cl # v @ ce # m)" "kv_copy 1022 ce (v @ ce # m) = Some (v, ce # m)"
    using assms by (auto intro!: kv_copy_sep simp: pair_ok_def)
  ultimately show ?thesis
    using assms(2) by (subst kv_paser.simps) (auto simp: pair_ok_def cstr_no_zero split: list.splits)
qed

lemma kv_paser_pairs:
  assumes "cl \<noteq> 0" "list_all (pair_ok cl ce) ps"
  shows "kv_paser cl ce (concat (map (pair_text cl ce) ps) @ m) om = kv_paser cl ce m (enter_pairs ps om)"
  using assms by (induction ps arbitrary: om) (auto simp: enter_pairs_def pair_text_def kv_paser_pair)

lemma kv_paser_last_pair:
  assumes "cl \<noteq> 0" "pair_ok cl ce (k, v)" "length v < 1021" "ce \<noteq> 0"
  shows "kv_paser cl ce (k @ cl # v @ [0]) om = None"
proof -
  have "hd (k @ cl # v @ [0]) \<noteq> 0" using assms by (cases k) (auto simp: pair_ok_def)
  moreover have "kv_copy 126 cl (k @ cl # v @ [0]) = Some (k, cl # v @ [0])"
    using assms by (auto intro!: kv_copy_sep simp: pair_ok_def)
  moreover have "kv_copy 1022 ce (v @ [0]) = None"
    using assms by (intro kv_copy_overread) (auto simp: pair_ok_def)
  ultimately show ?thesis by (subst kv_paser.simps) (auto split: list.splits)
qed

lemma decode_pairs_Some [simp]: "decode_pairs (Some s) ce om = kv_paser 61 ce s om"
  by (cases s) (auto simp: decode_pairs_def kv_paser.simps)

lemma copy_body_take: "n \<le> length s \<Longrightarrow> copy_body n c s = (take n s, drop n s)"
  by (induction n c s rule: copy_body.induct) (auto split: list.splits)

section \<open>Properties\<close>

text \<open>A line, whichever way it ends, is read to its end and no further, and the line stays inside the buffer.\<close>

theorem get_line_reads_line:
  assumes "10 \<notin> set l" "13 \<notin> set l" "length l + 1 < sz" "line_end eol rest"
  shows "get_line (l @ eol @ rest) sz = (l @ [10], rest)"
  using assms by (rule get_line_prefix)

text \<open>C15. The headers of a request, whatever their order, are entered under their names in small letters and the stream
  is left at the body; but every value keeps the line feed that ended it.  The premise on \<open>numchars\<close> is on
  uninitialised memory.\<close>

theorem headers_parsed:
  assumes "list_all header_ok hs" "0 < numchars"
  shows "case readheader numchars r (concat (map header_line hs) @ [13, 10] @ body) of
      (r', sock) \<Rightarrow> sock = body \<and> paseredheader r' = enter_headers hs (paseredheader r)"
  using readheader_lines [OF assms, of r body] by auto

text \<open>The pairs of a query, each with its separator behind it, are all entered, with the last value of
  a name counting, whatever follows the terminator.\<close>

theorem query_pairs_decoded:
  assumes "list_all (pair_ok 61 38) ps" "req_query r = Some (concat (map (pair_text 61 38) ps) @ [0] @ m)"
  shows "query_decode r = Some (r\<lparr>paseredquery := enter_pairs ps (paseredquery r)\<rparr>)"
proof -
  have "kv_paser 61 38 (0 # m) om = Some om" for om by (simp add: kv_paser.simps)
  then show ?thesis
    using kv_paser_pairs [OF _ assms(1), of "0 # m"] assms(2) by (simp add: query_decode_def)
qed

text \<open>Cookies as browsers send them, pairs with a separator between them and none behind the last: decoding
  reads behind the end of the string, because the end of the string is not looked for.\<close>

theorem cookies_read_out_of_bounds:
  assumes "list_all (pair_ok 61 59) ps" "pair_ok 61 59 (k, v)" "length v < 1021"
    "req_cookie r = Some (concat (map (pair_text 61 59) ps) @ k @ [61] @ v @ [0])"
  shows "cookie_decode r = None"
  using kv_paser_pairs [OF _ assms(1), of "k @ [61] @ v @ [0]"] kv_paser_last_pair [of 61 59 k v] assms(2-4)
  by (simp add: cookie_decode_def)

theorem get_line_reads_line_witness: "get_line (lit ''GET'' @ [13, 10] @ [65]) 1024 = (lit ''GET'' @ [10], [65])"
  by (rule get_line_reads_line) (simp_all add: lit_def line_end_def)

theorem headers_parsed_witness:
  "case readheader 1 (requestBase []) (concat (map header_line [(lit ''Host'', lit '' x'')]) @ [13, 10] @ [7]) of
      (r', sock) \<Rightarrow> sock = [7] \<and> paseredheader r' = enter_headers [(lit ''Host'', lit '' x'')] Map.empty"
  using headers_parsed [where hs = "[(lit ''Host'', lit '' x'')]" and numchars = 1 and r = "requestBase []" and body = "[7]"]
  by (simp add: header_ok_def lit_def requestBase_def)

theorem query_pairs_decoded_witness:
  "map_option paseredquery (query_decode ((requestBase [])\<lparr>req_query := Some (lit ''a=1&b=2&'' @ [0, 9])\<rparr>)) =
     Some [lit ''a'' \<mapsto> lit ''1'', lit ''b'' \<mapsto> lit ''2'']"
  using query_pairs_decoded [of "[(lit ''a'', lit ''1''), (lit ''b'', lit ''2'')]" "(requestBase [])\<lparr>req_query := Some (lit ''a=1&b=2&'' @ [0, 9])\<rparr>" "[9]"]
  by (simp add: pair_ok_def pair_text_def lit_def requestBase_def enter_pairs_def)

theorem cookies_read_out_of_bounds_witness:
  "cookie_decode ((requestBase [])\<lparr>req_cookie := Some (lit ''a=1; b=2'' @ [10, 0])\<rparr>) = None"
  by (rule cookies_read_out_of_bounds [of "[(lit ''a'', lit ''1'')]" "lit '' b''" "lit ''2'' @ [10]"])
    (simp_all add: pair_ok_def pair_text_def lit_def)

end
