(* ===== verification/Fastcgi.thy ===== *)
theory Fastcgi
  imports Http_Request
begin

text \<open>
  The FastCGI client of \<^verbatim>\<open>core/httpdfastcgi.hpp\<close>: the records, the headers of the request, what is sent to the FastCGI
  server and how its answer is read.  The result of a function that may leave its buffers is \<open>Overrun\<close>; the two
  loops that may run for ever are partial functions, whose value is \<open>None\<close> when they do not return.
\<close>

section \<open>Connections\<close>

text \<open>A connection of the HTTP server: what is still to be read, what was sent, how often it was closed, and
  the number of requests being served (the global \<open>thread_number\<close>).\<close>

record http_conn =
  sock :: bytes
  sent :: bytes
  closes :: nat
  thread_number :: int

definition writeStr :: "bytes \<Rightarrow> http_conn \<Rightarrow> http_conn" where
  "writeStr str c = c\<lparr>sent := sent c @ str\<rparr>"

definition crlf :: bytes where
  "crlf = [13, 10]"

datatype 'a served = Served 'a | Overrun

section \<open>Records\<close>

text \<open>The bytes of a \<open>FCGI_Header\<close> and of a \<open>FCGI_BeginRequestBody\<close>.\<close>

definition makeHeader :: "nat \<Rightarrow> nat \<Rightarrow> nat \<Rightarrow> nat \<Rightarrow> bytes" where
  "makeHeader type requestId contentLength paddingLength =
    [1, word_of_nat type, word_of_nat (requestId div 256), word_of_nat requestId,
     word_of_nat (contentLength div 256), word_of_nat contentLength, word_of_nat paddingLength, 0]"

definition makeBeginRequestBody :: "nat \<Rightarrow> bytes" where
  "makeBeginRequestBody role = [word_of_nat (role div 256), word_of_nat role, 0] @ replicate 5 0"

definition padding_len :: "nat \<Rightarrow> nat" where
  "padding_len n = (if n mod 8 = 0 then 0 else 8 - n mod 8)"

definition params_record :: "nat \<Rightarrow> bytes \<times> bytes \<Rightarrow> bytes" where
  "params_record requestId p =
    (case p of (name, val) \<Rightarrow>
      let conLength = length name + length val + 2; paddingLength = padding_len conLength
      in makeHeader 4 requestId conLength paddingLength @ [word_of_nat (length name), word_of_nat (length val)]
         @ name @ val @ replicate paddingLength 0)"

section \<open>Paths\<close>

text \<open>The walk back to the last slash.\<close>

fun walk_back :: "bytes \<Rightarrow> nat \<Rightarrow> nat" where
  "walk_back mem 0 = 0"
| "walk_back mem (Suc n) = (if mem ! Suc n = 47 then Suc n else walk_back mem n)"

text \<open>What happens at the end of a component: the new output position.\<close>

definition end_component :: "bytes \<Rightarrow> nat \<Rightarrow> nat \<Rightarrow> u8 \<Rightarrow> u8 \<Rightarrow> nat" where
  "end_component mem out slash pre c =
    (let count = out - slash; one = (if c = 0 then 1 else 0)
     in if count = 3 \<and> pre = 46 then (if 0 < slash then walk_back mem (slash - 1) else slash) + one
        else if count = 1 \<or> pre = 46 then slash + one
        else out)"

text \<open>\<open>buffer_path_simplify(filename, filename)\<close>: one array is read and written.\<close>

function simplify_loop :: "bytes \<Rightarrow> nat \<Rightarrow> nat \<Rightarrow> nat \<Rightarrow> u8 \<Rightarrow> u8 \<Rightarrow> bytes served" where
  "simplify_loop mem walk out slash pre c =
    (let atend = (c = 47 \<or> c = 0);
         out' = (if atend then end_component mem out slash pre c else out);
         slash' = (if atend then out' else slash)
     in if length mem \<le> out' then Overrun
        else if c = 0 then Served (mem[out' := 0])
        else if length mem \<le> walk then Overrun
        else simplify_loop (mem[out' := c]) (walk + 1) (out' + 1) slash' c (mem ! walk))"
  by pat_completeness auto
termination by (relation "measure (\<lambda>(mem, walk, out, slash, pre, c). length mem - walk)") auto

declare simplify_loop.simps [simp del]

definition buffer_path_simplify :: "bytes \<Rightarrow> bytes served" where
  "buffer_path_simplify mem =
    (let w = length (takeWhile (\<lambda>c. c = 32) mem)
     in if length mem \<le> w + 1 then Overrun
        else
          (let pre = mem ! w; c = mem ! (w + 1);
               mem' = (if pre \<noteq> 47 then mem[0 := 47, 1 := pre] else mem[0 := pre]);
               out = (if pre \<noteq> 47 then 2 else 1)
           in if pre = 0 then (if out < length mem then Served (mem'[out := 0]) else Overrun)
              else simplify_loop mem' (w + 2) out 0 pre c))"

section \<open>What is sent to the FastCGI server\<close>

text \<open>The socket to the FastCGI server: what it was sent, and how many further calls of \<open>send\<close> succeed.\<close>

record fcgi_sock =
  fcgi_out :: bytes
  budget :: nat

definition fcgi_send :: "bytes \<Rightarrow> fcgi_sock \<Rightarrow> fcgi_sock option" where
  "fcgi_send b f = (if budget f = 0 then None else Some (f\<lparr>fcgi_out := fcgi_out f @ b, budget := budget f - 1\<rparr>))"

fun fcgi_sends :: "bytes list \<Rightarrow> fcgi_sock \<Rightarrow> bool \<times> fcgi_sock" where
  "fcgi_sends [] f = (True, f)"
| "fcgi_sends (b # bs) f = (case fcgi_send b f of None \<Rightarrow> (False, f) | Some f \<Rightarrow> fcgi_sends bs f)"

record http_header =
  hr_method :: bytes
  hr_path :: bytes
  hr_param :: bytes
  hr_contype :: bytes
  hr_conlength :: bytes

text \<open>The inner loop over the body: it passes on up to eight bytes at a time, \<open>got\<close> says how many each call of \<open>recv\<close>
  returns; the result of \<open>send\<close> is not looked at.\<close>

fun stdin_copy :: "nat \<Rightarrow> (nat \<Rightarrow> nat) \<Rightarrow> bytes \<Rightarrow> fcgi_sock \<Rightarrow> bytes \<times> fcgi_sock" where
  "stdin_copy 0 got s f = (s, f)"
| "stdin_copy (Suc n) got s f =
    (let l = max 1 (min 8 (got n))
     in if s = [] then (s, f)
        else stdin_copy n got (drop l s) (case fcgi_send (take l s) f of None \<Rightarrow> f | Some f \<Rightarrow> f))"

function stdin_loop :: "nat \<Rightarrow> nat \<Rightarrow> (nat \<Rightarrow> nat) \<Rightarrow> bytes \<Rightarrow> fcgi_sock \<Rightarrow> bool \<times> bytes \<times> fcgi_sock" where
  "stdin_loop requestId len got s f =
    (if len = 0 then (True, s, f)
     else
       (let send_len = (if 30000 < len then 30000 else len); pad = padding_len send_len
        in case fcgi_send (makeHeader 5 requestId send_len pad) f of None \<Rightarrow> (False, s, f)
           | Some f \<Rightarrow>
             (case stdin_copy send_len got s f of (s, f) \<Rightarrow>
               (if 0 < pad
                then (case fcgi_send (replicate pad 0) f of None \<Rightarrow> (False, s, f)
                    | Some f \<Rightarrow> stdin_loop requestId (len - send_len) got s f)
                else stdin_loop requestId (len - send_len) got s f))))"
  by pat_completeness auto
termination by (relation "measure (\<lambda>(requestId, len, got, s, f). len)") auto

declare stdin_loop.simps [simp del]

text \<open>The path of the script in \<open>filename[50]\<close>: working directory, slash, path; \<open>cwd\<close> is \<open>None\<close> when it does not fit and
  the array keeps what it held, \<open>uninit\<close>.\<close>

definition script_filename :: "bytes option \<Rightarrow> bytes \<Rightarrow> bytes \<Rightarrow> bytes served" where
  "script_filename cwd uninit path =
    (let d = (case cwd of Some d \<Rightarrow> d | None \<Rightarrow> cstr uninit); s = d @ [47] @ path
     in if length s < 50 then (case buffer_path_simplify (s @ replicate (50 - length s) 0) of Overrun \<Rightarrow> Overrun | Served m \<Rightarrow> Served (cstr m))
        else Overrun)"

definition fcgi_params :: "bytes \<Rightarrow> http_header \<Rightarrow> (bytes \<times> bytes) list" where
  "fcgi_params filename hr =
    [(lit ''SCRIPT_FILENAME'', filename), (lit ''REQUEST_METHOD'', hr_method hr), (lit ''QUERY_STRING'', hr_param hr),
     (lit ''CONTENT_TYPE'', hr_contype hr), (lit ''CONTENT_LENGTH'', hr_conlength hr)]"

definition send_fastcgi ::
    "bytes option \<Rightarrow> bytes \<Rightarrow> (nat \<Rightarrow> nat) \<Rightarrow> nat \<Rightarrow> http_header \<Rightarrow> bytes \<Rightarrow> fcgi_sock \<Rightarrow> (bool \<times> bytes \<times> fcgi_sock) served" where
  "send_fastcgi cwd uninit got client_fd hr s f =
    (case fcgi_send (makeHeader 1 client_fd 8 0 @ makeBeginRequestBody 1) f of None \<Rightarrow> Served (False, s, f)
     | Some f \<Rightarrow>
       (case script_filename cwd uninit (hr_path hr) of Overrun \<Rightarrow> Overrun
        | Served filename \<Rightarrow>
          (case fcgi_sends (map (params_record client_fd) (fcgi_params filename hr) @ [makeHeader 4 client_fd 0 0]) f of
            (False, f) \<Rightarrow> Served (False, s, f)
          | (True, f) \<Rightarrow>
            (case (if hr_method hr = lit ''POST'' then stdin_loop client_fd (nat (atoi (hr_conlength hr))) got s f else (True, s, f)) of
              (False, s, f) \<Rightarrow> Served (False, s, f)
            | (True, s, f) \<Rightarrow>
              (case fcgi_send (makeHeader 5 client_fd 0 0) f of None \<Rightarrow> Served (False, s, f) | Some f \<Rightarrow> Served (True, s, f))))))"

section \<open>The headers of the request\<close>

text \<open>\<open>get_line\<close> of this file: it differs from the one of the server at the end of the stream, where it counts a byte that it
  does not store.\<close>

fun fcgi_line_loop :: "nat \<Rightarrow> nat \<Rightarrow> bytes \<Rightarrow> bytes \<Rightarrow> (nat \<times> bytes \<times> bytes) served" where
  "fcgi_line_loop 0 i buf s = Served (i, buf, s)"
| "fcgi_line_loop (Suc n) i buf s =
    (case recv_char s of None \<Rightarrow> Served (i + 1, buf, s)
     | Some (c, s) \<Rightarrow>
       if length buf \<le> i then Overrun
       else if c = 10 then Served (i + 1, buf[i := c], s)
       else fcgi_line_loop n (i + 1) (buf[i := c]) s)"

definition fcgi_get_line :: "bytes \<Rightarrow> bytes \<Rightarrow> nat \<Rightarrow> (nat \<times> bytes \<times> bytes) served" where
  "fcgi_get_line s buf sz =
    (case fcgi_line_loop (sz - 1) 0 buf s of Overrun \<Rightarrow> Overrun
     | Served (i, buf, s) \<Rightarrow> if i < length buf then Served (i, buf[i := 0], s) else Overrun)"

fun strstr :: "bytes \<Rightarrow> bytes \<Rightarrow> nat option" where
  "strstr pat [] = (if pat = [] then Some 0 else None)"
| "strstr pat (c # s) = (if take (length pat) (c # s) = pat then Some 0 else map_option Suc (strstr pat s))"

text \<open>\<open>get_http_Val\<close>: \<open>Served None\<close> is \<open>NULL\<close>; otherwise the value and the buffer, which loses its last byte.\<close>

definition get_http_Val :: "bytes \<Rightarrow> bytes \<Rightarrow> (bytes \<times> bytes) option served" where
  "get_http_Val buf substr =
    (let s = cstr buf; p = length (takeWhile (\<lambda>c. c \<noteq> 58) s)
     in if strstr substr s = None then Served None
        else if p = length s \<or> 0 \<notin> set (drop (p + 2) buf) then Overrun
        else
          (let n = length (cstr (drop (p + 2) buf)); buf' = buf[p + 1 + n := 0]
           in Served (Some (cstr (drop (p + 2) buf'), buf'))))"

text \<open>The loop of \<open>call\<close> over the header lines; \<open>conlength\<close> has 16 bytes and \<open>contype\<close> 256.\<close>

definition take_header :: "bytes \<Rightarrow> bytes \<Rightarrow> bytes \<Rightarrow> (bytes \<times> bytes \<times> bytes) served" where
  "take_header buf conlength contype =
    (case get_http_Val buf (lit ''Content-Length'') of Overrun \<Rightarrow> Overrun
     | Served (Some (v, buf)) \<Rightarrow> if length v < 16 then Served (buf, v, contype) else Overrun
     | Served None \<Rightarrow>
       (case get_http_Val buf (lit ''Content-Type'') of Overrun \<Rightarrow> Overrun
        | Served (Some (v, buf)) \<Rightarrow> if length v < 256 then Served (buf, conlength, v) else Overrun
        | Served None \<Rightarrow> Served (buf, conlength, contype)))"

partial_function (option) call_headers ::
    "bool \<Rightarrow> bytes \<Rightarrow> bytes \<Rightarrow> bytes \<Rightarrow> bytes \<Rightarrow> (bytes \<times> bytes \<times> bytes) served option" where
  "call_headers go buf conlength contype s =
    (if go \<and> cstr buf \<noteq> [10]
     then
       (case fcgi_get_line s buf 8096 of Overrun \<Rightarrow> Some Overrun
        | Served (i, buf, s) \<Rightarrow>
          (case take_header buf conlength contype of Overrun \<Rightarrow> Some Overrun
           | Served (buf, conlength, contype) \<Rightarrow> call_headers (0 < i) buf conlength contype s))
     else Some (Served (conlength, contype, s)))"

definition error_413 :: "http_conn \<Rightarrow> http_conn" where
  "error_413 c =
    writeStr (lit ''HTTP/1.0 413 TOO LARGE'' @ crlf @ lit ''Server: yrssf-httpd/0.1.0'' @ crlf @ lit ''Content-Type: text/html'' @ crlf @ crlf
      @ lit ''<HTML><TITLE>TOO LARGE</TITLE>'' @ crlf @ lit ''<BODY>Too large.<br>'' @ crlf @ lit ''The body is too large.'' @ crlf
      @ lit ''</BODY></HTML>'' @ crlf) c"

section \<open>What the FastCGI server answers\<close>

text \<open>The content of a record, in pieces of at most 4000 bytes; \<open>recv\<close> may return fewer.  When the peer has closed, \<open>recv\<close>
  returns 0 and the loop does not end.\<close>

partial_function (option) recv_content :: "(nat \<Rightarrow> nat) \<Rightarrow> nat \<Rightarrow> bytes \<Rightarrow> bytes \<Rightarrow> (bytes \<times> bytes) option" where
  "recv_content got contentLength acc s =
    (if contentLength = 0 then Some (acc, s)
     else
       (let l = min (max 1 (got contentLength)) (min 4000 contentLength); b = take l s
        in recv_content got (contentLength - length b) (acc @ b) (drop l s)))"


text \<open>The eight bytes of a header, as far as they arrive, over the header before; reads of at most eight bytes are
  taken to be delivered whole while the stream lasts.\<close>

definition recv_over :: "nat \<Rightarrow> bytes \<Rightarrow> bytes \<Rightarrow> bytes" where
  "recv_over n s old = take n s @ drop (length (take n s)) old"

definition rec_id :: "bytes \<Rightarrow> nat" where
  "rec_id h = unat (h ! 2) * 256 + unat (h ! 3)"

definition rec_len :: "bytes \<Rightarrow> nat" where
  "rec_len h = unat (h ! 4) * 256 + unat (h ! 5)"

text \<open>The padding is read into an array of eight bytes: how many bytes come, \<open>None\<close> when they do not fit; a short read ends
  the function.\<close>

definition recv_padding :: "bytes \<Rightarrow> bytes \<Rightarrow> bytes option served" where
  "recv_padding h s =
    (let n = unat (h ! 6)
     in if n = 0 then Served (Some s)
        else if 8 < min n (length s) then Overrun
        else if length s < n then Served None
        else Served (Some (drop n s)))"

text \<open>\<open>recv_fastcgi\<close>: the calls of \<open>send_client\<close>, as the output and the error text handed to it.  After such a call both
  blocks are freed (\<open>freed\<close>) and the pointers kept.\<close>

partial_function (option) recv_fastcgi ::
    "(nat \<Rightarrow> nat) \<Rightarrow> nat \<Rightarrow> bytes \<Rightarrow> bytes option \<Rightarrow> bytes option \<Rightarrow> bool \<Rightarrow> (bytes \<times> bytes option) list \<Rightarrow> bytes
      \<Rightarrow> (bytes \<times> bytes option) list served option" where
  "recv_fastcgi got client_fd h ok err freed calls s =
    (if s = [] then Some (Served calls)
     else
       (let h = recv_over 8 s h; s = drop 8 s; type = unat (h ! 1); mine = (rec_id h = client_fd)
        in if (type = 6 \<or> type = 7) \<and> mine
           then
             if freed then Some Overrun
             else
               (case recv_content got (rec_len h) [] s of None \<Rightarrow> None
                | Some (content, s) \<Rightarrow>
                  (case recv_padding h s of Overrun \<Rightarrow> Some Overrun
                   | Served None \<Rightarrow> Some (Served calls)
                   | Served (Some s) \<Rightarrow>
                     (let join = (\<lambda>p. case p of None \<Rightarrow> Some content | Some old \<Rightarrow> Some (old @ content));
                          ok' = (if type = 6 then join ok else ok); err' = (if type = 7 then join err else err)
                      in recv_fastcgi got client_fd h ok' err' freed calls s)))
           else if type = 3 \<and> mine
           then
             if freed then Some Overrun
             else if length s < 8 then Some (Served calls)
             else
               (case ok of None \<Rightarrow> Some Overrun
                | Some out \<Rightarrow> recv_fastcgi got client_fd h ok err True (calls @ [(out, err)]) (drop 8 s))
           else recv_fastcgi got client_fd h ok err freed calls s))"

section \<open>The call\<close>

text \<open>What a call depends on: the working directory, the FastCGI server, the sizes \<open>recv\<close> returns, and the
  contents of the variables that are not initialised.\<close>

record fcgi_env =
  cwd :: "bytes option"
  fcgi_conn :: "nat option"
  fcgi_server :: "bytes \<Rightarrow> bytes"
  got_in :: "nat \<Rightarrow> nat"
  got_back :: "nat \<Rightarrow> nat"
  body_limit :: u32
  u_recvbytes :: int
  u_buf :: bytes
  u_conlength :: bytes
  u_contype :: bytes
  u_filename :: bytes
  u_header :: bytes

definition exec_fastcgi ::
    "fcgi_env \<Rightarrow> nat \<Rightarrow> http_header \<Rightarrow> http_conn \<Rightarrow> (http_conn \<times> (bytes \<times> bytes option) list) served option" where
  "exec_fastcgi e client_fd hr c =
    (case fcgi_conn e of None \<Rightarrow> Some (Served (c, []))
     | Some n \<Rightarrow>
       (case send_fastcgi (cwd e) (u_filename e) (got_in e) client_fd hr (sock c) \<lparr>fcgi_out = [], budget = n\<rparr> of
         Overrun \<Rightarrow> Some Overrun
       | Served (ok, s, f) \<Rightarrow>
         (let c = c\<lparr>sock := s\<rparr>
          in if \<not> ok then Some (Served (c, []))
             else
               (case recv_fastcgi (got_back e) client_fd (u_header e) None None False [] (fcgi_server e (fcgi_out f)) of
                 None \<Rightarrow> None
               | Some Overrun \<Rightarrow> Some Overrun
               | Some (Served calls) \<Rightarrow> Some (Served (c, calls))))))"

definition fcgi_call ::
    "fcgi_env \<Rightarrow> nat \<Rightarrow> bytes \<Rightarrow> bytes \<Rightarrow> bytes \<Rightarrow> http_conn \<Rightarrow> (http_conn \<times> (bytes \<times> bytes option) list) served option" where
  "fcgi_call e connfd path method query_string c =
    (case call_headers (0 < u_recvbytes e) (u_buf e) (cstr (u_conlength e)) (cstr (u_contype e)) (sock c) of
      None \<Rightarrow> None
    | Some Overrun \<Rightarrow> Some Overrun
    | Some (Served (conlength, contype, s)) \<Rightarrow>
      (let c = c\<lparr>sock := s\<rparr>
       in if body_limit e < word_of_int (atoi conlength) then Some (Served (error_413 c, []))
          else if 256 \<le> length (lit ''./static'' @ path) then Some Overrun
          else exec_fastcgi e connfd
                 \<lparr>hr_method = take 9 method, hr_path = lit ''./static'' @ path, hr_param = take 255 query_string,
                  hr_contype = contype, hr_conlength = conlength\<rparr> c))"

section \<open>What a FastCGI server reads\<close>

text \<open>The reading of a stream after the FastCGI specification: the contents of the records of one type up to an empty
  one, and name-value pairs with lengths of one byte.\<close>

function read_stream :: "nat \<Rightarrow> nat \<Rightarrow> bytes \<Rightarrow> (bytes \<times> bytes) option" where
  "read_stream type requestId s =
    (if length s < 8 \<or> unat (s ! 1) \<noteq> type \<or> rec_id s \<noteq> requestId then None
     else
       (let content = take (rec_len s) (drop 8 s); rest = drop (8 + rec_len s + unat (s ! 6)) s
        in if content = [] then Some ([], rest)
           else map_option (\<lambda>(c, r). (content @ c, r)) (read_stream type requestId rest)))"
  by pat_completeness auto
termination by (relation "measure (\<lambda>(type, requestId, s). length s)") auto

declare read_stream.simps [simp del]

function decode_nv :: "bytes \<Rightarrow> (bytes \<times> bytes) list" where
  "decode_nv s =
    (if length s < 2 then []
     else
       (let n = unat (s ! 0); m = unat (s ! 1); r = drop 2 s
        in (take n r, take m (drop n r)) # decode_nv (drop (n + m) r)))"
  by pat_completeness auto
termination by (relation "measure length") auto

declare decode_nv.simps [simp del]

definition short_pair :: "bytes \<times> bytes \<Rightarrow> bool" where
  "short_pair p \<longleftrightarrow> length (fst p) < 128 \<and> length (snd p) < 128"

definition pair_content :: "bytes \<times> bytes \<Rightarrow> bytes" where
  "pair_content p = [word_of_nat (length (fst p)), word_of_nat (length (snd p))] @ fst p @ snd p"

lemma padding_len_le: "padding_len n \<le> 7"
  by (simp add: padding_len_def) linarith

lemma rec_id_makeHeader: "i < 65536 \<Longrightarrow> rec_id (makeHeader t i l p @ s) = i"
  and rec_len_makeHeader: "l < 65536 \<Longrightarrow> rec_len (makeHeader t i l p @ s) = l"
  by (simp_all add: rec_id_def rec_len_def makeHeader_def unat_of_nat numeral_2_eq_2)

lemma rec_id_makeHeader': "i < 65536 \<Longrightarrow> rec_id (makeHeader t i l p) = i"
  and rec_len_makeHeader': "l < 65536 \<Longrightarrow> rec_len (makeHeader t i l p) = l"
  using rec_id_makeHeader [of i t l p "[]"] rec_len_makeHeader [of l t i p "[]"] by simp_all

lemma length_makeHeader [simp]: "length (makeHeader t i l p) = 8"
  by (simp add: makeHeader_def)

lemma length_makeBeginRequestBody [simp]: "length (makeBeginRequestBody role) = 8"
  by (simp add: makeBeginRequestBody_def)

lemma read_stream_record:
  assumes "i < 65536" "t < 256" "0 < length content" "length content < 65536" "p < 256"
  shows "read_stream t i (makeHeader t i (length content) p @ content @ replicate p 0 @ s) =
    map_option (\<lambda>(c, r). (content @ c, r)) (read_stream t i s)"
proof -
  let ?s = "makeHeader t i (length content) p @ content @ replicate p 0 @ s"
  have "unat (?s ! 1) = t" "unat (?s ! 6) = p" using assms by (simp_all add: makeHeader_def unat_of_nat)
  then show ?thesis
    using assms by (subst read_stream.simps) (simp add: rec_id_makeHeader rec_len_makeHeader Let_def)
qed

lemma read_stream_empty:
  assumes "i < 65536" "t < 256"
  shows "read_stream t i (makeHeader t i 0 0 @ s) = Some ([], s)"
proof -
  have "unat ((makeHeader t i 0 0 @ s) ! 1) = t" "unat ((makeHeader t i 0 0 @ s) ! 6) = 0"
    using assms by (simp_all add: makeHeader_def unat_of_nat)
  then show ?thesis
    using assms by (subst read_stream.simps) (simp add: rec_id_makeHeader rec_len_makeHeader)
qed

lemma params_record_content:
  "params_record i p = makeHeader 4 i (length (pair_content p)) (padding_len (length (pair_content p))) @ pair_content p
     @ replicate (padding_len (length (pair_content p))) 0"
  by (cases p) (simp add: params_record_def pair_content_def Let_def add.commute)

lemma read_stream_params:
  assumes "i < 65536" "list_all short_pair ps"
  shows "read_stream 4 i (concat (map (params_record i) ps) @ makeHeader 4 i 0 0 @ s) = Some (concat (map pair_content ps), s)"
  using assms(2)
proof (induction ps)
  case (Cons p ps)
  have "length (pair_content p) < 65536" using Cons.prems by (simp add: pair_content_def short_pair_def)
  moreover have "0 < length (pair_content p)" by (simp add: pair_content_def)
  moreover have "padding_len (length (pair_content p)) < 256" using padding_len_le [of "length (pair_content p)"] by linarith
  ultimately show ?case
    using read_stream_record [OF assms(1), of 4 "pair_content p"] Cons by (simp add: params_record_content)
qed (simp add: read_stream_empty assms(1))

lemma decode_nv_pair:
  assumes "short_pair p"
  shows "decode_nv (pair_content p @ s) = p # decode_nv s"
  using assms by (cases p) (subst decode_nv.simps, simp add: pair_content_def short_pair_def unat_of_nat Let_def)

lemma decode_nv_pairs: "list_all short_pair ps \<Longrightarrow> decode_nv (concat (map pair_content ps)) = ps"
  by (induction ps) (auto simp: decode_nv_pair, simp add: decode_nv.simps)

lemma fcgi_sends_all: "length bs \<le> budget f \<Longrightarrow>
    fcgi_sends bs f = (True, f\<lparr>fcgi_out := fcgi_out f @ concat bs, budget := budget f - length bs\<rparr>)"
  by (induction bs arbitrary: f) (auto simp: fcgi_send_def)

section \<open>A client that goes away\<close>

lemma cstr_upd1: "cstr (x # 0 # s) = (if x = 0 then [] else [x])"
  by (simp add: cstr_def)

lemma take_header_at_end: "take_header (x # 0 # s) conlength contype = Served (x # 0 # s, conlength, contype)"
  by (simp add: take_header_def get_http_Val_def cstr_upd1 lit_def)

lemma call_headers_at_end:
  assumes "call_headers go buf conlength contype s = Some y"
  shows "\<not> (go \<and> s = [] \<and> 2 \<le> length buf \<and> hd buf \<noteq> 10)"
proof (rule call_headers.raw_induct [OF _ assms], goal_cases)
  case (1 ch go buf conlength contype s y)
  show ?case
  proof
    assume a: "go \<and> s = [] \<and> 2 \<le> length buf \<and> hd buf \<noteq> 10"
    then obtain x x' b where b: "buf = x # x' # b" by (metis Suc_le_length_iff numeral_2_eq_2)
    have "fcgi_get_line [] buf 8096 = Served (1, x # 0 # b, [])"
      by (simp add: fcgi_get_line_def b eval_nat_numeral)
    then have "ch True (x # 0 # b) conlength contype [] = Some y"
      using 1(2) a b by (auto simp: take_header_at_end cstr_def split: if_splits)
    then show False using 1(1) [of True "x # 0 # b"] a b by simp
  qed
qed

definition plain_line :: "bytes \<Rightarrow> bool" where
  "plain_line l \<longleftrightarrow> l \<noteq> [] \<and> set l \<inter> {0, 10, 13} = {} \<and> length l < 510 \<and>
    strstr (lit ''Content-Length'') (l @ [10]) = None \<and> strstr (lit ''Content-Type'') (l @ [10]) = None"

lemma fcgi_line_loop_prefix:
  assumes "set l \<inter> {10, 13} = {}" "length l \<le> n" "i + length l \<le> length buf"
  shows "fcgi_line_loop n i buf (l @ s) = fcgi_line_loop (n - length l) (i + length l) (take i buf @ l @ drop (i + length l) buf) s"
  using assms
proof (induction l arbitrary: n i buf)
  case (Cons c l)
  then obtain n' where n: "n = Suc n'" by (cases n) auto
  have "take (Suc i) (buf[i := c]) = take i buf @ [c]" using Cons.prems by (simp add: take_Suc_conv_app_nth)
  then show ?case using Cons n by auto
qed simp

lemma fcgi_get_line_plain:
  assumes "plain_line l" "length buf = 512"
  shows "fcgi_get_line (l @ [13, 10] @ s) buf 8096 = Served (length l + 1, l @ [10, 0] @ drop (length l + 2) buf, s)"
proof -
  let ?b = "l @ drop (length l) buf"
  obtain n where n: "8095 - length l = Suc n" using assms(1) by (cases "8095 - length l") (auto simp: plain_line_def)
  have "fcgi_line_loop 8095 0 buf (l @ [13, 10] @ s) = fcgi_line_loop (Suc n) (length l) ?b ([13, 10] @ s)"
    using fcgi_line_loop_prefix [of l 8095 0 buf "[13, 10] @ s"] assms n by (auto simp: plain_line_def)
  moreover have "?b[length l := 10, length l + 1 := 0] = l @ [10, 0] @ drop (length l + 2) buf"
  proof -
    have "drop (length l) buf = buf ! length l # buf ! (length l + 1) # drop (length l + 2) buf"
      using assms by (simp add: plain_line_def Cons_nth_drop_Suc)
    then show ?thesis by (simp add: list_update_append)
  qed
  ultimately show ?thesis using assms by (simp add: fcgi_get_line_def plain_line_def)
qed

lemma call_headers_plain:
  assumes "plain_line l" "length buf = 512" "cstr buf \<noteq> [10]"
  shows "call_headers True buf conlength contype (l @ [13, 10] @ s) =
    call_headers True (l @ [10, 0] @ drop (length l + 2) buf) conlength contype s"
proof -
  have "cstr (l @ [10, 0] @ drop (length l + 2) buf) = l @ [10]"
    using assms(1) by (subst append_assoc [symmetric]) (auto simp: cstr_def plain_line_def takeWhile_append)
  then show ?thesis
    using assms fcgi_get_line_plain [OF assms(1,2), of s]
    by (subst call_headers.simps) (simp add: take_header_def get_http_Val_def plain_line_def)
qed

lemma call_headers_plain_lines:
  assumes "list_all plain_line ls" "length buf = 512" "cstr buf \<noteq> [10]" "hd buf \<noteq> 10"
  shows "call_headers True buf conlength contype (concat (map (\<lambda>l. l @ [13, 10]) ls)) = None"
  using assms
proof (induction ls arbitrary: buf)
  case Nil
  then show ?case
    using call_headers_at_end [of True buf conlength contype "[]"] by (cases "call_headers True buf conlength contype []") auto
next
  case (Cons l ls)
  let ?buf = "l @ [10, 0] @ drop (length l + 2) buf"
  have "length ?buf = 512" "hd ?buf \<noteq> 10" "l \<noteq> []" "hd l \<noteq> 10" "hd l \<noteq> 0"
    using Cons.prems by (cases l; auto simp: plain_line_def)+
  moreover have "cstr ?buf \<noteq> [10]" using \<open>l \<noteq> []\<close> \<open>hd l \<noteq> 10\<close> \<open>hd l \<noteq> 0\<close> by (cases l) (auto simp: cstr_def)
  ultimately show ?case using Cons call_headers_plain [of l buf] by simp
qed

lemma get_not_post: "(lit ''GET'' = lit ''POST'') = False"
  by (simp add: lit_def)

section \<open>The answer\<close>

lemma recv_content_all: "recv_content got (length b) acc (b @ s) = Some (acc @ b, s)"
proof (induction "length b" arbitrary: b acc rule: less_induct)
  case less
  show ?case
  proof (cases "b = []")
    case False
    let ?l = "min (max 1 (got (length b))) (min 4000 (length b))"
    have l: "0 < ?l" "?l \<le> length b" using False by (auto simp: min_def max_def)
    have "recv_content got (length (drop ?l b)) (acc @ take ?l b) (drop ?l b @ s) = Some ((acc @ take ?l b) @ drop ?l b, s)"
      using l by (intro less) simp
    moreover have "min (length b) ?l = ?l" "take ?l (b @ s) = take ?l b" "drop ?l (b @ s) = drop ?l b @ s" using l by simp_all
    ultimately show ?thesis
      using False by (subst recv_content.simps) (simp add: Let_def)
  qed (simp add: recv_content.simps)
qed

definition stdout_record :: "nat \<Rightarrow> bytes \<Rightarrow> bytes" where
  "stdout_record i b = makeHeader 6 i (length b) (padding_len (length b)) @ b @ replicate (padding_len (length b)) 0"

definition end_record :: "nat \<Rightarrow> bytes" where
  "end_record i = makeHeader 3 i 8 0 @ replicate 8 0"

lemma makeHeader_not_Nil [simp]: "makeHeader t i l p \<noteq> []"
  by (simp add: makeHeader_def)

lemma recv_over_8: "length h \<le> 8 \<Longrightarrow> recv_over 8 (makeHeader t i l p @ s) h = makeHeader t i l p"
  by (simp add: recv_over_def)

lemma recv_fastcgi_stdout:
  assumes "i < 65536" "length b < 65536" "length h \<le> 8"
  shows "recv_fastcgi got i h ok err False calls (stdout_record i b @ s) =
    recv_fastcgi got i (makeHeader 6 i (length b) (padding_len (length b)))
      (case ok of None \<Rightarrow> Some b | Some old \<Rightarrow> Some (old @ b)) err False calls s"
proof -
  let ?p = "padding_len (length b)" and ?h = "makeHeader 6 i (length b) (padding_len (length b))"
  have "recv_padding ?h (replicate ?p 0 @ s) = Served (Some s)"
  proof -
    have "unat (?h ! 6) = ?p" using padding_len_le [of "length b"] by (simp add: makeHeader_def unat_of_nat)
    then show ?thesis using padding_len_le [of "length b"] by (simp add: recv_padding_def Let_def)
  qed
  moreover have "stdout_record i b @ s \<noteq> []" by (simp add: stdout_record_def makeHeader_def)
  moreover have "unat (?h ! 1) = 6" by (simp add: makeHeader_def)
  moreover have "recv_content got (length b) [] (b @ replicate ?p 0 @ s) = Some (b, replicate ?p 0 @ s)"
    using recv_content_all [of got b "[]"] by simp
  ultimately show ?thesis
    using assms by (subst recv_fastcgi.simps)
      (simp add: stdout_record_def recv_over_8 rec_id_makeHeader' rec_len_makeHeader' Let_def split: option.splits)
qed

lemma recv_fastcgi_end:
  assumes "i < 65536" "length h \<le> 8"
  shows "recv_fastcgi got i h (Some out) err False calls (end_record i) = Some (Served (calls @ [(out, err)]))"
proof -
  let ?h = "makeHeader 3 i 8 0"
  have "unat (?h ! 1) = 3" by (simp add: makeHeader_def)
  moreover have "end_record i \<noteq> []" by (simp add: end_record_def makeHeader_def)
  ultimately show ?thesis
    using assms by (subst recv_fastcgi.simps) (simp add: end_record_def recv_over_8 rec_id_makeHeader' Let_def recv_fastcgi.simps [of _ _ _ _ _ _ _ "[]"])
qed

lemma recv_fastcgi_stdouts:
  assumes "i < 65536" "list_all (\<lambda>b. length b < 65536) bs" "length h \<le> 8"
  shows "recv_fastcgi got i h (Some out) err False calls (concat (map (stdout_record i) bs) @ end_record i) =
    Some (Served (calls @ [(out @ concat bs, err)]))"
  using assms(2,3)
  by (induction bs arbitrary: h out) (simp_all add: recv_fastcgi_stdout recv_fastcgi_end assms(1))

section \<open>Paths that need no change\<close>

text \<open>No component is empty or ends with a dot.\<close>

definition clean_path :: "bytes \<Rightarrow> bool" where
  "clean_path mem \<longleftrightarrow> (\<forall>i. Suc i < length mem \<longrightarrow> mem ! Suc i \<in> {47, 0} \<longrightarrow> mem ! i \<notin> {46, 47})"

lemma simplify_loop_clean:
  assumes "clean_path mem" "2 \<le> walk" "walk \<le> length mem" "slash < walk - 1" "mem ! slash = 47"
    "0 \<in> set (drop (walk - 1) mem)"
  shows "simplify_loop mem walk (walk - 1) slash (mem ! (walk - 2)) (mem ! (walk - 1)) = Served mem"
  using assms(2-)
proof (induction "length mem - walk" arbitrary: walk slash rule: less_induct)
  case less
  let ?c = "mem ! (walk - 1)" and ?pre = "mem ! (walk - 2)"
  obtain w where w: "walk = Suc (Suc w)" using less.prems(1) by (metis Suc_le_D Suc_le_mono numeral_2_eq_2)
  have clean: "?pre \<notin> {46, 47}" if "?c \<in> {47, 0}"
    using assms(1) less.prems(2) that w by (auto simp: clean_path_def)
  have out: "end_component mem (walk - 1) slash ?pre ?c = walk - 1" if "?c \<in> {47, 0}"
  proof -
    have "walk - 1 - slash \<noteq> 1" using clean [OF that] less.prems(3,4) w by (auto simp: less_Suc_eq)
    then show ?thesis using clean [OF that] by (simp add: end_component_def Let_def)
  qed
  show ?case
  proof (cases "?c = 0")
    case True
    moreover have "mem[walk - 1 := 0] = mem" using True by (metis list_update_id)
    ultimately show ?thesis
      using out less.prems by (subst simplify_loop.simps) (simp add: Let_def)
  next
    case False
    have "drop (walk - 1) mem = ?c # drop walk mem"
      using less.prems w by (simp add: Cons_nth_drop_Suc)
    then have walk: "walk < length mem" "0 \<in> set (drop (Suc walk - 1) mem)"
      using less.prems(5) False by (cases "walk < length mem"; simp)+
    have "simplify_loop mem (Suc walk) (Suc walk - 1) (if ?c = 47 then walk - 1 else slash) (mem ! (Suc walk - 2)) (mem ! (Suc walk - 1)) = Served mem"
      using less.prems walk w by (intro less.hyps) auto
    moreover have "mem[Suc w := 47] = mem" if "mem ! Suc w = 47" using that by (metis list_update_id)
    ultimately show ?thesis
      using out False walk less.prems w by (subst simplify_loop.simps) (simp add: Let_def split: if_splits)
  qed
qed

lemma simplify_dotted_name: "buffer_path_simplify (lit ''/a/b./c'' @ [0]) = Served (lit ''/c'' @ [0] @ lit ''b./c'' @ [0])"
  by code_simp


lemma simplify_clean:
  assumes "clean_path (47 # mem)" "0 \<in> set mem"
  shows "buffer_path_simplify (47 # mem) = Served (47 # mem)"
proof -
  obtain c s where "mem = c # s" using assms(2) by (cases mem) auto
  then show ?thesis
    using simplify_loop_clean [OF assms(1), of "Suc (Suc 0)" 0] assms(2) by (simp add: buffer_path_simplify_def Let_def)
qed

section \<open>Properties\<close>

text \<open>C19. A FastCGI server reads the parameters that were meant: for a GET request whose script has a short path, and
  parameters of less than 128 bytes, everything is sent, the parameter stream decodes to the five pairs, and an empty
  standard input follows.\<close>

theorem fastcgi_params_understood:
  assumes "script_filename dir u (hr_path hr) = Served filename" "list_all short_pair (fcgi_params filename hr)"
    "hr_method hr = lit ''GET''" "client_fd < 65536" "7 < n"
  shows "\<exists>f. send_fastcgi dir u got client_fd hr s \<lparr>fcgi_out = [], budget = n\<rparr> = Served (True, s, f) \<and>
    (case read_stream 4 client_fd (drop 16 (fcgi_out f)) of
      None \<Rightarrow> False
    | Some (params, rest) \<Rightarrow> decode_nv params = fcgi_params filename hr \<and> read_stream 5 client_fd rest = Some ([], []))"
proof -
  let ?f = "\<lparr>fcgi_out = makeHeader 1 client_fd 8 0 @ makeBeginRequestBody 1, budget = n - 1\<rparr>"
  let ?ps = "fcgi_params filename hr"
  let ?bs = "map (params_record client_fd) ?ps @ [makeHeader 4 client_fd 0 0]"
  have n: "length ?bs = 6" by (simp add: fcgi_params_def)
  have "fcgi_sends ?bs ?f = (True, ?f\<lparr>fcgi_out := fcgi_out ?f @ concat ?bs, budget := budget ?f - length ?bs\<rparr>)"
    using assms(5) n by (intro fcgi_sends_all) simp
  then have "send_fastcgi dir u got client_fd hr s \<lparr>fcgi_out = [], budget = n\<rparr> =
      Served (True, s, \<lparr>fcgi_out = makeHeader 1 client_fd 8 0 @ makeBeginRequestBody 1 @ concat ?bs @ makeHeader 5 client_fd 0 0, budget = n - 8\<rparr>)"
    using assms(1,3,5) unfolding n
    by (simp add: send_fastcgi_def fcgi_send_def get_not_post del: map_append concat_append fcgi_sends.simps)
  moreover have "drop 16 (makeHeader 1 client_fd 8 0 @ makeBeginRequestBody 1 @ x) = x" for x
    by simp
  moreover have "read_stream 5 client_fd (makeHeader 5 client_fd 0 0) = Some ([], [])"
    using read_stream_empty [OF assms(4), of 5 "[]"] by simp
  ultimately show ?thesis
    using read_stream_params [OF assms(4,2), of "makeHeader 5 client_fd 0 0"] decode_nv_pairs [OF assms(2)] by simp
qed

text \<open>A client that sends any number of header lines, none with a content length or type, and closes the connection
  before the empty line, keeps the thread that serves it for ever.\<close>

theorem fastcgi_waits_for_ever:
  assumes "list_all plain_line ls" "length (u_buf e) = 512" "cstr (u_buf e) \<noteq> [10]" "hd (u_buf e) \<noteq> 10" "0 < u_recvbytes e"
    "sock c = concat (map (\<lambda>l. l @ [13, 10]) ls)"
  shows "fcgi_call e connfd path method query_string c = None"
  using call_headers_plain_lines [OF assms(1-4)] assms(5,6) by (simp add: fcgi_call_def)

text \<open>The answer of a FastCGI server, any number of output records and an end record, is handed on as the output
  put together, whatever the sizes in which the network delivers it.\<close>

theorem fastcgi_answer_assembled:
  assumes "i < 65536" "list_all (\<lambda>b. length b < 65536) (b # bs)" "length h \<le> 8"
  shows "recv_fastcgi got i h None None False [] (concat (map (stdout_record i) (b # bs)) @ end_record i) =
    Some (Served [(concat (b # bs), None)])"
  using assms recv_fastcgi_stdouts [OF assms(1), of bs] by (simp add: recv_fastcgi_stdout)

lemma replicate_eq_Cons: "(replicate n x = [y]) = (n = 1 \<and> x = y)"
  by (cases n) auto

theorem fastcgi_params_understood_witness:
  "\<exists>f. send_fastcgi (Some (lit ''/srv'')) [] (\<lambda>_. 1) 5
       \<lparr>hr_method = lit ''GET'', hr_path = lit ''./a.php'', hr_param = [], hr_contype = [], hr_conlength = []\<rparr> [] \<lparr>fcgi_out = [], budget = 8\<rparr> =
      Served (True, [], f) \<and>
    (case read_stream 4 5 (drop 16 (fcgi_out f)) of
      None \<Rightarrow> False
    | Some (params, rest) \<Rightarrow>
      decode_nv params = fcgi_params (lit ''/srv/a.php'') \<lparr>hr_method = lit ''GET'', hr_path = lit ''./a.php'', hr_param = [], hr_contype = [], hr_conlength = []\<rparr>
      \<and> read_stream 5 5 rest = Some ([], []))"
  by (rule fastcgi_params_understood) (code_simp, code_simp, simp_all)

theorem fastcgi_waits_for_ever_witness:
  "fcgi_call
     \<lparr>cwd = None, fcgi_conn = None, fcgi_server = (\<lambda>_. []), got_in = (\<lambda>_. 1), got_back = (\<lambda>_. 1), body_limit = 65536, u_recvbytes = 1,
      u_buf = replicate 512 65, u_conlength = [], u_contype = [], u_filename = [], u_header = []\<rparr>
     5 (lit ''static/a.php'') (lit ''GET'') []
     \<lparr>sock = concat (map (\<lambda>l. l @ [13, 10]) [lit ''Host: x'']), sent = [], closes = 0, thread_number = 1\<rparr> = None"
  by (rule fastcgi_waits_for_ever [of "[lit ''Host: x'']"]) (code_simp, simp_all add: cstr_def replicate_eq_Cons)

theorem fastcgi_answer_assembled_witness:
  "recv_fastcgi (\<lambda>_. 1) 5 [] None None False [] (concat (map (stdout_record 5) [[1, 2, 3], [4]]) @ end_record 5) =
    Some (Served [([1, 2, 3, 4], None)])"
  using fastcgi_answer_assembled [of 5 "[1, 2, 3]" "[[4]]" "[]" "\<lambda>_. 1"] by simp

end
