(* ===== verification/Httpd.thy ===== *)
theory Httpd
  imports Fastcgi
begin

text \<open>
  The HTTP server of \<^verbatim>\<open>core/httpd.hpp\<close> with the file types of \<^verbatim>\<open>core/httpdmime.hpp\<close>: routes, pages, files, scripts and
  \<open>accept_request\<close>.  The file system, the scripts, the programs and the handlers are in the environment, as are
  the contents of the arrays that are not initialised (\<open>u_\<close>).  Debug output is left out.
\<close>

section \<open>Environment\<close>

type_synonym hcallback = "request \<Rightarrow> http_conn \<Rightarrow> http_conn served option"

text \<open>\<open>handlers\<close> and \<open>ws\<close> are lists of prefixes with their callbacks, \<open>None\<close> is \<open>NULL\<close>.\<close>

type_synonym router = "bytes \<times> hcallback option"

text \<open>What a Lua script finds in the table \<open>Request\<close>.\<close>

record lua_request =
  lr_path :: bytes
  lr_dir :: "bytes option"
  lr_query :: bytes
  lr_method :: bytes
  lr_paser :: request

record web_env =
  maxRequest :: u32
  httpBodyLength :: u32
  access_ok :: "bytes \<Rightarrow> bool"
  stat :: "bytes \<Rightarrow> (bool \<times> bool) option"
  open_file :: "bytes \<Rightarrow> bytes option"
  allowexec :: "bytes list"
  mimelist :: fields
  handlers :: "router list"
  ws :: "router list"
  rewrite :: "(bytes \<Rightarrow> bytes) option"
  fastcgi :: bool
  fcgi :: fcgi_env
  dofile :: "lua_request \<Rightarrow> http_conn \<Rightarrow> http_conn served option"
  pipe_ok :: bool
  pipe2_ok :: bool
  fork_ok :: bool
  program :: "bytes \<Rightarrow> bytes list \<Rightarrow> bytes \<Rightarrow> bytes"
  u_line :: bytes
  u_page :: bytes
  u_url :: bytes
  u_ext :: bytes
  u_post :: bytes
  u_byte :: u8

definition allowed :: "web_env \<Rightarrow> bytes \<Rightarrow> bool" where
  "allowed e ext \<longleftrightarrow> ext \<in> set (allowexec e)"

definition allowext :: "bytes \<Rightarrow> web_env \<Rightarrow> web_env" where
  "allowext ext e = e\<lparr>allowexec := ext # allowexec e\<rparr>"

section \<open>Routes\<close>

fun http_prefix_match :: "bytes \<Rightarrow> bytes \<Rightarrow> bool" where
  "http_prefix_match [] p2 = True"
| "http_prefix_match (c # sp) p2 = (if p2 = [] \<or> c \<noteq> hd p2 then False else http_prefix_match sp (tl p2))"

fun match_rules :: "router list \<Rightarrow> bytes \<Rightarrow> hcallback option" where
  "match_rules [] str = None"
| "match_rules ((pf, cb) # rs) str = (if http_prefix_match pf str then cb else match_rules rs str)"

definition handler_match :: "web_env \<Rightarrow> bytes \<Rightarrow> hcallback option" where
  "handler_match e str = match_rules (handlers e) str"

definition longconn_match :: "web_env \<Rightarrow> bytes \<Rightarrow> hcallback option" where
  "longconn_match e str = match_rules (ws e) str"

definition addrule :: "hcallback option \<Rightarrow> bytes \<Rightarrow> web_env \<Rightarrow> web_env" where
  "addrule cb pf e = e\<lparr>handlers := handlers e @ [(pf, cb)]\<rparr>"

definition addlongrule :: "hcallback option \<Rightarrow> bytes \<Rightarrow> web_env \<Rightarrow> web_env" where
  "addlongrule cb pf e = e\<lparr>ws := ws e @ [(pf, cb)]\<rparr>"

section \<open>Pages\<close>

definition line :: "string \<Rightarrow> bytes" where
  "line s = lit s @ crlf"

definition SERVER_STRING :: bytes where
  "SERVER_STRING = line ''Server: yrssf-httpd/0.1.0''"

definition not_found :: "http_conn \<Rightarrow> http_conn" where
  "not_found c =
    writeStr (line ''HTTP/1.0 404 NOT FOUND'' @ SERVER_STRING @ line ''Content-Type: text/html'' @ crlf
      @ line ''<HTML><TITLE>Not Found</TITLE>'' @ line ''<BODY><P>The server could not fulfill''
      @ line ''your request because the resource specified'' @ line ''is unavailable or nonexistent.'' @ line ''</BODY></HTML>'') c"

definition forbidden :: "http_conn \<Rightarrow> http_conn" where
  "forbidden c =
    writeStr (line ''HTTP/1.0 403 NOT FOUND'' @ SERVER_STRING @ line ''Content-Type: text/html'' @ crlf
      @ line ''<HTML><TITLE>Forbidden</TITLE>'' @ line ''<BODY><P>The file have been forbidden</P>'' @ line ''</BODY></HTML>'') c"

definition unimplemented :: "http_conn \<Rightarrow> http_conn" where
  "unimplemented c =
    writeStr (line ''HTTP/1.0 501 Method Not Implemented'' @ SERVER_STRING @ line ''Content-Type: text/html'' @ crlf
      @ line ''<HTML><HEAD><TITLE>Method Not Implemented'' @ line ''</TITLE></HEAD>''
      @ line ''<BODY><P>HTTP request method not supported.'' @ line ''</BODY></HTML>'') c"

definition cannot_execute :: "http_conn \<Rightarrow> http_conn" where
  "cannot_execute c =
    writeStr (line ''HTTP/1.0 500 Internal Server Error'' @ line ''Content-type: text/html'' @ crlf
      @ line ''<P>Error prohibited CGI execution.'') c"

text \<open>\<open>sprintf\<close> of a string into an array.\<close>

definition store_str :: "bytes \<Rightarrow> bytes \<Rightarrow> bytes" where
  "store_str buf s = s @ [0] @ drop (length s + 1) buf"

text \<open>\<open>bad_request\<close> sends the whole array each time, \<open>sizeof\<close> instead of the length of the string.\<close>

fun send_buffers :: "bytes list \<Rightarrow> bytes \<Rightarrow> http_conn \<Rightarrow> http_conn" where
  "send_buffers [] buf c = c"
| "send_buffers (s # ss) buf c = (let buf = store_str buf s in send_buffers ss buf (writeStr buf c))"

definition bad_request :: "web_env \<Rightarrow> http_conn \<Rightarrow> http_conn" where
  "bad_request e c =
    send_buffers [line ''HTTP/1.0 400 BAD REQUEST'', line ''Content-type: text/html'', crlf, lit ''<P>Your browser sent a bad request, '',
      line ''such as a POST without a Content-Length.''] (u_page e) c"

section \<open>Reading what is left of a request\<close>

definition strcaseeq :: "bytes \<Rightarrow> bytes \<Rightarrow> bool" where
  "strcaseeq s t \<longleftrightarrow> map downchar (cstr s) = map downchar (cstr t)"

text \<open>The loop of \<open>readBufferBeforeSend\<close> and \<open>execute_cgi\<close> over the header lines, which looks for the content length; the buffer
  keeps what earlier lines left behind the terminator.\<close>

definition line_length :: "bytes \<Rightarrow> int \<Rightarrow> bytes \<times> int" where
  "line_length buf n =
    (let buf = buf[15 := 0] in (buf, if strcaseeq buf (lit ''Content-Length:'') then atoi (drop 16 buf) else n))"

function length_loop :: "bool \<Rightarrow> bytes \<Rightarrow> int \<Rightarrow> bytes \<Rightarrow> int \<times> bytes" where
  "length_loop go buf n s =
    (if go \<and> cstr buf \<noteq> [10]
     then
       (case line_length buf n of (buf, n) \<Rightarrow>
         (case get_line s 1024 of (l, s) \<Rightarrow> length_loop (l \<noteq> []) (store_str buf l) n s))
     else (n, s))"
  by pat_completeness auto
termination
  by (relation "measure (\<lambda>(go, buf, n, s). length s + (if go then 1 else 0))")
    (auto simp: get_line_def dest: get_line_loop_shorter [OF sym] get_line_loop_Nil [OF sym])

declare length_loop.simps [simp del]

definition readBufferBeforeSend :: "web_env \<Rightarrow> http_conn \<Rightarrow> http_conn" where
  "readBufferBeforeSend e c =
    (case length_loop True (store_str (u_line e) (lit ''A'')) (-1) (sock c) of
      (n, s) \<Rightarrow>
        c\<lparr>sock := (if n \<noteq> -1 \<and> word_of_int n < httpBodyLength e then drop (nat n) s else s)\<rparr>)"

text \<open>Reading and discarding the headers.\<close>

function discard_loop :: "bool \<Rightarrow> bytes \<Rightarrow> bytes \<Rightarrow> bytes" where
  "discard_loop go buf s =
    (if go \<and> cstr buf \<noteq> [10] then (case get_line s 1024 of (l, s') \<Rightarrow> discard_loop (l \<noteq> []) l s') else s)"
  by pat_completeness auto
termination
  by (relation "measure (\<lambda>(go, buf, s). length s + (if go then 1 else 0))")
    (auto simp: get_line_def split: prod.splits dest: get_line_loop_shorter get_line_loop_Nil)

declare discard_loop.simps [simp del]

section \<open>File types\<close>

text \<open>\<open>getext\<close>: the text behind the last dot, when it has 1 to 14 bytes.\<close>

definition getext :: "bytes \<Rightarrow> bytes option" where
  "getext path =
    (if 46 \<notin> set path then None
     else
       (let tmp = rev (takeWhile (\<lambda>c. c \<noteq> 46) (rev path))
        in if tmp = [] then None else if 14 < length tmp then None else Some tmp))"

definition Mime :: fields where
  "Mime =
    [lit ''html'' \<mapsto> lit ''text/html;charset=UTF-8'', lit ''txt'' \<mapsto> lit ''text/plain;charset=UTF-8'', lit ''gif'' \<mapsto> lit ''image/gif'',
     lit ''jpg'' \<mapsto> lit ''image/jpeg'', lit ''mp2'' \<mapsto> lit ''video/mpeg'', lit ''mp3'' \<mapsto> lit ''audio/mpeg'', lit ''mpa'' \<mapsto> lit ''video/mpeg'',
     lit ''mpe'' \<mapsto> lit ''video/mpeg'', lit ''mpeg'' \<mapsto> lit ''video/mpeg'', lit ''mpg'' \<mapsto> lit ''video/mpeg'', lit ''svg'' \<mapsto> lit ''image/svg+xml'',
     lit ''zip'' \<mapsto> lit ''application/zip'', lit ''sh'' \<mapsto> lit ''application/x-sh'', lit ''bmp'' \<mapsto> lit ''image/bmp'']"

definition setmime :: "bytes \<Rightarrow> bytes \<Rightarrow> web_env \<Rightarrow> web_env" where
  "setmime k v e = e\<lparr>mimelist := (mimelist e)(k \<mapsto> v)\<rparr>"

definition getinfo :: "web_env \<Rightarrow> bytes \<Rightarrow> bytes" where
  "getinfo e path =
    (case getext path of
      Some ext \<Rightarrow> (case mimelist e ext of Some v \<Rightarrow> v | None \<Rightarrow> lit ''text/plain'')
    | None \<Rightarrow> lit ''text/plain'')"

text \<open>The line is printed into an array of 128 bytes.\<close>

definition sendheader :: "web_env \<Rightarrow> bytes \<Rightarrow> http_conn \<Rightarrow> http_conn served" where
  "sendheader e path c =
    (let s = lit ''Content-Type: '' @ getinfo e path @ crlf in if length s < 128 then Served (writeStr s c) else Overrun)"

section \<open>Files\<close>

function cat :: "bytes \<Rightarrow> http_conn \<Rightarrow> http_conn" where
  "cat f c = (if f = [] then c else cat (drop 1024 f) (writeStr (take 1024 f) c))"
  by pat_completeness auto
termination by (relation "measure (\<lambda>(f, c). length f)") auto

declare cat.simps [simp del]

definition headers :: "web_env \<Rightarrow> bytes \<Rightarrow> http_conn \<Rightarrow> http_conn served" where
  "headers e filename c =
    (case sendheader e filename (writeStr (line ''HTTP/1.0 200 OK'' @ SERVER_STRING) c) of
      Overrun \<Rightarrow> Overrun
    | Served c \<Rightarrow> Served (writeStr crlf c))"

definition serve_file :: "web_env \<Rightarrow> bytes \<Rightarrow> http_conn \<Rightarrow> http_conn served" where
  "serve_file e filename c =
    (let c = c\<lparr>sock := discard_loop True (lit ''A'') (sock c)\<rparr>
     in case open_file e filename of
          None \<Rightarrow> Served (not_found c)
        | Some f \<Rightarrow> (case headers e filename c of Overrun \<Rightarrow> Overrun | Served c \<Rightarrow> Served (cat f c)))"

text \<open>\<open>findindex\<close> tries five names in an array of 128 bytes; the first is as long as any.\<close>

definition findindex :: "web_env \<Rightarrow> bytes \<Rightarrow> bytes served" where
  "findindex e path =
    (if 128 \<le> length (path @ lit ''index.lua'') then Overrun
     else if access_ok e (path @ lit ''index.lua'') then Served (path @ lit ''index.lua'')
     else if access_ok e (path @ lit ''index.htm'') then Served (path @ lit ''index.htm'')
     else if access_ok e (path @ lit ''index'') then Served (path @ lit ''index'')
     else if access_ok e (path @ lit ''index.php'') then Served (path @ lit ''index.php'')
     else if access_ok e (path @ lit ''index.cgi'') then Served (path @ lit ''index.cgi'')
     else Served (path @ lit ''index.html''))"

lemma findindex_longer: "findindex e path = Served p \<Longrightarrow> length path < length p \<and> length path < 119"
  by (auto simp: findindex_def lit_def split: if_splits)

section \<open>Scripts and programs\<close>

definition execute_lua :: "web_env \<Rightarrow> bytes \<Rightarrow> bytes \<Rightarrow> bytes \<Rightarrow> request \<Rightarrow> http_conn \<Rightarrow> http_conn served option" where
  "execute_lua e path method query_string req c =
    dofile e
      \<lparr>lr_path = path,
       lr_dir = (if 47 \<in> set path then Some (take (length path - 1 - length (takeWhile (\<lambda>c. c \<noteq> 47) (rev path))) path) else None),
       lr_query = query_string, lr_method = method, lr_paser = req\<rparr> c"

text \<open>A number in decimal.\<close>

fun dec_digits :: "nat \<Rightarrow> bytes" where
  "dec_digits n = (if n < 10 then [word_of_nat (48 + n)] else dec_digits (n div 10) @ [word_of_nat (48 + n mod 10)])"

declare dec_digits.simps [simp del]

definition int_text :: "int \<Rightarrow> bytes" where
  "int_text n = (if n < 0 then [45] else []) @ dec_digits (nat \<bar>n\<bar>)"

text \<open>The environment variables of the program, from arrays of 255 bytes.\<close>

definition cgi_environment :: "bytes \<Rightarrow> bytes \<Rightarrow> int \<Rightarrow> bytes list served" where
  "cgi_environment method query_string n =
    (let vars = [lit ''REQUEST_METHOD='' @ method,
                 if strcaseeq method (lit ''GET'') then lit ''QUERY_STRING='' @ query_string else lit ''CONTENT_LENGTH='' @ int_text n]
     in if list_all (\<lambda>v. length v < 255) vars then Served vars else Overrun)"

text \<open>The program runs in a child; the parent feeds it the body of a POST request and sends on what it prints.\<close>

definition run_program :: "web_env \<Rightarrow> bytes \<Rightarrow> bytes \<Rightarrow> bytes \<Rightarrow> int \<Rightarrow> http_conn \<Rightarrow> http_conn served" where
  "run_program e path method query_string n c =
    (let c = writeStr (line ''HTTP/1.0 200 OK'') c
     in if \<not> pipe_ok e \<or> \<not> pipe2_ok e \<or> \<not> fork_ok e then Served (cannot_execute c)
        else
          (case cgi_environment method query_string n of Overrun \<Rightarrow> Overrun
           | Served vars \<Rightarrow>
             (case (if strcaseeq method (lit ''POST'') then copy_body (nat n) (u_byte e) (sock c) else ([], sock c)) of
               (inp, s) \<Rightarrow> Served (writeStr (program e path vars inp) (c\<lparr>sock := s\<rparr>)))))"

definition execute_cgi :: "web_env \<Rightarrow> bytes \<Rightarrow> bytes \<Rightarrow> bytes \<Rightarrow> http_conn \<Rightarrow> http_conn served" where
  "execute_cgi e path method query_string c =
    (let buf = store_str (u_line e) (lit ''A'')
     in if strcaseeq method (lit ''GET'')
        then run_program e path method query_string (-1) (c\<lparr>sock := discard_loop True (lit ''A'') (sock c)\<rparr>)
        else
          (case get_line (sock c) 1024 of (l, s) \<Rightarrow>
            (case length_loop (l \<noteq> []) (store_str buf l) (-1) s of (n, s) \<Rightarrow>
              (let c = c\<lparr>sock := s\<rparr>
               in if n = -1 then Served (bad_request e c) else run_program e path method query_string n c))))"

section \<open>Requests\<close>

text \<open>The request line in its buffer: the method, at most 254 bytes, and the position behind it.\<close>

definition parse_method :: "bytes \<Rightarrow> bytes \<times> nat" where
  "parse_method buf = (let m = takeWhile (\<lambda>c. \<not> isspace c) (take 254 buf) in (cstr m, length m))"

text \<open>The array \<open>url\<close>, of 255 bytes.\<close>

definition parse_url :: "bytes \<Rightarrow> bytes \<Rightarrow> nat \<Rightarrow> bytes served" where
  "parse_url uninit buf j =
    (let j = j + length (takeWhile isspace (drop j buf)); u = takeWhile (\<lambda>c. \<not> isspace c) (take 254 (drop j buf))
     in if length buf \<le> j \<or> length u < 254 \<and> length buf \<le> j + length u then Overrun
        else Served (store_str uninit u))"

text \<open>The query is cut off: the array with the mark overwritten, and the query when there is a mark.\<close>

definition split_query :: "bytes \<Rightarrow> bytes \<times> bytes option" where
  "split_query url =
    (let p = length (takeWhile (\<lambda>c. c \<noteq> 63) (cstr url))
     in if p < length (cstr url) then (url[p := 0], Some (drop (p + 1) url)) else (url, None))"

text \<open>The check of the path.\<close>

fun malicious :: "bytes \<Rightarrow> bool" where
  "malicious (a # b # s) \<longleftrightarrow> a = 46 \<and> (b = 46 \<or> b = 47) \<or> a = 47 \<and> (b = 47 \<or> b = 46) \<or> malicious (b # s)"
| "malicious _ \<longleftrightarrow> False"

datatype located = Found bytes bool | Missing bytes | Too_long | Lost

text \<open>The loop at \<open>check_dir\<close>: the file to serve, and whether it may be executed.\<close>

function check_dir :: "web_env \<Rightarrow> bytes \<Rightarrow> located" where
  "check_dir e path =
    (if 512 - 16 < length path then Too_long
     else
       (case stat e path of None \<Rightarrow> Missing path
        | Some (isdir, exec) \<Rightarrow>
          if isdir then (case findindex e (path @ [47]) of Overrun \<Rightarrow> Lost | Served p \<Rightarrow> check_dir e p)
          else Found path exec))"
  by pat_completeness auto
termination
  by (relation "measure (\<lambda>(e, path). 512 - length path)") (auto dest!: findindex_longer)

declare check_dir.simps [simp del]

definition locate :: "web_env \<Rightarrow> bytes \<Rightarrow> located" where
  "locate e url =
    (if 512 - 16 < length url then Too_long
     else
       (let path = lit ''static'' @ url
        in if List.last path = 47 then (case findindex e path of Overrun \<Rightarrow> Lost | Served p \<Rightarrow> check_dir e p)
           else check_dir e path))"

definition finish :: "http_conn \<Rightarrow> http_conn" where
  "finish c = c\<lparr>closes := closes c + 1, thread_number := thread_number c - 1\<rparr>"

definition finished :: "http_conn served option \<Rightarrow> http_conn served option" where
  "finished r = map_option (\<lambda>s. case s of Overrun \<Rightarrow> Overrun | Served c \<Rightarrow> Served (finish c)) r"

text \<open>A file that was found: served, or executed when it may be and its type allows it.  Without an extension the
  array for it is not initialised.\<close>

definition serve_found :: "web_env \<Rightarrow> nat \<Rightarrow> bytes \<Rightarrow> bool \<Rightarrow> bytes \<Rightarrow> bytes \<Rightarrow> request \<Rightarrow> http_conn \<Rightarrow> http_conn served option" where
  "serve_found e connfd path exec method query_string req c =
    (let ext = (case getext path of Some x \<Rightarrow> x | None \<Rightarrow> cstr (u_ext e))
     in if \<not> exec \<or> \<not> allowed e ext then Some (serve_file e path c)
        else if ext = lit ''lua'' then execute_lua e path method query_string req c
        else if fastcgi e
             then map_option (\<lambda>s. case s of Overrun \<Rightarrow> Overrun | Served (c, _) \<Rightarrow> Served c) (fcgi_call (fcgi e) connfd path method query_string c)
             else Some (execute_cgi e path method query_string c))"

text \<open>The part of \<open>accept_request\<close> behind the check of the path.\<close>

definition dispatch_url :: "web_env \<Rightarrow> nat \<Rightarrow> bytes \<Rightarrow> bytes \<Rightarrow> request \<Rightarrow> http_conn \<Rightarrow> http_conn served option" where
  "dispatch_url e connfd method query_string req c =
    (let url = req_url req
     in case handler_match e url of
          Some cb \<Rightarrow> finished (cb req c)
        | None \<Rightarrow>
          (case longconn_match e url of
            Some cb \<Rightarrow> cb req (c\<lparr>thread_number := thread_number c - 1\<rparr>)
          | None \<Rightarrow>
            (case locate e url of
              Lost \<Rightarrow> Some Overrun
            | Too_long \<Rightarrow> Some (Served (finish (bad_request e (readBufferBeforeSend e c))))
            | Missing path \<Rightarrow> Some (Served (finish (not_found (readBufferBeforeSend e c))))
            | Found path exec \<Rightarrow> finished (serve_found e connfd path exec method query_string req c))))"

definition accept_request :: "web_env \<Rightarrow> nat \<Rightarrow> http_conn \<Rightarrow> http_conn served option" where
  "accept_request e connfd c =
    (let c = c\<lparr>thread_number := thread_number c + 1\<rparr>
     in if maxRequest e < word_of_int (thread_number c) then Some (Served (finish c))
        else
          (case get_line (sock c) 1024 of (l, s) \<Rightarrow>
            (let c = c\<lparr>sock := s\<rparr>; buf = store_str (u_line e) l
             in case parse_method buf of (method, j) \<Rightarrow>
               if \<not> strcaseeq method (lit ''GET'') \<and> \<not> strcaseeq method (lit ''POST'')
               then Some (Served (finish (unimplemented (readBufferBeforeSend e c))))
               else
                 (case parse_url (u_url e) buf j of Overrun \<Rightarrow> Some Overrun
                  | Served url \<Rightarrow>
                    (let url = (case rewrite e of Some f \<Rightarrow> f url | None \<Rightarrow> url)
                     in case split_query url of (url, query) \<Rightarrow>
                       (let req = (requestBase (u_post e))\<lparr>req_url := cstr url, req_query := query, postmode := strcaseeq method (lit ''POST'')\<rparr>
                        in if malicious (cstr url) then Some (Served (finish (forbidden (readBufferBeforeSend e c))))
                           else dispatch_url e connfd method (case query of Some q \<Rightarrow> cstr q | None \<Rightarrow> []) req c))))))"

section \<open>Lemmas\<close>

interpretation dl: header_loop "\<lambda>go buf s. ((), discard_loop go buf s)" cstr "\<lambda>l buf. l" "\<lambda>_. ()" 1024
  by unfold_locales (auto simp: discard_loop.simps cstr_no_zero split: prod.splits)

lemma takeWhile_stop: "\<forall>x\<in>set xs. P x \<Longrightarrow> \<not> P y \<Longrightarrow> takeWhile P (xs @ y # ys) = xs"
  by (induction xs) auto

lemma cstr_store_str: "0 \<notin> set l \<Longrightarrow> cstr (store_str buf l) = l"
  by (auto simp: store_str_def cstr_def intro!: takeWhile_stop)

interpretation ll: header_loop "\<lambda>go (buf, n) s. length_loop go buf n s" "\<lambda>(buf, n). cstr buf"
  "\<lambda>l (buf, n). (case line_length buf n of (buf, n) \<Rightarrow> (store_str buf l, n))" snd 1024
  by unfold_locales (auto simp: length_loop.simps cstr_store_str line_length_def Let_def split: prod.splits)

lemma cat_sent: "cat f c = c\<lparr>sent := sent c @ f\<rparr>"
proof (induction f c rule: cat.induct)
  case (1 f c)
  then show ?case by (subst cat.simps) (simp add: writeStr_def)
qed

lemma discard_lines:
  assumes "list_all (text_line 1024) ls"
  shows "discard_loop True (lit ''A'') (concat (map (\<lambda>l. l @ [13, 10]) ls) @ [13, 10] @ body) = body"
  using dl.loop_lines [OF assms, of "lit ''A''" body] by (simp add: lit_def cstr_def)

section \<open>The request line\<close>

definition url_ok :: "bytes \<Rightarrow> bool" where
  "url_ok url \<longleftrightarrow> list_all (\<lambda>c. \<not> isspace c \<and> c \<noteq> 0 \<and> c \<noteq> 63) url \<and> url \<noteq> [] \<and> length url < 254"

definition request_line :: "bytes \<Rightarrow> bytes \<Rightarrow> bytes" where
  "request_line method url = method @ [32] @ url @ [32] @ lit ''HTTP/1.1''"

lemma isspace_32: "isspace 32" and isspace_10: "isspace 10" and isspace_13: "isspace 13"
  by (simp_all add: isspace_def)

lemma takeWhile_take_stop:
  "\<forall>x\<in>set xs. P x \<Longrightarrow> \<not> P y \<Longrightarrow> length xs < n \<Longrightarrow> takeWhile P (take n (xs @ y # ys)) = xs"
  by (cases "n - length xs") (simp_all add: takeWhile_stop)

lemma parse_method_line:
  assumes "list_all (\<lambda>c. \<not> isspace c \<and> c \<noteq> 0) m" "length m < 254"
  shows "parse_method (m @ 32 # s) = (m, length m)"
  using takeWhile_take_stop [of m "\<lambda>c. \<not> isspace c" 32 254 s] assms
  by (auto simp: parse_method_def Let_def isspace_32 list_all_iff intro!: cstr_no_zero)

lemma parse_url_line:
  assumes "url_ok url" "m + 1 + length url < length buf" "drop m buf = 32 # url @ 32 # s"
  shows "parse_url uninit buf m = Served (store_str uninit url)"
proof -
  have "takeWhile isspace (drop m buf) = [32]"
    using assms(1,3) by (cases url) (auto simp: url_ok_def isspace_32)
  moreover have "drop (m + 1) buf = url @ 32 # s" using assms(3) by (metis Suc_eq_plus1 drop_Suc list.sel(3) tl_drop)
  moreover have "takeWhile (\<lambda>c. \<not> isspace c) (take 254 (url @ 32 # s)) = url"
    using assms(1) by (intro takeWhile_take_stop) (auto simp: url_ok_def list_all_iff isspace_32)
  ultimately show ?thesis using assms(2) by (simp add: parse_url_def Let_def)
qed

lemma split_query_plain:
  assumes "url_ok url"
  shows "split_query (store_str uninit url) = (store_str uninit url, None)" "cstr (store_str uninit url) = url"
proof -
  show "cstr (store_str uninit url) = url" using assms by (intro cstr_store_str) (auto simp: url_ok_def list_all_iff)
  moreover have "length (takeWhile (\<lambda>c. c \<noteq> 63) url) = length url"
    using assms by (intro arg_cong [where f = length]) (auto simp: url_ok_def list_all_iff takeWhile_eq_all_conv)
  ultimately show "split_query (store_str uninit url) = (store_str uninit url, None)" by (simp add: split_query_def Let_def)
qed

text \<open>What \<open>accept_request\<close> makes of a request line with a path and no query.\<close>

definition request_of :: "web_env \<Rightarrow> bytes \<Rightarrow> bytes \<Rightarrow> request" where
  "request_of e method url =
    (requestBase (u_post e))\<lparr>req_url := url, req_query := None, postmode := strcaseeq method (lit ''POST'')\<rparr>"

lemma accept_request_line:
  assumes m: "method = lit ''GET'' \<or> method = lit ''POST''" and u: "url_ok url" and r: "rewrite e = None"
    and t: "\<not> maxRequest e < word_of_int (thread_number c + 1)"
    and s: "sock c = request_line method url @ [13, 10] @ s"
  shows "accept_request e connfd c =
    (let c = c\<lparr>thread_number := thread_number c + 1, sock := s\<rparr>
     in if malicious url then Some (Served (finish (forbidden (readBufferBeforeSend e c))))
        else dispatch_url e connfd method [] (request_of e method url) c)"
proof -
  let ?l = "request_line method url"
  have mm: "list_all (\<lambda>c. \<not> isspace c \<and> c \<noteq> 0) method" "length method \<le> 4"
    using m by (auto simp: isspace_def lit_def)
  have "10 \<notin> set method" "13 \<notin> set method" "10 \<notin> set url" "13 \<notin> set url"
    using mm(1) u isspace_10 isspace_13 by (auto simp: url_ok_def list_all_iff)
  then have g: "get_line (sock c) 1024 = (?l @ [10], s)"
    unfolding s using mm(2) u by (intro get_line_prefix) (auto simp: request_line_def url_ok_def line_end_def lit_def)
  let ?buf = "store_str (u_line e) (?l @ [10])"
  have b: "?buf = method @ 32 # url @ 32 # lit ''HTTP/1.1'' @ 10 # 0 # drop (length ?l + 2) (u_line e)"
    by (simp add: store_str_def request_line_def)
  have pm: "parse_method ?buf = (method, length method)"
    unfolding b using mm by (intro parse_method_line) simp_all
  have pu: "parse_url (u_url e) ?buf (length method) = Served (store_str (u_url e) url)"
    unfolding b by (rule parse_url_line [OF u]) simp_all
  have sc: "(\<not> strcaseeq method (lit ''GET'') \<and> \<not> strcaseeq method (lit ''POST'')) = False"
    using m by (auto simp: strcaseeq_def)
  show ?thesis
    unfolding accept_request_def
    using t sc by (auto simp: g pm pu r split_query_plain [OF u] request_of_def Let_def)
qed

section \<open>Directories\<close>

text \<open>Two dots in a row.\<close>

fun dotdot :: "bytes \<Rightarrow> bool" where
  "dotdot (a # b # s) \<longleftrightarrow> a = 46 \<and> b = 46 \<or> dotdot (b # s)"
| "dotdot _ \<longleftrightarrow> False"

definition in_static :: "bytes \<Rightarrow> bool" where
  "in_static p \<longleftrightarrow> take 6 p = lit ''static'' \<and> \<not> dotdot p"

lemma dotdot_malicious: "\<not> malicious s \<Longrightarrow> \<not> dotdot s"
  by (induction s rule: malicious.induct) auto

lemma dotdot_append: "\<not> dotdot s \<Longrightarrow> \<not> dotdot t \<Longrightarrow> t = [] \<or> hd t \<noteq> 46 \<or> s = [] \<or> List.last s \<noteq> 46 \<Longrightarrow> \<not> dotdot (s @ t)"
proof (induction s)
  case (Cons a s)
  then show ?case by (cases s; cases t) auto
qed simp

lemma in_static_append:
  assumes "in_static p" "\<not> dotdot t" "t = [] \<or> hd t \<noteq> 46 \<or> List.last p \<noteq> 46"
  shows "in_static (p @ t)"
proof -
  have "length (take 6 p) = length (lit ''static'')" using assms(1) by (simp only: in_static_def)
  then have "6 \<le> length p" by (simp add: lit_def)
  then show ?thesis using assms dotdot_append [of p t] by (auto simp: in_static_def)
qed

lemma in_static_url: "\<not> malicious url \<Longrightarrow> in_static (lit ''static'' @ url)"
  using in_static_append [of "lit ''static''" url] dotdot_malicious [of url] by (simp add: in_static_def lit_def)

text \<open>Two environments that agree on the files below \<open>static\<close>.\<close>

definition same_static :: "web_env \<Rightarrow> web_env \<Rightarrow> bool" where
  "same_static e e' \<longleftrightarrow> e' = e\<lparr>access_ok := access_ok e', stat := stat e', open_file := open_file e'\<rparr> \<and>
    (\<forall>p. in_static p \<longrightarrow> access_ok e' p = access_ok e p \<and> stat e' p = stat e p \<and> open_file e' p = open_file e p)"

definition index_names :: "bytes list" where
  "index_names = map lit [''index.lua'', ''index.htm'', ''index'', ''index.php'', ''index.cgi'', ''index.html'']"

lemma index_in_static: "in_static p \<Longrightarrow> t \<in> set index_names \<Longrightarrow> in_static (p @ t)"
  by (rule in_static_append) (auto simp: index_names_def lit_def)

lemma findindex_same:
  assumes "same_static e e'" "in_static p"
  shows "findindex e' p = findindex e p"
  using index_in_static [OF assms(2)] assms(1) by (simp add: findindex_def same_static_def index_names_def)

lemma findindex_in_static:
  assumes "findindex e p = Served q" "in_static p"
  shows "in_static q"
proof -
  have "\<exists>t\<in>set index_names. q = p @ t"
    using assms(1) by (auto simp: findindex_def index_names_def split: if_splits)
  then show ?thesis using index_in_static [OF assms(2)] by auto
qed

lemma check_dir_same:
  assumes "same_static e e'" "in_static p"
  shows "check_dir e' p = check_dir e p" "check_dir e p = Found q x \<Longrightarrow> in_static q"
proof -
  have "check_dir e' p = check_dir e p \<and> (\<forall>q x. check_dir e p = Found q x \<longrightarrow> in_static q)"
    using assms
  proof (induction e p rule: check_dir.induct)
    case (1 e p)
    have s: "in_static (p @ [47])" using 1(3) by (rule in_static_append) simp_all
    have "stat e' p = stat e p" using 1(2,3) by (simp add: same_static_def)
    then show ?case
      using 1 s findindex_same [OF 1(2) s] findindex_in_static [OF _ s, of e]
      by (subst (1 2 3) check_dir.simps) (auto split: option.splits served.splits)
  qed
  then show "check_dir e' p = check_dir e p" "check_dir e p = Found q x \<Longrightarrow> in_static q" by blast+
qed

lemma locate_same:
  assumes "same_static e e'" "in_static (lit ''static'' @ url)"
  shows "locate e' url = locate e url" "locate e url = Found q x \<Longrightarrow> in_static q"
  using check_dir_same [OF assms(1)] findindex_same [OF assms] findindex_in_static [OF _ assms(2), of e] assms(2)
  by (auto simp: locate_def Let_def split: served.splits if_splits)


lemma same_static_fields:
  assumes "same_static e e'"
  shows "maxRequest e' = maxRequest e" "httpBodyLength e' = httpBodyLength e" "allowexec e' = allowexec e" "mimelist e' = mimelist e"
    "handlers e' = handlers e" "ws e' = ws e" "rewrite e' = rewrite e" "fastcgi e' = fastcgi e" "fcgi e' = fcgi e" "dofile e' = dofile e"
    "pipe_ok e' = pipe_ok e" "pipe2_ok e' = pipe2_ok e" "fork_ok e' = fork_ok e" "program e' = program e" "u_line e' = u_line e"
    "u_page e' = u_page e" "u_url e' = u_url e" "u_ext e' = u_ext e" "u_post e' = u_post e" "u_byte e' = u_byte e"
proof -
  have e: "e' = e\<lparr>access_ok := access_ok e', stat := stat e', open_file := open_file e'\<rparr>"
    using assms by (simp add: same_static_def)
  show "maxRequest e' = maxRequest e" "httpBodyLength e' = httpBodyLength e" "allowexec e' = allowexec e" "mimelist e' = mimelist e"
    "handlers e' = handlers e" "ws e' = ws e" "rewrite e' = rewrite e" "fastcgi e' = fastcgi e" "fcgi e' = fcgi e" "dofile e' = dofile e"
    "pipe_ok e' = pipe_ok e" "pipe2_ok e' = pipe2_ok e" "fork_ok e' = fork_ok e" "program e' = program e" "u_line e' = u_line e"
    "u_page e' = u_page e" "u_url e' = u_url e" "u_ext e' = u_ext e" "u_post e' = u_post e" "u_byte e' = u_byte e"
    by (subst e, simp)+
qed

lemma serve_found_same:
  assumes "same_static e e'" "in_static p"
  shows "serve_found e' connfd p x method q req c = serve_found e connfd p x method q req c"
proof -
  note f = same_static_fields [OF assms(1)]
  have "open_file e' p = open_file e p" using assms by (simp add: same_static_def)
  moreover have "getinfo e' p = getinfo e p" unfolding getinfo_def f ..
  then have "headers e' p = headers e p" by (intro ext) (simp add: headers_def sendheader_def)
  ultimately have "serve_file e' p c = serve_file e p c" by (simp add: serve_file_def Let_def split: option.split)
  moreover have "run_program e' = run_program e" "bad_request e' = bad_request e"
    unfolding run_program_def bad_request_def f by (rule refl)+
  ultimately show ?thesis by (simp add: serve_found_def execute_lua_def execute_cgi_def allowed_def f cong: if_cong option.case_cong)
qed

lemma same_pages:
  assumes "same_static e e'"
  shows "bad_request e' = bad_request e" "readBufferBeforeSend e' = readBufferBeforeSend e"
    "handler_match e' = handler_match e" "longconn_match e' = longconn_match e"
  unfolding bad_request_def readBufferBeforeSend_def handler_match_def longconn_match_def same_static_fields [OF assms] by (rule refl)+

lemma dispatch_same:
  assumes "same_static e e'" "\<not> malicious (req_url req)"
  shows "dispatch_url e' connfd method q req c = dispatch_url e connfd method q req c"
  using locate_same [OF assms(1) in_static_url [OF assms(2)]] serve_found_same [OF assms(1)]
  by (auto simp: dispatch_url_def Let_def same_pages [OF assms(1)] split: option.splits located.splits)

section \<open>Every connection is closed\<close>



lemma keeps_writeStr [simp]: "closes (writeStr s c) = closes c" "thread_number (writeStr s c) = thread_number c"
  by (simp_all add: writeStr_def)

lemma keeps_send_buffers [simp]:
  "closes (send_buffers ss buf c) = closes c" "thread_number (send_buffers ss buf c) = thread_number c"
  by (induction ss buf c rule: send_buffers.induct) (simp_all add: Let_def)

lemma keeps_pages [simp]:
  "closes (not_found c) = closes c" "thread_number (not_found c) = thread_number c"
  "closes (forbidden c) = closes c" "thread_number (forbidden c) = thread_number c"
  "closes (unimplemented c) = closes c" "thread_number (unimplemented c) = thread_number c"
  "closes (cannot_execute c) = closes c" "thread_number (cannot_execute c) = thread_number c"
  "closes (bad_request e c) = closes c" "thread_number (bad_request e c) = thread_number c"
  "closes (error_413 c) = closes c" "thread_number (error_413 c) = thread_number c"
  "closes (readBufferBeforeSend e c) = closes c" "thread_number (readBufferBeforeSend e c) = thread_number c"
  by (simp_all add: not_found_def forbidden_def unimplemented_def cannot_execute_def bad_request_def error_413_def
      readBufferBeforeSend_def del: send_buffers.simps split: prod.splits)










section \<open>Properties\<close>

text \<open>C13. The directory is not left: whatever bytes a client sends, the answer depends only on the files whose path begins
  with \<open>static\<close> and has no two dots in a row.\<close>

theorem static_directory_not_left:
  assumes "same_static e e'"
  shows "accept_request e' connfd c = accept_request e connfd c"
  using dispatch_same [OF assms] same_pages [OF assms] same_static_fields [OF assms]
  by (simp add: accept_request_def Let_def split: prod.split served.split)

text \<open>C17. A file is sent as it is: a GET request for a readable file that is not a directory, not executable and not
  covered by a route is answered with the header for its type and its content; the request is read up to its
  body, the connection is closed once and the count of requests restored.\<close>

theorem static_file_served:
  assumes "url_ok url" "\<not> malicious url" "List.last url \<noteq> 47" "rewrite e = None"
    "\<not> maxRequest e < word_of_int (thread_number c + 1)" "handler_match e url = None" "longconn_match e url = None"
    "stat e (lit ''static'' @ url) = Some (False, False)" "open_file e (lit ''static'' @ url) = Some f"
    "length (getinfo e (lit ''static'' @ url)) < 112" "list_all (text_line 1024) ls"
    "sock c = request_line (lit ''GET'') url @ [13, 10] @ concat (map (\<lambda>l. l @ [13, 10]) ls) @ [13, 10] @ body"
  shows "accept_request e connfd c = Some (Served (c\<lparr>sock := body, closes := closes c + 1,
    sent := sent c @ line ''HTTP/1.0 200 OK'' @ SERVER_STRING @ lit ''Content-Type: '' @ getinfo e (lit ''static'' @ url) @ crlf @ crlf @ f\<rparr>))"
proof -
  let ?p = "lit ''static'' @ url" and ?s = "concat (map (\<lambda>l. l @ [13, 10]) ls) @ [13, 10] @ body"
  let ?c = "c\<lparr>thread_number := thread_number c + 1, sock := ?s\<rparr>"
  have "url \<noteq> []" "length url < 254" using assms(1) by (auto simp: url_ok_def)
  then have l: "locate e url = Found ?p False"
    using assms(3,8) by (simp add: locate_def check_dir.simps lit_def)
  have "accept_request e connfd c = dispatch_url e connfd (lit ''GET'') [] (request_of e (lit ''GET'') url) ?c"
    using accept_request_line [OF disjI1 [OF refl] assms(1,4,5,12)] assms(2) by simp
  also have "\<dots> = finished (Some (serve_file e ?p ?c))"
    using assms(6,7) l by (simp add: dispatch_url_def request_of_def serve_found_def Let_def)
  also have "serve_file e ?p ?c = (case headers e ?p (?c\<lparr>sock := body\<rparr>) of Overrun \<Rightarrow> Overrun | Served c \<Rightarrow> Served (cat f c))"
    using discard_lines [OF assms(11), of body] assms(9) by (simp add: serve_file_def)
  finally show ?thesis
    using assms(10) by (simp add: headers_def sendheader_def finished_def finish_def cat_sent writeStr_def Let_def crlf_def lit_def)
qed

text \<open>A request for a directory with a path of 113 bytes or more is formatted behind the end of an array.\<close>

theorem long_directory_overruns:
  assumes "url_ok url" "\<not> malicious url" "List.last url = 47" "113 \<le> length url" "rewrite e = None"
    "\<not> maxRequest e < word_of_int (thread_number c + 1)" "handler_match e url = None" "longconn_match e url = None"
    "sock c = request_line (lit ''GET'') url @ [13, 10] @ s"
  shows "accept_request e connfd c = Some Overrun"
proof -
  have "url \<noteq> []" "length url < 254" using assms(1) by (auto simp: url_ok_def)
  then have "locate e url = Lost" using assms(3,4) by (simp add: locate_def findindex_def lit_def)
  then show ?thesis
    using accept_request_line [OF disjI1 [OF refl] assms(1,5,6,9)] assms(2,7,8) by (simp add: dispatch_url_def request_of_def)
qed



section \<open>A small site\<close>

definition sample_fcgi :: fcgi_env where
  "sample_fcgi =
    \<lparr>cwd = Some (lit ''/srv''), fcgi_conn = None, fcgi_server = (\<lambda>_. []), got_in = (\<lambda>_. 1), got_back = (\<lambda>_. 1), body_limit = 65536,
     u_recvbytes = 1, u_buf = replicate 512 65, u_conlength = [], u_contype = [], u_filename = [], u_header = []\<rparr>"

definition sample_web :: web_env where
  "sample_web =
    \<lparr>maxRequest = 16, httpBodyLength = 65536, access_ok = (\<lambda>_. False),
     stat = (\<lambda>p. if p = lit ''static/a.txt'' then Some (False, False) else None),
     open_file = (\<lambda>p. if p = lit ''static/a.txt'' then Some (lit ''hello'') else None),
     allowexec = [], mimelist = Mime, handlers = [], ws = [], rewrite = None, fastcgi = False, fcgi = sample_fcgi,
     dofile = (\<lambda>_ c. Some (Served c)), pipe_ok = True, pipe2_ok = True, fork_ok = True, program = (\<lambda>_ _ _. []),
     u_line = [], u_page = [], u_url = [], u_ext = [], u_post = [], u_byte = 0\<rparr>"

definition sample_get :: "bytes \<Rightarrow> http_conn" where
  "sample_get url =
    \<lparr>sock = request_line (lit ''GET'') url @ [13, 10] @ concat (map (\<lambda>l. l @ [13, 10]) [lit ''Host: x'']) @ [13, 10] @ [],
     sent = [], closes = 0, thread_number = 0\<rparr>"


theorem static_directory_not_left_witness:
  "accept_request (sample_web\<lparr>open_file := (open_file sample_web)(lit ''/etc/passwd'' \<mapsto> [1])\<rparr>) 5 (sample_get (lit ''/../x'')) =
   accept_request sample_web 5 (sample_get (lit ''/../x''))"
  by (rule static_directory_not_left) (auto simp: same_static_def in_static_def lit_def)

theorem static_file_served_witness:
  "accept_request sample_web 5 (sample_get (lit ''/a.txt'')) = Some (Served ((sample_get (lit ''/a.txt''))\<lparr>sock := [], closes := 1,
    sent := [] @ line ''HTTP/1.0 200 OK'' @ SERVER_STRING @ lit ''Content-Type: '' @ getinfo sample_web (lit ''static'' @ lit ''/a.txt'') @ crlf @ crlf
      @ lit ''hello''\<rparr>))"
  using static_file_served [where url = "lit ''/a.txt''" and e = sample_web and c = "sample_get (lit ''/a.txt'')" and f = "lit ''hello''"
      and ls = "[lit ''Host: x'']" and body = "[]" and connfd = 5]
  by (simp add: sample_web_def sample_get_def url_ok_def lit_def isspace_def handler_match_def longconn_match_def getinfo_def getext_def
      Mime_def text_line_def)

theorem long_directory_overruns_witness:
  "accept_request sample_web 5 (sample_get (47 # replicate 120 97 @ [47])) = Some Overrun"
proof -
  have "\<not> malicious (47 # replicate 120 97 @ [47])" by code_simp
  then show ?thesis
    using long_directory_overruns [where url = "47 # replicate 120 97 @ [47]" and e = sample_web and c = "sample_get (47 # replicate 120 97 @ [47])" and connfd = 5]
    by (simp add: sample_web_def sample_get_def url_ok_def isspace_def handler_match_def longconn_match_def list_all_iff)
qed


end
