(* ===== verification/Websocket.thy ===== *)
theory Websocket
  imports YsDB
begin

text \<open>
  The frames of \<^verbatim>\<open>core/websocket.hpp\<close>.  A \<open>std::string\<close> is its list of bytes; \<open>c_str()\<close> lets the code read one byte
  behind its end, the terminator, and a read further on is a failure (\<open>None\<close>).  Assigning a \<open>char*\<close> to a
  string cuts it at the first zero byte.
\<close>

unbundle bit_operations_syntax

section \<open>Frames\<close>

datatype WS_FrameType =
    WS_OPENING_FRAME | WS_ERROR_FRAME | WS_TEXT_FRAME | WS_BINARY_FRAME | WS_PING_FRAME | WS_PONG_FRAME
  | WS_CLOSING_FRAME | WS_EMPTY_FRAME

fun frame_code :: "WS_FrameType \<Rightarrow> nat" where
  "frame_code WS_OPENING_FRAME = 0xF3" | "frame_code WS_ERROR_FRAME = 0xF1" | "frame_code WS_TEXT_FRAME = 0x01"
| "frame_code WS_BINARY_FRAME = 0x02" | "frame_code WS_PING_FRAME = 0x09" | "frame_code WS_PONG_FRAME = 0x0A"
| "frame_code WS_CLOSING_FRAME = 0x08" | "frame_code WS_EMPTY_FRAME = 0xF0"

text \<open>\<open>n\<close> bytes of \<open>s.c_str()\<close> from an offset on.\<close>

definition str_read :: "bytes \<Rightarrow> nat \<Rightarrow> nat \<Rightarrow> bytes option" where
  "str_read s off n = (if off + n \<le> length s + 1 then Some (take n (drop off (s @ [0]))) else None)"

text \<open>The length of the payload of a text frame: the value, the number of extra bytes it takes, and whether
  it is not supported.\<close>

definition payload_length :: "bytes \<Rightarrow> u8 \<Rightarrow> (nat \<times> nat \<times> bool) option" where
  "payload_length inFrame b1 =
    (let len = unat (b1 AND 0x7f)
     in if len = 0x7e
        then (case str_read inFrame 2 2 of
            None \<Rightarrow> None
          | Some bs \<Rightarrow> Some (unat (bs ! 0) * 256 + unat (bs ! 1), 2, False))
        else Some (len, 0, len = 0x7f))"

definition unmask :: "bytes \<Rightarrow> bytes \<Rightarrow> bytes" where
  "unmask maskingKey payload = map (\<lambda>i. (payload ! i) XOR (maskingKey ! (i mod 4))) [0..<length payload]"

text \<open>The last part of \<open>decodeFrame\<close>: the message, when there is one.\<close>

definition decode_payload :: "bytes \<Rightarrow> nat \<Rightarrow> nat \<Rightarrow> nat \<Rightarrow> (nat \<times> bytes option) option" where
  "decode_payload inFrame ret len extra =
    (if ret \<noteq> frame_code WS_ERROR_FRAME \<and> 0 < len
     then
       (case (str_read inFrame (2 + extra) (min 4 len), str_read inFrame (6 + extra) len) of
         (Some maskingKey, Some payload) \<Rightarrow> Some (ret, Some (cstr (unmask maskingKey payload)))
       | _ \<Rightarrow> None)
     else Some (ret, None))"

text \<open>The result and, when it is assigned, the message.  The first two values of \<open>ret\<close> are overwritten.\<close>

definition decodeFrame :: "bytes \<Rightarrow> (nat \<times> bytes option) option" where
  "decodeFrame inFrame =
    (case str_read inFrame 0 2 of None \<Rightarrow> None
     | Some h \<Rightarrow>
       (let b0 = h ! 0; b1 = h ! 1; err = frame_code WS_ERROR_FRAME;
            ret = unat (b0 AND 0x80);
            ret = (if b0 AND 0x80 \<noteq> 0x80 then err else ret);
            ret = (if b1 AND 0x80 \<noteq> 0x80 then err else ret);
            opcode = unat (b0 AND 0x0f)
        in if opcode = frame_code WS_TEXT_FRAME
           then (case payload_length inFrame b1 of None \<Rightarrow> None
               | Some (len, extra, bad) \<Rightarrow> decode_payload inFrame (if bad then err else ret) len extra)
           else if opcode \<in> {frame_code WS_BINARY_FRAME, frame_code WS_PING_FRAME, frame_code WS_PONG_FRAME}
           then Some (ret, None)
           else if opcode = frame_code WS_CLOSING_FRAME then Some (frame_code WS_CLOSING_FRAME, None)
           else Some (err, None)))"

text \<open>\<open>encodeFrame\<close>: the result and the text assigned to \<open>outFrame\<close>.\<close>

definition frame_header :: "WS_FrameType \<Rightarrow> nat \<Rightarrow> bytes" where
  "frame_header frameType len =
    (if len \<le> 0x7d then [0x80 OR word_of_nat (frame_code frameType), word_of_nat len]
     else [0x80 OR word_of_nat (frame_code frameType), 0x7e, word_of_nat (len div 256), word_of_nat len])"

definition encodeFrame :: "bytes \<Rightarrow> WS_FrameType \<Rightarrow> nat \<times> bytes option" where
  "encodeFrame inMessage frameType =
    (if 32767 < length inMessage then (frame_code WS_ERROR_FRAME, None)
     else (frame_code WS_EMPTY_FRAME, Some (cstr (frame_header frameType (length inMessage) @ inMessage))))"

section \<open>Receivers\<close>

text \<open>\<open>boardcast\<close>: \<open>snd_ok fd res\<close> says whether \<open>send\<close> succeeds; a receiver that fails is closed and
  erased.  The result is the list of receivers and the descriptors closed.\<close>

definition ws_add :: "nat list \<Rightarrow> nat \<Rightarrow> nat list" where
  "ws_add fds fd = fds @ [fd]"

definition wsSend :: "(nat \<Rightarrow> bytes \<Rightarrow> bool) \<Rightarrow> nat \<Rightarrow> bytes \<Rightarrow> bool" where
  "wsSend snd_ok fd data = snd_ok fd (case encodeFrame data WS_TEXT_FRAME of (_, Some res) \<Rightarrow> res | (_, None) \<Rightarrow> [])"

fun boardcast :: "(nat \<Rightarrow> bytes \<Rightarrow> bool) \<Rightarrow> bytes \<Rightarrow> nat list \<Rightarrow> nat list \<times> nat list" where
  "boardcast snd_ok data [] = ([], [])"
| "boardcast snd_ok data (fd # fds) =
    (case boardcast snd_ok data fds of
      (keep, gone) \<Rightarrow> if wsSend snd_ok fd data then (fd # keep, gone) else (keep, fd # gone))"

lemma boardcast_filter:
  "boardcast snd_ok data fds = (filter (\<lambda>fd. wsSend snd_ok fd data) fds, filter (\<lambda>fd. \<not> wsSend snd_ok fd data) fds)"
  by (induction fds) simp_all

section \<open>What a browser sends\<close>

text \<open>A text frame of a client, after RFC 6455: final, masked with a key of four bytes.\<close>

definition masked_frame :: "bytes \<Rightarrow> bytes \<Rightarrow> bytes" where
  "masked_frame key m =
    (if length m \<le> 125 then [0x81, 0x80 OR word_of_nat (length m)]
     else [0x81, 0xfe, word_of_nat (length m div 256), word_of_nat (length m)]) @ key @ unmask key m"

lemma unmask_twice: "unmask key (unmask key m) = m"
  by (rule nth_equalityI) (simp_all add: unmask_def)

lemma length_unmask [simp]: "length (unmask key m) = length m"
  by (simp add: unmask_def)

lemma unmask_take4: "length key = 4 \<Longrightarrow> unmask (take (min 4 (length m)) key) m = unmask key m"
  by (auto simp: unmask_def min_def intro!: arg_cong2 [where f = "(XOR)"] nth_take)

lemma short_length_byte:
  assumes "n \<le> 125"
  shows "(0x80 OR word_of_nat n :: u8) AND 0x80 = 0x80" "unat ((0x80 OR word_of_nat n :: u8) AND 0x7f) = n"
proof -
  have "list_all (\<lambda>n. (0x80 OR word_of_nat n :: u8) AND 0x80 = 0x80 \<and> unat ((0x80 OR word_of_nat n :: u8) AND 0x7f) = n) [0..<126]"
    by code_simp
  then show "(0x80 OR word_of_nat n :: u8) AND 0x80 = 0x80" "unat ((0x80 OR word_of_nat n :: u8) AND 0x7f) = n"
    using assms by (auto simp: list_all_iff)
qed

lemma long_length_bytes:
  assumes "n < 65536"
  shows "unat (word_of_nat (n div 256) :: u8) * 256 + unat (word_of_nat n :: u8) = n"
  using assms by (simp add: unat_of_nat mod_less)

lemma decode_payload_masked:
  assumes "length key = 4" "0 \<notin> set m" "m \<noteq> []" "length h = 2 + extra" "ret \<noteq> 0xF1"
  shows "decode_payload (h @ key @ unmask key m) ret (length m) extra = Some (ret, Some m)"
proof -
  let ?f = "h @ key @ unmask key m"
  have "str_read ?f (2 + extra) (min 4 (length m)) = Some (take (min 4 (length m)) key)"
    using assms(1,4) by (simp add: str_read_def)
  moreover have "str_read ?f (6 + extra) (length m) = Some (unmask key m)"
    using assms(1,4) by (simp add: str_read_def)
  moreover have "unmask (take (min 4 (length m)) key) (unmask key m) = m"
    using unmask_take4 [OF assms(1), of "unmask key m"] by (simp add: unmask_twice)
  moreover have "cstr m = m"
    using assms(2) by (auto simp: cstr_def takeWhile_eq_all_conv)
  ultimately show ?thesis
    using assms(3,5) by (simp add: decode_payload_def)
qed

section \<open>Properties\<close>

text \<open>The server reads what a browser sends: the masked text frame of a message without zero bytes, short or
  with a length of two bytes, decodes to the message.\<close>

theorem masked_frame_decoded:
  assumes "length key = 4" "0 \<notin> set m" "m \<noteq> []" "length m < 65536"
  shows "decodeFrame (masked_frame key m) = Some (0x80, Some m)"
proof (cases "length m \<le> 125")
  case True
  let ?h = "[0x81, 0x80 OR word_of_nat (length m)] :: bytes"
  have f: "masked_frame key m = ?h @ key @ unmask key m"
    using True by (simp add: masked_frame_def)
  note b = short_length_byte [OF True]
  have "str_read (masked_frame key m) 0 2 = Some ?h"
    by (simp add: f str_read_def)
  moreover have "payload_length (masked_frame key m) (?h ! 1) = Some (length m, 0, False)"
    using True b by (simp add: payload_length_def)
  ultimately show ?thesis
    using b decode_payload_masked [OF assms(1-3), of ?h 0 128] unfolding f by (simp add: decodeFrame_def)
next
  case False
  let ?h = "[0x81, 0xfe, word_of_nat (length m div 256), word_of_nat (length m)] :: bytes"
  have f: "masked_frame key m = ?h @ key @ unmask key m"
    using False by (simp add: masked_frame_def)
  have "str_read (masked_frame key m) 0 2 = Some [0x81, 0xfe]"
    by (simp add: f str_read_def)
  moreover have "payload_length (masked_frame key m) 0xfe = Some (length m, 2, False)"
    using long_length_bytes [OF assms(4)] by (simp add: payload_length_def f str_read_def)
  ultimately show ?thesis
    using decode_payload_masked [OF assms(1-3), of ?h 2 128] unfolding f by (simp add: decodeFrame_def)
qed

text \<open>What the server sends: a message of 1 to 125 bytes without a zero byte goes out as a correct frame, but
  of every message of 126 to 255 bytes only two bytes are sent, because the upper byte of the length is zero and ends
  the text.\<close>

theorem long_messages_truncated:
  "(0 \<notin> set m \<longrightarrow> 1 \<le> length m \<longrightarrow> length m \<le> 125 \<longrightarrow>
     encodeFrame m WS_TEXT_FRAME = (0xF0, Some ([0x81, word_of_nat (length m)] @ m))) \<and>
   (126 \<le> length m \<longrightarrow> length m < 256 \<longrightarrow> encodeFrame m WS_TEXT_FRAME = (0xF0, Some [0x81, 0x7e]))"
proof (intro conjI impI)
  assume m: "0 \<notin> set m" "1 \<le> length m" "length m \<le> 125"
  have "(word_of_nat (length m) :: u8) \<noteq> 0"
  proof -
    have "\<not> 256 dvd length m" using m by (intro nat_dvd_not_less) auto
    then show ?thesis by (simp add: word_of_nat_eq_0_iff)
  qed
  moreover have "cstr m = m"
    using m(1) by (auto simp: cstr_def takeWhile_eq_all_conv)
  ultimately show "encodeFrame m WS_TEXT_FRAME = (0xF0, Some ([0x81, word_of_nat (length m)] @ m))"
    using m by (simp add: encodeFrame_def frame_header_def cstr_def)
next
  assume "126 \<le> length m" "length m < 256"
  then show "encodeFrame m WS_TEXT_FRAME = (0xF0, Some [0x81, 0x7e])"
    by (simp add: encodeFrame_def frame_header_def cstr_def)
qed

text \<open>A frame that announces more than it carries makes the server read outside of it.\<close>

theorem short_frame_overread:
  assumes "length m + 7 < n" "n \<le> 125" "length key = 4"
  shows "decodeFrame ([0x81, 0x80 OR word_of_nat n] @ key @ m) = None"
proof -
  let ?h = "[0x81, 0x80 OR word_of_nat n] :: bytes"
  note b = short_length_byte [OF assms(2)]
  have "str_read (?h @ key @ m) 6 n = None" using assms by (simp add: str_read_def)
  moreover have "str_read (?h @ key @ m) 0 2 = Some ?h" by (simp add: str_read_def)
  moreover have "payload_length (?h @ key @ m) (?h ! 1) = Some (n, 0, False)"
    using assms(2) b by (simp add: payload_length_def)
  ultimately show ?thesis
    using assms(1) b by (simp add: decodeFrame_def decode_payload_def split: option.splits)
qed

theorem masked_frame_decoded_witness:
  "decodeFrame (masked_frame [1, 2, 3, 4] (lit ''hello'')) = Some (0x80, Some (lit ''hello''))"
  by (rule masked_frame_decoded) (simp_all add: lit_def)

theorem long_messages_truncated_witness:
  "encodeFrame (lit ''hello'') WS_TEXT_FRAME = (0xF0, Some ([0x81, 5] @ lit ''hello'')) \<and>
   encodeFrame (replicate 200 65) WS_TEXT_FRAME = (0xF0, Some [0x81, 0x7e])"
  using long_messages_truncated [of "lit ''hello''"] long_messages_truncated [of "replicate 200 65"] by (simp add: lit_def)

theorem short_frame_overread_witness: "decodeFrame ([0x81, 0x80 OR word_of_nat 100] @ [1, 2, 3, 4] @ [5]) = None"
  by (rule short_frame_overread) simp_all

end
