(* ===== verification/Webserver.thy ===== *)
theory Webserver
  imports Httpd Websocket Base64
begin

text \<open>
  The handlers of \<^verbatim>\<open>core/webserver.hpp\<close> and the handshake \<open>callback\<close> of \<^verbatim>\<open>core/websocket.hpp\<close>, on the requests of
  the HTTP server.  The Lua script behind \<open>/ajax\<close>, SHA-1 and the function \<open>onWebsocketConnect\<close> are parameters.
\<close>

section \<open>Reading a request\<close>

text \<open>What all handlers begin with; \<open>numchars\<close> is the uninitialised variable of \<open>readheader\<close>.\<close>

definition read_request :: "int \<Rightarrow> request \<Rightarrow> http_conn \<Rightarrow> (request \<times> http_conn) served" where
  "read_request numchars req c =
    (case init numchars req (sock c) of (req, s) \<Rightarrow>
      (case query_decode req of None \<Rightarrow> Overrun
       | Some req \<Rightarrow>
         (case getcookie numchars req s of (_, req, s) \<Rightarrow>
           (case cookie_decode req of None \<Rightarrow> Overrun
            | Some req \<Rightarrow> Served (req, c\<lparr>sock := s\<rparr>)))))"

section \<open>Ajax\<close>

text \<open>The tables the script finds; values of queries and posts are decoded in place.\<close>

record ajax_tables =
  t_GET :: fields
  t_POST :: "fields option"
  t_COOKIE :: fields
  t_HEADER :: fields

definition decoded_value :: "bytes \<Rightarrow> bytes" where
  "decoded_value v = cstr (fst (url_decode (v @ [0]) (length v)))"

definition decoded_fields :: "fields \<Rightarrow> fields" where
  "decoded_fields m k = map_option decoded_value (m k)"

text \<open>The body: \<open>getpost\<close> and \<open>post_decode\<close>; \<open>got\<close> is what the one \<open>recv\<close> delivers.\<close>

definition read_post :: "int \<Rightarrow> nat \<Rightarrow> request \<Rightarrow> http_conn \<Rightarrow> (request \<times> http_conn) served" where
  "read_post numchars got req c =
    (if postmode req
     then
       (case getpost numchars got req (sock c) of (_, req, s) \<Rightarrow>
         (case post_decode req of None \<Rightarrow> Overrun | Some req \<Rightarrow> Served (req, c\<lparr>sock := s\<rparr>)))
     else Served (req, c))"

definition ajax :: "int \<Rightarrow> nat \<Rightarrow> (ajax_tables \<Rightarrow> bytes option) \<Rightarrow> hcallback" where
  "ajax numchars got script req c =
    Some
     (case read_request numchars req c of Overrun \<Rightarrow> Overrun
      | Served (req, c) \<Rightarrow>
        (case read_post numchars got req c of Overrun \<Rightarrow> Overrun
         | Served (req, c) \<Rightarrow>
           (let result = script
                  \<lparr>t_GET = decoded_fields (paseredquery req),
                   t_POST = (if postmode req then Some (decoded_fields (paseredpost req)) else None),
                   t_COOKIE = paseredcookie req, t_HEADER = paseredheader req\<rparr>
            in Served
                (writeStr (case result of Some r \<Rightarrow> r | None \<Rightarrow> lit ''NULL'')
                  (writeStr (line ''HTTP/1.0 200 OK'' @ line ''Server:yrssf-ajax-server'' @ line ''Content-Type:text/html;charset=UTF-8''
                     @ line ''Cache-Control:no-cache'' @ crlf) c)))))"

section \<open>Redirection to the parent\<close>

text \<open>The last part of the path, when there is one.\<close>

definition last_part :: "bytes \<Rightarrow> bytes" where
  "last_part url =
    (if 47 \<in> set url then (let t = rev (takeWhile (\<lambda>c. c \<noteq> 47) (rev url)) in if t = [] then [] else [47] @ t) else [])"

definition msrc :: "int \<Rightarrow> bytes \<Rightarrow> hcallback" where
  "msrc numchars parhash req c =
    Some
     (case read_request numchars req c of Overrun \<Rightarrow> Overrun
      | Served (req, c) \<Rightarrow>
        Served
         (writeStr (crlf @ crlf)
           (writeStr (lit ''Location:'' @ lit ''../'' @ parhash @ last_part (req_url req) @ crlf)
             (writeStr (line ''HTTP/1.0 302 Moved Temporarily'' @ line ''Server:yrssf-source-server'') c))))"

section \<open>The handshake of a WebSocket\<close>

text \<open>The hash is 20 bytes in an array of 128, read as a C string; \<open>uninit\<close> is what stands behind them.\<close>

definition sha1 :: "(bytes \<Rightarrow> bytes) \<Rightarrow> bytes \<Rightarrow> bytes \<Rightarrow> bytes" where
  "sha1 sha uninit inp = cstr (sha inp @ uninit)"

definition magicKey :: bytes where
  "magicKey = lit ''258EAFA5-E914-47DA-95CA-C5AB0DC85B11''"

record ws_env =
  ws_numchars :: int
  onWebsocketConnect :: "(request \<Rightarrow> bool) option"
  ws_sha :: "bytes \<Rightarrow> bytes"
  ws_uninit :: bytes

definition close_conn :: "http_conn \<Rightarrow> http_conn" where
  "close_conn c = c\<lparr>closes := closes c + 1\<rparr>"

text \<open>\<open>callback\<close>; \<open>fds\<close> is the list of receivers.  \<open>NULL\<close> for \<open>onWebsocketConnect\<close> closes and goes on, so that the call at
  the end fails (\<open>Overrun\<close>).\<close>

definition ws_callback :: "ws_env \<Rightarrow> nat \<Rightarrow> request \<Rightarrow> nat list \<Rightarrow> http_conn \<Rightarrow> (http_conn \<times> nat list) served" where
  "ws_callback w fd req fds c =
    (let c = (if onWebsocketConnect w = None then close_conn c else c)
     in case read_request (ws_numchars w) req c of Overrun \<Rightarrow> Overrun
        | Served (req, c) \<Rightarrow>
          if paseredheader req (lit ''upgrade'') \<noteq> Some (lit ''websocket'') \<or> paseredheader req (lit ''connection'') \<noteq> Some (lit ''Upgrade'')
          then Served (close_conn c, fds)
          else
            (case paseredheader req (lit ''sec-websocket-key'') of
              None \<Rightarrow> Served (close_conn c, fds)
            | Some key \<Rightarrow>
              (let shahash = sha1 (ws_sha w) (ws_uninit w) (key @ magicKey);
                   bufr = cstr (fst (encode shahash (length shahash)));
                   c = writeStr (crlf @ crlf)
                        (writeStr bufr
                          (writeStr (line ''HTTP/1.1 101 Switching Protocols'' @ line ''Upgrade: websocket'' @ line ''Connection: upgrade''
                            @ lit ''Sec-WebSocket-Accept: '') c))
               in case onWebsocketConnect w of None \<Rightarrow> Overrun
                  | Some f \<Rightarrow> if \<not> f req then Served (close_conn c, fds) else Served (c, ws_add fds fd))))"

text \<open>\<open>webserverRun\<close>: the rules, in their order; the callback of the WebSockets is wrapped so that it keeps the receivers apart.\<close>

definition webserver_rules :: "hcallback \<Rightarrow> hcallback \<Rightarrow> hcallback \<Rightarrow> web_env \<Rightarrow> web_env" where
  "webserver_rules ajax_cb msrc_cb ws_cb e =
    addlongrule (Some ws_cb) (lit ''/websocket'') (addrule (Some msrc_cb) (lit ''/mysource'') (addrule (Some ajax_cb) (lit ''/ajax'') e))"

section \<open>Lines that end\<close>

text \<open>A line is complete, fills the buffer, or is the last thing the peer sent.\<close>

definition ended :: "bytes \<Rightarrow> bool" where
  "ended l \<longleftrightarrow> l = [] \<or> List.last l = 10 \<or> length l = 4095"

lemma recv_char_zero: "recv_char s = Some (c, s') \<Longrightarrow> 0 \<notin> set s \<Longrightarrow> c \<noteq> 0 \<and> 0 \<notin> set s'"
  by (cases s) (auto split: if_splits dest: list.set_sel(2))

lemma get_line_loop_ended:
  "get_line_loop n s = (l, s') \<Longrightarrow> l = [] \<or> List.last l = 10 \<or> length l = n \<or> s' = []"
proof (induction n s arbitrary: l rule: get_line_loop.induct)
  case (2 n s)
  show ?case
  proof (cases "recv_char s")
    case (Some cs)
    obtain c t where c: "cs = (c, t)" by force
    obtain b r where b: "get_line_loop n t = (b, r)" by force
    show ?thesis
    proof (cases "c = 10")
      case False
      then have "l = c # b" "s' = r" using 2(2) Some c b by auto
      moreover have "b = [] \<or> List.last b = 10 \<or> length b = n \<or> r = []" using 2(1) [OF Some c [symmetric] False] b \<open>s' = r\<close> by blast
      ultimately show ?thesis using get_line_loop_Nil [of n t r] b by (cases "b = []") auto
    qed (use 2(2) Some c in auto)
  qed (use 2 in auto)
qed simp

lemma get_line_loop_zero: "get_line_loop n s = (l, s') \<Longrightarrow> 0 \<notin> set s \<Longrightarrow> 0 \<notin> set l \<and> 0 \<notin> set s'"
proof (induction n s arbitrary: l rule: get_line_loop.induct)
  case (2 n s)
  then show ?case
    by (auto split: option.splits if_splits prod.splits dest: recv_char_zero) (blast dest: recv_char_zero)+
qed simp

lemma get_line_ended: "get_line s 4096 = (l, s') \<Longrightarrow> ended l \<or> s' = []"
  using get_line_loop_ended [of 4095 s l s'] by (auto simp: get_line_def ended_def)

lemma get_line_zero: "get_line s n = (l, s') \<Longrightarrow> 0 \<notin> set s \<Longrightarrow> 0 \<notin> set l \<and> 0 \<notin> set s'"
  using get_line_loop_zero by (auto simp: get_line_def)

lemma downstr_length [simp]: "length (downstr s) = length s"
  by (induction s) auto

text \<open>A header whose line has ended is not one with a short value without a line feed.\<close>

lemma header_field_ended:
  assumes "ended buf" "0 \<notin> set buf" "header_field buf m k = Some v" "m k \<noteq> Some v" "length k + length v < 4000"
  shows "List.last v = 10"
proof -
  let ?k = "takeWhile (\<lambda>c. c \<noteq> 58) buf"
  have "cstr buf = buf" using assms(2) by (rule cstr_no_zero)
  then have v: "k = downstr ?k" "v = drop (length ?k + 1) buf" "v \<noteq> []" "buf \<noteq> []"
    using assms(3,4) by (auto simp: header_field_def Let_def split: if_splits)
  then have "length buf = length k + 1 + length v" by (simp add: not_le)
  then have "List.last buf = 10" using assms(1,5) v(4) by (auto simp: ended_def)
  then show ?thesis using v(2,3) by (simp add: last_drop)
qed

definition ws_upgrade :: "fields \<Rightarrow> bool" where
  "ws_upgrade m \<longleftrightarrow> m (lit ''upgrade'') = Some (lit ''websocket'')"

definition ws_connection :: "fields \<Rightarrow> bool" where
  "ws_connection m \<longleftrightarrow> m (lit ''connection'') = Some (lit ''Upgrade'')"

lemma header_field_one_key: "header_field buf m k \<noteq> m k \<Longrightarrow> header_field buf m k' \<noteq> m k' \<Longrightarrow> k = k'"
  by (auto simp: header_field_def Let_def split: if_splits)

lemma header_field_both:
  assumes "\<not> ws_upgrade m" "\<not> ws_connection m"
  shows "\<not> (ws_upgrade (header_field buf m) \<and> ws_connection (header_field buf m))"
  using assms header_field_one_key [of buf m "lit ''upgrade''" "lit ''connection''"]
  by (auto simp: ws_upgrade_def ws_connection_def lit_def)

lemma header_field_neither:
  assumes "\<not> ws_upgrade m" "\<not> ws_connection m" "ended buf" "0 \<notin> set buf"
  shows "\<not> ws_upgrade (header_field buf m) \<and> \<not> ws_connection (header_field buf m)"
  using assms header_field_ended [of buf m "lit ''upgrade''" "lit ''websocket''"] header_field_ended [of buf m "lit ''connection''" "lit ''Upgrade''"]
  by (auto simp: ws_upgrade_def ws_connection_def lit_def)

lemma readheader_loop_no_handshake:
  assumes "\<not> ws_upgrade m" "\<not> ws_connection m" "0 \<notin> set buf" "0 \<notin> set s" "ended buf \<or> s = []"
  shows "\<not> (ws_upgrade (fst (readheader_loop go buf s m)) \<and> ws_connection (fst (readheader_loop go buf s m)))"
  using assms
proof (induction go buf s m rule: readheader_loop.induct)
  case (1 go buf s m)
  show ?case
  proof (cases "go \<and> cstr buf \<noteq> [10]")
    case True
    obtain l s' where l: "get_line s 4096 = (l, s')" by force
    show ?thesis
    proof (cases "ended buf")
      case e: True
      show ?thesis
        using 1 True l e header_field_neither [of m buf] get_line_ended [OF l] get_line_zero [OF l]
        by (subst (1 2) readheader_loop.simps) auto
    next
      case False
      then have "s = []" using 1 by simp
      then have "l = []" "s' = []" using l by (auto simp: get_line_def eval_nat_numeral)
      then show ?thesis
        using True l header_field_both [of m buf] 1(2,3)
        by (subst (1 2) readheader_loop.simps) (simp add: readheader_loop.simps [of False])
    qed
  next
    case False
    then have "readheader_loop go buf s m = (m, s)" by (subst readheader_loop.simps) auto
    then show ?thesis using 1(2) by simp
  qed
qed

lemma init_headers:
  assumes "\<not> inited req"
  shows "paseredheader (fst (init n req s)) = fst (readheader_loop (0 < n) [] s (paseredheader req))" "inited (fst (init n req s))"
  using assms by (simp_all add: init_def readheader_def split: prod.splits)

lemma read_request_headers:
  assumes "read_request n req c = Served (req', c')" "\<not> inited req"
  shows "paseredheader req' = paseredheader (fst (init n req (sock c)))" "sent c' = sent c" "closes c' = closes c"
proof -
  obtain r s where r: "init n req (sock c) = (r, s)" by force
  then have i: "inited r" using init_headers(2) [OF assms(2), of n "sock c"] by simp
  obtain q where q: "query_decode r = Some q" "paseredheader q = paseredheader r" "inited q = inited r"
    using assms(1) r by (auto simp: read_request_def query_decode_def split: option.splits)
  then have g: "init n q s = (q, s)" using i by (simp add: init_def)
  show "paseredheader req' = paseredheader (fst (init n req (sock c)))" "sent c' = sent c" "closes c' = closes c"
    using assms(1) r q g by (auto simp: read_request_def getcookie_def cookie_decode_def split: option.splits prod.splits)
qed

section \<open>Properties\<close>

text \<open>C21. No WebSocket is ever opened: unless the client puts a zero byte into its request, the handshake is refused
  and nothing is sent, because the values it compares still end with the line feed of their line.\<close>

theorem websocket_never_opens:
  assumes "0 \<notin> set (sock c)" "\<not> inited req" "paseredheader req = Map.empty" "ws_callback w fd req fds c = Served (c', fds')"
  shows "fds' = fds \<and> sent c' = sent c \<and> closes c < closes c'"
proof -
  let ?c = "if onWebsocketConnect w = None then close_conn c else c"
  have c: "sock ?c = sock c" "sent ?c = sent c" "closes c \<le> closes ?c" by (simp_all add: close_conn_def)
  obtain req1 c1 where r: "read_request (ws_numchars w) req ?c = Served (req1, c1)"
    using assms(4) by (auto simp: ws_callback_def Let_def split: served.splits)
  note h = read_request_headers [OF r assms(2)]
  have "\<not> (ws_upgrade (paseredheader req1) \<and> ws_connection (paseredheader req1))"
    using readheader_loop_no_handshake [of Map.empty "[]" "sock c"] assms(1,3) h(1) init_headers(1) [OF assms(2)] c(1)
    by (simp add: ended_def ws_upgrade_def ws_connection_def)
  then have "(c', fds') = (close_conn c1, fds)"
    using assms(4) r by (auto simp: ws_callback_def Let_def ws_upgrade_def ws_connection_def split: if_splits)
  then show ?thesis using h(2,3) c by (auto simp: close_conn_def)
qed

text \<open>Every request of a browser with a cookie is lost at the handlers: the headers of a request to \<open>/ajax\<close> or
  \<open>/mysource\<close>, read to their end, with a cookie line of pairs, make the handler read behind the end of a string.\<close>

theorem cookie_overruns_handlers:
  assumes "list_all header_ok hs" "0 < numchars" "\<not> inited req" "paseredheader req = Map.empty" "req_query req = None"
    "enter_headers hs Map.empty (lit ''cookie'') = Some (concat (map (pair_text 61 59) ps) @ k @ [61] @ v)"
    "list_all (pair_ok 61 59) ps" "pair_ok 61 59 (k, v)" "length v < 1021"
    "sock c = concat (map header_line hs) @ [13, 10] @ body"
  shows "ajax numchars got script req c = Some Overrun \<and> msrc numchars parhash req c = Some Overrun"
proof -
  let ?v = "concat (map (pair_text 61 59) ps) @ k @ [61] @ v"
  obtain r where r: "init numchars req (sock c) = (r, body)" "paseredheader r = enter_headers hs Map.empty" "inited r" "req_query r = None"
    using readheader_lines [OF assms(1,2), of "req\<lparr>inited := True\<rparr>" body] assms(3,4,5,10) by (simp add: init_def)
  then have "query_decode r = Some r" by (simp add: query_decode_def decode_pairs_def)
  moreover have "getcookie numchars r body = (True, r\<lparr>req_cookie := Some (?v @ [0])\<rparr>, body)"
    using r(2,3) assms(6) by (simp add: getcookie_def init_def)
  moreover have "cookie_decode (r\<lparr>req_cookie := Some (?v @ [0])\<rparr>) = None"
    using kv_paser_pairs [OF _ assms(7), of "k @ [61] @ v @ [0]"] kv_paser_last_pair [of 61 59 k v] assms(8,9)
    by (simp add: cookie_decode_def)
  ultimately have "read_request numchars req c = Overrun" using r(1) by (simp add: read_request_def)
  then show ?thesis by (simp add: ajax_def msrc_def)
qed

definition sample_ws :: ws_env where
  "sample_ws = \<lparr>ws_numchars = 1, onWebsocketConnect = Some (\<lambda>_. True), ws_sha = (\<lambda>_. replicate 20 1), ws_uninit = [0]\<rparr>"

definition sample_handshake :: http_conn where
  "sample_handshake =
    \<lparr>sock = concat (map header_line [(lit ''Upgrade'', lit ''websocket''), (lit ''Connection'', lit ''Upgrade''), (lit ''Sec-WebSocket-Key'', lit ''x'')])
       @ [13, 10], sent = [], closes = 0, thread_number = 1\<rparr>"

theorem websocket_never_opens_witness:
  "\<exists>c'. ws_callback sample_ws 5 (requestBase []) [] sample_handshake = Served (c', []) \<and> sent c' = []"
proof -
  have "case ws_callback sample_ws 5 (requestBase []) [] sample_handshake of Served _ \<Rightarrow> True | Overrun \<Rightarrow> False"
    by code_simp
  then obtain c' fds' where r: "ws_callback sample_ws 5 (requestBase []) [] sample_handshake = Served (c', fds')"
    by (auto split: served.splits)
  moreover have "0 \<notin> set (sock sample_handshake)" by code_simp
  moreover have "sent sample_handshake = []" by (simp add: sample_handshake_def)
  ultimately show ?thesis
    using websocket_never_opens [OF _ _ _ r] by (simp add: requestBase_def)
qed

theorem cookie_overruns_handlers_witness:
  "ajax 1 0 (\<lambda>_. None) (requestBase []) (sample_handshake\<lparr>sock := concat (map header_line [(lit ''Cookie'', lit '' a=1; b=2'')]) @ [13, 10] @ []\<rparr>)
     = Some Overrun \<and>
   msrc 1 [] (requestBase []) (sample_handshake\<lparr>sock := concat (map header_line [(lit ''Cookie'', lit '' a=1; b=2'')]) @ [13, 10] @ []\<rparr>)
     = Some Overrun"
proof (rule cookie_overruns_handlers [where hs = "[(lit ''Cookie'', lit '' a=1; b=2'')]" and ps = "[(lit '' a'', lit ''1'')]" and k = "lit '' b''"
        and v = "lit ''2'' @ [10]" and body = "[]"])
  show "enter_headers [(lit ''Cookie'', lit '' a=1; b=2'')] Map.empty (lit ''cookie'') =
      Some (concat (map (pair_text 61 59) [(lit '' a'', lit ''1'')]) @ lit '' b'' @ [61] @ lit ''2'' @ [10])"
    by code_simp
  show "list_all header_ok [(lit ''Cookie'', lit '' a=1; b=2'')]" by code_simp
  show "list_all (pair_ok 61 59) [(lit '' a'', lit ''1'')]" by code_simp
  show "pair_ok 61 59 (lit '' b'', lit ''2'' @ [10])" by code_simp
qed (simp_all add: requestBase_def lit_def)

end
