(* ===== verification/Template.thy ===== *)
theory Template
  imports Fastcgi
begin

text \<open>
  The template engine of \<^verbatim>\<open>core/httpdtemplate.hpp\<close>: \<open>tpl::render\<close> copies a file and replaces marks
  \<^verbatim>\<open><!--{name}-->\<close>.  A file is its list of bytes; the output is the list of the bytes handed to the callback.
\<close>

section \<open>The engine\<close>

text \<open>The array \<open>bufdata[33]\<close> after \<open>pread\<close>: up to 32 bytes over what it held, and the terminator.\<close>

definition peek :: "bytes \<Rightarrow> bytes \<Rightarrow> bytes" where
  "peek bufdata f = (recv_over 32 f bufdata)[32 := 0]"

text \<open>The name between the braces, when the mark is complete.\<close>

definition mark_name :: "bytes \<Rightarrow> bytes option" where
  "mark_name bufdata = map_option (\<lambda>n. take n (drop 4 bufdata)) (strstr (lit ''}-->'') (cstr (drop 4 bufdata)))"

text \<open>Skipping the mark in the file, up to the first \<^verbatim>\<open>>\<close>.\<close>

definition skip_mark :: "bytes \<Rightarrow> bytes" where
  "skip_mark f = drop 1 (dropWhile (\<lambda>c. c \<noteq> 62) f)"

definition mark_value :: "fields \<Rightarrow> bytes \<Rightarrow> bytes" where
  "mark_value assign name = (if name = [] then [] else (case assign name of None \<Rightarrow> [] | Some v \<Rightarrow> cstr v))"

function render :: "fields \<Rightarrow> bytes \<Rightarrow> bytes \<Rightarrow> bytes" where
  "render assign bufdata f =
    (case f of [] \<Rightarrow> []
     | c # f \<Rightarrow>
       if c = 0 then []
       else if c \<noteq> 60 then c # render assign bufdata f
       else if f = [] then []
       else
         (let bufdata = peek bufdata f
          in if take 4 bufdata \<noteq> lit ''!--{'' then c # render assign bufdata f
             else
               (case mark_name bufdata of
                 None \<Rightarrow> c # render assign bufdata f
               | Some name \<Rightarrow> mark_value assign name @ render assign bufdata (skip_mark f))))"
  by pat_completeness auto
termination
  by (relation "measure (\<lambda>(assign, bufdata, f). length f)")
    (auto simp: skip_mark_def less_Suc_eq_le intro: le_trans [OF diff_le_self length_dropWhile_le])

declare render.simps [simp del]

text \<open>\<open>lua_template\<close>: names of more than 30 bytes end the call; \<open>None\<close> is the return without a render.\<close>

fun lua_assign :: "(bytes \<times> bytes) list \<Rightarrow> fields \<Rightarrow> fields option" where
  "lua_assign [] m = Some m"
| "lua_assign ((k, v) # ps) m = (if 30 < length (cstr k) then None else lua_assign ps (m(cstr k \<mapsto> cstr v)))"

definition lua_template :: "(bytes \<times> bytes) list \<Rightarrow> bytes \<Rightarrow> bytes \<Rightarrow> bytes option" where
  "lua_template ps bufdata f = map_option (\<lambda>m. render m bufdata f) (lua_assign ps Map.empty)"

section \<open>Templates\<close>

datatype segment = Text bytes | Mark bytes

fun segment_source :: "segment \<Rightarrow> bytes" where
  "segment_source (Text t) = t"
| "segment_source (Mark n) = lit ''<!--{'' @ n @ lit ''}-->''"

fun segment_output :: "fields \<Rightarrow> segment \<Rightarrow> bytes" where
  "segment_output m (Text t) = t"
| "segment_output m (Mark n) = mark_value m n"

fun segment_ok :: "segment \<Rightarrow> bool" where
  "segment_ok (Text t) \<longleftrightarrow> set t \<inter> {0, 60} = {}"
| "segment_ok (Mark n) \<longleftrightarrow> set n \<inter> {0, 62, 125} = {} \<and> length n \<le> 24"

lemma render_text: "set t \<inter> {0, 60} = {} \<Longrightarrow> render m b (t @ f) = t @ render m b f"
proof (induction t)
  case (Cons c t)
  then show ?case by (simp add: render.simps [of m b "c # t @ f"])
qed simp

lemma strstr_first: "125 \<notin> set n \<Longrightarrow> strstr (125 # p) (n @ (125 # p) @ s) = Some (length n)"
proof (induction n)
  case Nil
  then show ?case by simp
next
  case (Cons c n)
  then show ?case by simp
qed

lemma render_mark:
  assumes "set n \<inter> {0, 62, 125} = {}" "length n \<le> 24" "length b = 33"
  shows "\<exists>b'. length b' = 33 \<and> render m b (lit ''<!--{'' @ n @ lit ''}-->'' @ f) = mark_value m n @ render m b' f"
proof -
  let ?s = "lit ''!--{'' @ n @ lit ''}-->'' @ f"
  let ?b = "peek b ?s"
  have l: "length ?b = 33" using assms(3) by (simp add: peek_def recv_over_def)
  have "8 + length n \<le> 32" using assms(2) by simp
  then obtain r where r: "?b = lit ''!--{'' @ n @ lit ''}-->'' @ r" "0 \<in> set r"
  proof -
    let ?h = "lit ''!--{'' @ n @ lit ''}-->''"
    have h: "length ?h = 8 + length n" by (simp add: lit_def)
    have "take (8 + length n) ?b = take (8 + length n) ?s"
      using assms(2) h by (simp add: peek_def recv_over_def)
    then have "take (8 + length n) ?b = ?h" using h by simp
    then have "?b = ?h @ drop (8 + length n) ?b" by (metis append_take_drop_id)
    moreover have "?b ! 32 = 0" "32 < length ?b" using assms(3) by (simp_all add: peek_def recv_over_def)
    then have "0 \<in> set (drop (8 + length n) ?b)"
      using assms(2) by (auto simp: in_set_conv_nth intro!: exI [of _ "24 - length n"])
    ultimately show ?thesis using that by simp
  qed
  have "cstr (drop 4 ?b) = n @ lit ''}-->'' @ cstr r"
    using r assms(1) by (simp add: lit_def cstr_def) (subst takeWhile_append2, auto)
  moreover have "lit ''}-->'' = 125 # tl (lit ''}-->'')" by (simp add: lit_def)
  ultimately have "strstr (lit ''}-->'') (cstr (drop 4 ?b)) = Some (length n)"
    using strstr_first [of n "tl (lit ''}-->'')" "cstr r"] assms(1) by simp
  then have "mark_name ?b = Some n" using r by (simp add: mark_name_def lit_def)
  moreover have "take 4 ?b = lit ''!--{''" using r by (simp add: lit_def)
  moreover have "skip_mark ?s = f"
    using assms(1) by (simp add: skip_mark_def lit_def) (subst dropWhile_append2, auto)
  moreover have "lit ''<!--{'' = 60 # lit ''!--{''" by (simp add: lit_def)
  ultimately have "render m b (lit ''<!--{'' @ n @ lit ''}-->'' @ f) = mark_value m n @ render m ?b f"
    by (simp add: render.simps [of m b "60 # _"] Let_def lit_def)
  then show ?thesis using l by blast
qed

section \<open>Properties\<close>

text \<open>C18. A template is rendered as meant: text without angle brackets is copied and every mark, with a name of at most
  24 bytes, is replaced by the value assigned to it, whatever the array held before.\<close>

theorem template_rendered:
  assumes "list_all segment_ok ss" "length bufdata = 33"
  shows "render m bufdata (concat (map segment_source ss)) = concat (map (segment_output m) ss)"
  using assms
proof (induction ss arbitrary: bufdata)
  case Nil
  then show ?case by (simp add: render.simps)
next
  case (Cons s ss)
  then show ?case
  proof (cases s)
    case (Text t)
    then show ?thesis using Cons by (simp add: render_text)
  next
    case (Mark n)
    then show ?thesis using Cons render_mark [of n bufdata m "concat (map segment_source ss)"] by auto
  qed
qed

theorem template_rendered_witness:
  "render [lit ''name'' \<mapsto> lit ''Ann''] (replicate 33 7) (concat (map segment_source [Text (lit ''Hello ''), Mark (lit ''name''), Text (lit ''!'')])) =
     lit ''Hello Ann!''"
  using template_rendered [of "[Text (lit ''Hello ''), Mark (lit ''name''), Text (lit ''!'')]" "replicate 33 7" "[lit ''name'' \<mapsto> lit ''Ann'']"]
  by (simp add: lit_def mark_value_def cstr_def)

end
