(* ===== verification/Sta.thy ===== *)
theory Sta
  imports Complex_Main YsDB
begin

text \<open>
  The statistics offered to scripts, \<^verbatim>\<open>core/sta.hpp\<close>.  Floating-point numbers are taken as reals, without rounding.  A
  Lua value that is not what the code asks for is \<open>None\<close>; a function that returns without a result is \<open>None\<close>.
\<close>

section \<open>Regression\<close>

record reg_sums =
  xa :: real
  ya :: real
  xa2 :: real
  ya2 :: real
  xya :: real

type_synonym lua_point = "(real option \<times> real option) option"

fun regression_loop :: "lua_point list \<Rightarrow> reg_sums \<Rightarrow> reg_sums option" where
  "regression_loop [] s = Some s"
| "regression_loop (Some (Some x, Some y) # ps) s =
    regression_loop ps \<lparr>xa = xa s + x, ya = ya s + y, xa2 = xa2 s + x * x, ya2 = ya2 s + y * y, xya = xya s + x * y\<rparr>"
| "regression_loop (_ # ps) s = None"

record regression =
  r_xa :: real
  r_ya :: real
  r_X :: real
  r_Y :: real
  r_a :: real
  r_b :: real
  r_r :: real

definition sta_regression :: "lua_point list option \<Rightarrow> regression option" where
  "sta_regression L =
    (case L of None \<Rightarrow> None
     | Some ps \<Rightarrow>
       (case regression_loop ps \<lparr>xa = 0, ya = 0, xa2 = 0, ya2 = 0, xya = 0\<rparr> of None \<Rightarrow> None
        | Some s \<Rightarrow>
          (let n = real (length ps); X = xa s / n; Y = ya s / n;
               b = (xya s - n * X * Y) / (xa2 s - n * X * X);
               a = Y - b * X;
               r = (xya s - n * X * Y) / sqrt ((xa2 s - n * X * X) * (ya2 s - n * Y * Y))
           in Some \<lparr>r_xa = xa s, r_ya = ya s, r_X = X, r_Y = Y, r_a = a, r_b = b, r_r = r\<rparr>)))"

section \<open>Independence\<close>

definition independence_k :: "real \<Rightarrow> real \<Rightarrow> real \<Rightarrow> real \<Rightarrow> real" where
  "independence_k a b c d =
    ((a + b + c + d) * (a * d - b * c) * (a * d - b * c)) / ((a + b) * (c + d) * (a + c) * (b + d))"

definition independence_Pe :: "real \<Rightarrow> real" where
  "independence_Pe k =
    (if k < 0.455 then 0.5
     else if k < 0.708 then 0.4
     else if k < 1.323 then 0.25
     else if k < 2.072 then 0.15
     else if k < 2.706 then 0.10
     else if k < 3.841 then 0.05
     else if k < 5.024 then 0.025
     else if k < 6.635 then 0.01
     else if k < 7.879 then 0.005
     else 0.001)"

definition sta_independence :: "real option \<Rightarrow> real option \<Rightarrow> real option \<Rightarrow> real option \<Rightarrow> (real \<times> real) option" where
  "sta_independence a b c d =
    (case (a, b, c, d) of
      (Some a, Some b, Some c, Some d) \<Rightarrow> (let k = independence_k a b c d in Some (k, independence_Pe k))
    | _ \<Rightarrow> None)"

section \<open>Counting\<close>

text \<open>The stack of the Lua call, top first: the table, a value of it, or the function that is called, which lies below the stack.
  \<open>lua_pop(L, -1)\<close> is \<open>lua_settop(L, 0)\<close> and empties the stack, so the next access by index \<open>-2\<close> finds the
  function and raises an error.\<close>

datatype lua_val = Lua_table "bytes option list" | Lua_value "bytes option"

datatype 'a lua_res = Lua_return 'a | Lua_nothing | Lua_error

fun sta_num_loop :: "nat \<Rightarrow> nat \<Rightarrow> lua_val list \<Rightarrow> (bytes \<Rightarrow> nat) \<Rightarrow> (bytes \<Rightarrow> nat) lua_res" where
  "sta_num_loop 0 i stack data = Lua_return data"
| "sta_num_loop (Suc n) i stack data =
    (case stack of
      Lua_table t # _ \<Rightarrow>
        (case (if i < length t then t ! i else None) of
          None \<Rightarrow> Lua_nothing
        | Some s \<Rightarrow> sta_num_loop n (i + 1) [] (data(cstr s := data (cstr s) + 1)))
    | _ \<Rightarrow> Lua_error)"

definition sta_num :: "bytes option list option \<Rightarrow> (bytes \<Rightarrow> nat) lua_res" where
  "sta_num L = (case L of None \<Rightarrow> Lua_nothing | Some t \<Rightarrow> sta_num_loop (length t) 0 [Lua_table t] (\<lambda>_. 0))"

lemma sta_num_single: "sta_num (Some [Some s]) = Lua_return ((\<lambda>_. 0)(cstr s := 1))"
  by (simp add: sta_num_def)

lemma sta_num_fails: "t \<noteq> [] \<Longrightarrow> sta_num (Some (Some s # t)) = Lua_error"
  by (cases t) (auto simp: sta_num_def)

section \<open>Sums\<close>

definition lua_points :: "(real \<times> real) list \<Rightarrow> lua_point list" where
  "lua_points ps = map (\<lambda>(x, y). Some (Some x, Some y)) ps"

definition point_sum :: "(real \<times> real \<Rightarrow> real) \<Rightarrow> (real \<times> real) list \<Rightarrow> real" where
  "point_sum f ps = (\<Sum>p\<leftarrow>ps. f p)"

lemma point_sum_simps [simp]: "point_sum f [] = 0" "point_sum f (p # ps) = f p + point_sum f ps"
  by (simp_all add: point_sum_def)

lemma regression_loop_points:
  "regression_loop (lua_points ps) s =
    Some \<lparr>xa = xa s + point_sum fst ps, ya = ya s + point_sum snd ps, xa2 = xa2 s + point_sum (\<lambda>p. fst p * fst p) ps,
          ya2 = ya2 s + point_sum (\<lambda>p. snd p * snd p) ps, xya = xya s + point_sum (\<lambda>p. fst p * snd p) ps\<rparr>"
  by (induction ps arbitrary: s) (auto simp: lua_points_def)

definition residual :: "real \<Rightarrow> real \<Rightarrow> real \<times> real \<Rightarrow> real" where
  "residual a b p = snd p - (a + b * fst p)"

definition squares :: "real \<Rightarrow> real \<Rightarrow> (real \<times> real) list \<Rightarrow> real" where
  "squares a b ps = point_sum (\<lambda>p. (residual a b p)\<^sup>2) ps"

lemma point_sum_nonneg: "(\<And>p. 0 \<le> f p) \<Longrightarrow> 0 \<le> point_sum f ps"
  by (induction ps) auto

lemma point_sum_pos: "(\<And>p. 0 \<le> f p) \<Longrightarrow> q \<in> set ps \<Longrightarrow> 0 < f q \<Longrightarrow> 0 < point_sum f ps"
  using point_sum_nonneg [of f] by (induction ps) (auto intro: add_pos_nonneg add_nonneg_pos)

lemma point_sum_residual: "point_sum (residual a b) ps = point_sum snd ps - real (length ps) * a - b * point_sum fst ps"
  by (induction ps) (auto simp: residual_def algebra_simps)

lemma point_sum_residual_x:
  "point_sum (\<lambda>p. residual a b p * fst p) ps = point_sum (\<lambda>p. fst p * snd p) ps - a * point_sum fst ps - b * point_sum (\<lambda>p. fst p * fst p) ps"
  by (induction ps) (auto simp: residual_def algebra_simps)

lemma normal_equation:
  "sx = n * X \<Longrightarrow> sxy - (Y - b * X) * sx - b * sxx = (sxy - n * X * Y) - b * (sxx - n * X * X)" for sx :: real
  by (simp add: algebra_simps)

lemma squares_shift:
  "squares a' b' ps = squares a b ps + 2 * (a - a') * point_sum (residual a b) ps + 2 * (b - b') * point_sum (\<lambda>p. residual a b p * fst p) ps
     + point_sum (\<lambda>p. ((a - a') + (b - b') * fst p)\<^sup>2) ps"
  by (induction ps) (auto simp: squares_def residual_def algebra_simps power2_eq_square)

lemma squares_minimal:
  assumes "point_sum (residual a b) ps = 0" "point_sum (\<lambda>p. residual a b p * fst p) ps = 0"
  shows "squares a b ps \<le> squares a' b' ps"
  using squares_shift [of a' b' ps a b] assms point_sum_nonneg [of "\<lambda>p. ((a - a') + (b - b') * fst p)\<^sup>2" ps] by simp

lemma point_sum_deviation:
  assumes "ps \<noteq> []"
  shows "point_sum (\<lambda>p. fst p * fst p) ps - real (length ps) * (point_sum fst ps / length ps) * (point_sum fst ps / length ps) =
    point_sum (\<lambda>p. (fst p - point_sum fst ps / length ps)\<^sup>2) ps"
proof -
  let ?m = "point_sum fst ps / length ps"
  have "point_sum (\<lambda>p. (fst p - m)\<^sup>2) ps = point_sum (\<lambda>p. fst p * fst p) ps - 2 * m * point_sum fst ps + real (length ps) * m * m" for m
    by (induction ps) (auto simp: algebra_simps power2_eq_square)
  then have "point_sum (\<lambda>p. (fst p - ?m)\<^sup>2) ps = point_sum (\<lambda>p. fst p * fst p) ps - 2 * ?m * point_sum fst ps + real (length ps) * ?m * ?m" .
  moreover have "point_sum fst ps = real (length ps) * ?m" using assms by simp
  ultimately show ?thesis by (simp add: algebra_simps)
qed

lemma deviation_pos:
  assumes "p \<in> set ps" "q \<in> set ps" "fst p \<noteq> fst q"
  shows "0 < point_sum (\<lambda>p. (fst p - m)\<^sup>2) ps"
proof (cases "fst p = m")
  case True
  then show ?thesis using assms by (intro point_sum_pos [of _ q]) auto
next
  case False
  then show ?thesis using assms by (intro point_sum_pos [of _ p]) auto
qed

section \<open>Properties\<close>

text \<open>The regression line is the line of least squares: for points that do not all have the same first coordinate, no
  other line has a smaller sum of squared deviations.\<close>

theorem regression_least_squares:
  assumes "p \<in> set ps" "q \<in> set ps" "fst p \<noteq> fst q"
  shows "\<exists>g. sta_regression (Some (lua_points ps)) = Some g \<and> (\<forall>a b. squares (r_a g) (r_b g) ps \<le> squares a b ps)"
proof -
  let ?n = "real (length ps)" and ?X = "point_sum fst ps / length ps" and ?Y = "point_sum snd ps / length ps"
  let ?dx = "point_sum (\<lambda>p. fst p * fst p) ps - ?n * ?X * ?X" and ?dxy = "point_sum (\<lambda>p. fst p * snd p) ps - ?n * ?X * ?Y"
  let ?b = "?dxy / ?dx" and ?a = "?Y - ?dxy / ?dx * ?X"
  have ne: "ps \<noteq> []" "?n \<noteq> 0" using assms(1) by auto
  have dx: "?dx \<noteq> 0" using deviation_pos [OF assms, of ?X] unfolding point_sum_deviation [OF ne(1)] by (rule less_imp_neq [symmetric])
  have sx: "point_sum fst ps = ?n * ?X" and sy: "point_sum snd ps = ?n * ?Y" using ne(2) by simp_all
  have "point_sum (residual ?a ?b) ps = ?n * (?Y - ?a - ?b * ?X)"
    using ne(2) by (simp add: point_sum_residual right_diff_distrib)
  then have r0: "point_sum (residual ?a ?b) ps = 0" by simp
  have "point_sum (\<lambda>p. residual ?a ?b p * fst p) ps = ?dxy - ?b * ?dx"
    unfolding point_sum_residual_x by (rule normal_equation [OF sx])
  then have r1: "point_sum (\<lambda>p. residual ?a ?b p * fst p) ps = 0" using dx by simp
  have l: "length (lua_points ps) = length ps" by (simp add: lua_points_def)
  obtain g where "sta_regression (Some (lua_points ps)) = Some g" "r_a g = ?a" "r_b g = ?b"
    by (simp add: sta_regression_def regression_loop_points l Let_def)
  then show ?thesis using squares_minimal [OF r0 r1] by auto
qed

theorem regression_least_squares_witness:
  "\<exists>g. sta_regression (Some (lua_points [(0, 1), (1, 3)])) = Some g \<and>
     (\<forall>a b. squares (r_a g) (r_b g) [(0, 1), (1, 3)] \<le> squares a b [(0, 1), (1, 3)])"
  by (rule regression_least_squares [of "(0, 1)" _ "(1, 3)"]) simp_all

end
