(* ===== verification/Scriptqueue.thy ===== *)
theory Scriptqueue
  imports YsDB
begin

text \<open>
  The queue of scripts of \<^verbatim>\<open>core/scriptqueue.hpp\<close>.  Any number of threads insert, one thread runs \<open>autodoscr\<close>; the
  steps are the sections between which the threads interleave.  \<open>doscript\<close> looks at the queue without the lock and
  takes the front later, in a section of its own.
\<close>

text \<open>Where the thread of \<open>autodoscr\<close> is: at the head of its loop, behind the check, running a script, or done.\<close>

datatype queue_thread = At_loop | Checked | Running bytes | Stopped

record script_queue =
  sq_q :: "bytes list"
  isrunning :: bool
  worker :: queue_thread
  done_scripts :: "bytes list"
  inserted :: "bytes list"

definition start_queue :: script_queue where
  "start_queue = \<lparr>sq_q = [], isrunning = True, worker = At_loop, done_scripts = [], inserted = []\<rparr>"

definition sq_insert :: "bytes \<Rightarrow> script_queue \<Rightarrow> script_queue" where
  "sq_insert script s = s\<lparr>sq_q := sq_q s @ [script], inserted := inserted s @ [script]\<rparr>"

text \<open>\<open>insert(const char *)\<close> makes a string of it.\<close>

definition sq_insert_cstr :: "bytes \<Rightarrow> script_queue \<Rightarrow> script_queue" where
  "sq_insert_cstr script s = sq_insert (cstr script) s"

text \<open>The loop of \<open>autodoscr\<close> with the test of \<open>doscript\<close>: an empty queue makes it sleep and come back.\<close>

definition sq_check :: "script_queue \<Rightarrow> script_queue" where
  "sq_check s = (if \<not> isrunning s then s\<lparr>worker := Stopped\<rparr> else if sq_q s = [] then s else s\<lparr>worker := Checked\<rparr>)"

text \<open>The locked section: \<open>front\<close> and \<open>pop\<close> of an empty queue are undefined (\<open>None\<close>).\<close>

definition sq_take :: "script_queue \<Rightarrow> script_queue option" where
  "sq_take s = (case sq_q s of [] \<Rightarrow> None | str # rest \<Rightarrow> Some (s\<lparr>sq_q := rest, worker := Running str\<rparr>))"

definition sq_stop :: "script_queue \<Rightarrow> script_queue" where
  "sq_stop s = s\<lparr>isrunning := False\<rparr>"

inductive sq_step :: "script_queue \<Rightarrow> script_queue \<Rightarrow> bool" where
  insert: "sq_step s (sq_insert script s)"
| insert_cstr: "sq_step s (sq_insert_cstr script s)"
| check: "worker s = At_loop \<Longrightarrow> sq_step s (sq_check s)"
| take: "worker s = Checked \<Longrightarrow> sq_take s = Some s' \<Longrightarrow> sq_step s s'"
| finish: "worker s = Running str \<Longrightarrow> sq_step s (s\<lparr>worker := At_loop, done_scripts := done_scripts s @ [str]\<rparr>)"
| stop: "sq_step s (sq_stop s)"

inductive sq_reach :: "script_queue \<Rightarrow> bool" where
  start: "sq_reach start_queue"
| step: "sq_reach s \<Longrightarrow> sq_step s s' \<Longrightarrow> sq_reach s'"

fun in_hand :: "queue_thread \<Rightarrow> bytes list" where
  "in_hand (Running str) = [str]"
| "in_hand _ = []"

definition sq_inv :: "script_queue \<Rightarrow> bool" where
  "sq_inv s \<longleftrightarrow> inserted s = done_scripts s @ in_hand (worker s) @ sq_q s \<and> (worker s = Checked \<longrightarrow> sq_q s \<noteq> [])"

inductive_cases sq_stepE: "sq_step s s'"

lemma sq_step_inv: "sq_step s s' \<Longrightarrow> sq_inv s \<Longrightarrow> sq_inv s'"
  by (erule sq_stepE)
    (auto simp: sq_inv_def sq_insert_def sq_insert_cstr_def sq_check_def sq_take_def sq_stop_def split: list.splits)

lemma sq_reach_inv: "sq_reach s \<Longrightarrow> sq_inv s"
proof (induction rule: sq_reach.induct)
  case start
  then show ?case by (simp add: sq_inv_def start_queue_def)
qed (rule sq_step_inv)

text \<open>In every interleaving scripts are run in the order of their insertion, none twice and none left out, and the
  queue is never popped when it is empty.\<close>

theorem scripts_in_order:
  assumes "sq_reach s"
  shows "inserted s = done_scripts s @ in_hand (worker s) @ sq_q s \<and> (worker s = Checked \<longrightarrow> sq_take s \<noteq> None)"
  using sq_reach_inv [OF assms] by (auto simp: sq_inv_def sq_take_def split: list.splits)

end
