(* ===== verification/Picture.thy ===== *)
theory Picture
  imports Crypt Complex_Main
begin

text \<open>
  The sending side of the live picture, namespace \<open>videolive\<close> of \<^verbatim>\<open>core/live.hpp\<close>: pictures of the frame buffer, the
  packets \<open>netPack\<close> they travel in, and the sound.

  A \<open>netPack\<close> is the array of bytes that holds it: \<open>m\<close> is byte 0, the five integers are at 4, 8, 12, 16 and 20, and
  the data start at 24.  The array \<open>buffer[600][500]\<close> is a function of the two indices.  What becomes of a packet
  is a function \<open>send\<close> of the packet and the state of the sender, because \<open>Client::live\<close> changes the packet
  it is given.  Floating point rounding is a function \<open>fl\<close> on real numbers.
\<close>

unbundle bit_operations_syntax

section \<open>Pixels and packets\<close>

datatype pixel = Pixel (pR: u8) (pG: u8) (pB: u8)

type_synonym picture = "nat \<Rightarrow> nat \<Rightarrow> pixel"

definition pixel_bytes :: "pixel \<Rightarrow> bytes" where
  "pixel_bytes p = [pR p, pG p, pB p]"

text \<open>The fields of a \<open>netPack\<close>.\<close>

definition np_x :: "bytes \<Rightarrow> u32" where "np_x b = nint32_val (field 4 4 b)"
definition np_y :: "bytes \<Rightarrow> u32" where "np_y b = nint32_val (field 8 4 b)"
definition np_w :: "bytes \<Rightarrow> u32" where "np_w b = nint32_val (field 12 4 b)"
definition np_h :: "bytes \<Rightarrow> u32" where "np_h b = nint32_val (field 16 4 b)"
definition np_t :: "bytes \<Rightarrow> u32" where "np_t b = nint32_val (field 20 4 b)"

definition set_area :: "u32 \<Rightarrow> u32 \<Rightarrow> u32 \<Rightarrow> u32 \<Rightarrow> bytes \<Rightarrow> bytes" where
  "set_area x y w h b =
    set_field 16 (nint32_set h) (set_field 12 (nint32_set w) (set_field 8 (nint32_set y) (set_field 4 (nint32_set x) b)))"

text \<open>\<open>pxl->R=...; pxl->G=...; pxl->B=...; pxl++\<close> for a row of pixels, from pixel number \<open>k\<close> on.\<close>

primrec put_pixels :: "pixel list \<Rightarrow> nat \<Rightarrow> bytes \<Rightarrow> bytes" where
  "put_pixels [] k b = b"
| "put_pixels (p # ps) k b =
    put_pixels ps (Suc k) (b[24 + 3 * k := pR p, 25 + 3 * k := pG p, 26 + 3 * k := pB p])"

definition data_pixel :: "bytes \<Rightarrow> nat \<Rightarrow> pixel" where
  "data_pixel b k = Pixel (b ! (24 + 3 * k)) (b ! (25 + 3 * k)) (b ! (26 + 3 * k))"

section \<open>The whole picture\<close>

text \<open>One turn of the loop of \<open>boardcast::sendall\<close>: two lines of the picture.  \<open>t\<close> and what follows the data keep
  what was there.\<close>

definition row_packet :: "picture \<Rightarrow> nat \<Rightarrow> bytes \<Rightarrow> bytes" where
  "row_packet pic iy b =
    (let b = set_area 0 (word_of_nat (iy * 2)) 600 2 b;
         b = put_pixels (map (\<lambda>ix. pic ix (iy * 2)) [0..<600]) 0 b;
         b = put_pixels (map (\<lambda>ix. pic ix (iy * 2 + 1)) [0..<600]) 600 b
     in b[0 := 119])"

primrec sendall_loop :: "(bytes \<Rightarrow> 's \<Rightarrow> bytes \<times> 's) \<Rightarrow> picture \<Rightarrow> nat list \<Rightarrow> bytes \<Rightarrow> 's \<Rightarrow> bytes \<times> 's" where
  "sendall_loop send pic [] nbuf s = (nbuf, s)"
| "sendall_loop send pic (iy # iys) nbuf s =
    (let nbuf = set_field 76 (row_packet pic iy (field 76 SOURCE_CHUNK_SIZE nbuf)) nbuf; (nbuf, s) = send nbuf s
     in sendall_loop send pic iys nbuf s)"

definition sendall :: "(bytes \<Rightarrow> 's \<Rightarrow> bytes \<times> 's) \<Rightarrow> picture \<Rightarrow> bytes \<Rightarrow> 's \<Rightarrow> 's" where
  "sendall send pic junk s =
    snd (sendall_loop send pic [0..<250] (set_field 56 (nint32_set (word_of_nat SOURCE_CHUNK_SIZE)) junk) s)"

section \<open>The frame buffer\<close>

text \<open>\<open>fb_var_info.xres\<close>, \<open>yres\<close>, \<open>bits_per_pixel\<close> and the pixels read from the device.\<close>

record shot =
  xres :: u32
  yres :: u32
  bits_per_pixel :: u32
  data :: "u16 list"

definition torgb :: "u16 \<Rightarrow> u32 \<times> u32 \<times> u32" where
  "torgb p = (ucast (drop_bit 11 p AND 0x1f), ucast (drop_bit 5 p AND 0x3f), ucast (p AND 0x1f))"

definition buffer_size :: "shot \<Rightarrow> u32" where
  "buffer_size s = xres s * yres s * bits_per_pixel s div 8"

text \<open>\<open>readbuffer\<close>: the device gives \<open>dev\<close>, the rest of the buffer keeps its values.\<close>

definition readbuffer :: "u16 list \<Rightarrow> shot \<Rightarrow> shot" where
  "readbuffer dev s =
    (let n = min (length dev) (unat (buffer_size s) div 2) in s\<lparr>data := take n dev @ drop n (data s)\<rparr>)"

text \<open>\<open>getpix\<close> gives the index of the pixel, or a null pointer.  \<open>x>fb_var_info.xres\<close> compares unsigned.\<close>

definition getpix :: "shot \<Rightarrow> u32 \<Rightarrow> u32 \<Rightarrow> u32 option" where
  "getpix s x y =
    (if sint x < 0 \<or> sint y < 0 \<or> xres s < x \<or> yres s < y then None else Some (x + y * xres s))"

text \<open>\<open>RGB565_to_RGB24\<close> into an array of its own: \<open>None\<close> when it reads or writes outside.\<close>

definition rgb24 :: "u16 \<Rightarrow> bytes" where
  "rgb24 p =
    (let r = ucast (drop_bit 11 p) AND 0x1f; g = ucast (drop_bit 5 p) AND 0x3f; b = ucast p AND 0x1f
     in [push_bit 3 r OR drop_bit 2 r, push_bit 2 g OR drop_bit 4 g, push_bit 3 b OR drop_bit 2 b])"

primrec to_rgb24_loop :: "u16 list \<Rightarrow> nat list \<Rightarrow> bytes \<Rightarrow> bytes option" where
  "to_rgb24_loop src [] out = Some out"
| "to_rgb24_loop src (i # is) out =
    (if i < length src \<and> 3 * i + 2 < length out
     then to_rgb24_loop src is (set_field (3 * i) (rgb24 (src ! i)) out)
     else None)"

definition RGB565_to_RGB24 :: "u16 list \<Rightarrow> bytes \<Rightarrow> u32 \<Rightarrow> u32 \<Rightarrow> bytes option" where
  "RGB565_to_RGB24 src out width height = to_rgb24_loop src [0..<nat (sint (width * height))] out"

text \<open>\<open>save\<close>: what is given to the compressor, with the size of the picture; \<open>junk\<close> is the fresh memory.\<close>

definition save :: "u16 list \<Rightarrow> (nat \<Rightarrow> bytes) \<Rightarrow> shot \<Rightarrow> (bytes \<times> u32 \<times> u32) option \<times> shot" where
  "save dev junk s =
    (let rgb = junk (unat (xres s * yres s * 3)); s = readbuffer dev s
     in (map_option (\<lambda>rgb. (rgb, xres s, yres s)) (RGB565_to_RGB24 (data s) rgb (xres s) (yres s)), s))"

section \<open>Broadcasting the screen\<close>

text \<open>An entry of \<open>updatelog\<close>; \<open>ct\<close> is not initialised.\<close>

record updatelog =
  times :: u32
  ct :: u32

definition needsend :: "real \<Rightarrow> updatelog \<Rightarrow> bool" where
  "needsend livepresent u \<longleftrightarrow> real (unat (ct u)) / 300 > livepresent"

record boardcast_t =
  shotbuf :: shot
  resizex :: real
  resizey :: real
  buffer :: picture
  ulog :: "updatelog list"
  btimes :: u32

text \<open>The constructor: \<open>cts\<close> are the indeterminate counters and \<open>pic\<close> the indeterminate picture.\<close>

definition boardcast_init :: "(real \<Rightarrow> real) \<Rightarrow> u32 list \<Rightarrow> picture \<Rightarrow> shot \<Rightarrow> boardcast_t" where
  "boardcast_init fl cts pic s =
    \<lparr>shotbuf = s, resizex = fl (fl (real (unat (xres s))) / 600), resizey = fl (fl (real (unat (yres s))) / 500), buffer = pic,
     ulog = map (\<lambda>c. \<lparr>times = 0, ct = c\<rparr>) cts, btimes = 0\<rparr>"

definition set_pixel :: "pixel \<Rightarrow> nat \<Rightarrow> nat \<Rightarrow> picture \<Rightarrow> picture" where
  "set_pixel p x y pic = pic(x := (pic x)(y := p))"

text \<open>\<open>setpixel\<close>.  \<open>updatelog[x][y]\<close> is entry \<open>25 * x + y\<close> of 1000; an access behind the array is \<open>None\<close>.\<close>

definition setpixel :: "pixel \<Rightarrow> nat \<Rightarrow> nat \<Rightarrow> boardcast_t \<Rightarrow> boardcast_t option" where
  "setpixel px x y b =
    (if 600 \<le> x \<or> 500 \<le> y then Some b
     else if buffer b x y = px then Some b
     else
       (let i = 25 * x + y
        in if length (ulog b) \<le> i then None
           else
             (let u = ulog b ! i; u = (if times u \<noteq> btimes b then \<lparr>times = btimes b, ct = 0\<rparr> else u)
              in Some (b\<lparr>ulog := (ulog b)[i := u\<lparr>ct := ct u + 1\<rparr>], buffer := set_pixel px x y (buffer b)\<rparr>))))"

text \<open>The pixel of the screen for a pixel of the picture: a product of \<open>float\<close>s, cut to an integer.\<close>

definition screen_pix :: "(real \<Rightarrow> real) \<Rightarrow> boardcast_t \<Rightarrow> nat \<Rightarrow> nat \<Rightarrow> u32 option" where
  "screen_pix fl b ix iy =
    getpix (shotbuf b) (word_of_int \<lfloor>fl (real ix * resizex b)\<rfloor>) (word_of_int \<lfloor>fl (real iy * resizey b)\<rfloor>)"

text \<open>The loops over all pixels.  \<open>if(pix==NULL) pix->torgb(...)\<close> goes through a null pointer, which is \<open>None\<close>;
  any other pixel is skipped.\<close>

definition all_cells :: "(nat \<times> nat) list" where
  "all_cells = List.product [0..<600] [0..<500]"

primrec copy_screen :: "(real \<Rightarrow> real) \<Rightarrow> (nat \<times> nat) list \<Rightarrow> boardcast_t \<Rightarrow> boardcast_t option" where
  "copy_screen fl [] b = Some b"
| "copy_screen fl (c # cs) b =
    (case screen_pix fl b (fst c) (snd c) of None \<Rightarrow> None | Some _ \<Rightarrow> copy_screen fl cs b)"

definition sendshot ::
    "(real \<Rightarrow> real) \<Rightarrow> u16 list \<Rightarrow> (bytes \<Rightarrow> 's \<Rightarrow> bytes \<times> 's) \<Rightarrow> bytes \<Rightarrow> boardcast_t \<Rightarrow> 's \<Rightarrow> (boardcast_t \<times> 's) option" where
  "sendshot fl dev send junk b s =
    (case copy_screen fl all_cells (b\<lparr>shotbuf := readbuffer dev (shotbuf b)\<rparr>) of
      None \<Rightarrow> None
    | Some b \<Rightarrow> Some (b, sendall send (buffer b) junk s))"

text \<open>The second half of \<open>liveshot\<close>: a packet for each area that has changed enough.  The pixels are those of the
  first area, whatever the area.\<close>

definition chunk_packet :: "boardcast_t \<Rightarrow> nat \<times> nat \<Rightarrow> bytes \<Rightarrow> bytes" where
  "chunk_packet b c p =
    (let p = p[0 := 105];
         p = set_field 8 (nint32_set (word_of_nat (snd c))) (set_field 4 (nint32_set (word_of_nat (fst c))) p);
         p = set_field 20 (nint32_set (btimes b)) p
     in put_pixels (map (\<lambda>(jy, jx). buffer b jx jy) (List.product [0..<20] [0..<15])) 0 p)"

primrec chunk_loop ::
    "real \<Rightarrow> (bytes \<Rightarrow> 's \<Rightarrow> bytes \<times> 's) \<Rightarrow> boardcast_t \<Rightarrow> (nat \<times> nat) list \<Rightarrow> bytes \<Rightarrow> 's \<Rightarrow> 's" where
  "chunk_loop lp send b [] nbuf s = s"
| "chunk_loop lp send b (c # cs) nbuf s =
    (let u = ulog b ! (25 * fst c + snd c)
     in if times u = btimes b \<and> needsend lp u
        then (case send (set_field 76 (chunk_packet b c (field 76 SOURCE_CHUNK_SIZE nbuf)) nbuf) s of
               (nbuf, s) \<Rightarrow> chunk_loop lp send b cs nbuf s)
        else chunk_loop lp send b cs nbuf s)"

definition liveshot ::
    "(real \<Rightarrow> real) \<Rightarrow> real \<Rightarrow> (bytes \<Rightarrow> 's \<Rightarrow> bytes \<times> 's) \<Rightarrow> bytes \<Rightarrow> boardcast_t \<Rightarrow> 's \<Rightarrow> (boardcast_t \<times> 's) option" where
  "liveshot fl lp send junk b s =
    (case copy_screen fl all_cells b of
      None \<Rightarrow> None
    | Some b \<Rightarrow>
        (let nbuf = set_field 56 (nint32_set (word_of_nat SOURCE_CHUNK_SIZE)) junk
         in Some (b\<lparr>btimes := btimes b + 1\<rparr>, chunk_loop lp send b (List.product [0..<40] [0..<25]) nbuf s)))"

section \<open>Sound\<close>

text \<open>\<open>sendsound\<close>: the counter, and 3584 bytes of the device after the header; the device may give fewer.\<close>

definition sound_packet :: "u32 \<Rightarrow> bytes \<Rightarrow> bytes \<Rightarrow> bytes" where
  "sound_packet t dev b = set_field 24 (take 3584 dev) (set_field 20 (nint32_set t) (b[0 := 115]))"

definition sendsound :: "bytes \<Rightarrow> (bytes \<Rightarrow> 's \<Rightarrow> bytes \<times> 's) \<Rightarrow> bytes \<Rightarrow> u32 \<Rightarrow> 's \<Rightarrow> u32 \<times> 's" where
  "sendsound dev send junk t s =
    (let t = t + 1; nbuf = set_field 56 (nint32_set (word_of_nat SOURCE_CHUNK_SIZE)) junk
     in (t, snd (send (set_field 76 (sound_packet t dev (field 76 SOURCE_CHUNK_SIZE nbuf)) nbuf) s)))"


section \<open>The controls of the broadcast\<close>

text \<open>The object \<open>screen\<close> of class \<open>live_f\<close>: pointers to the broadcast and to the sound, of which the model keeps the
  counter.  The object is static, so both pointers are null at first.  \<open>sendsound\<close> tests the wrong pointer.\<close>

record live_f =
  bd :: "boardcast_t option"
  sd :: "u32 option"

definition live_f_init :: live_f where "live_f_init = \<lparr>bd = None, sd = None\<rparr>"

definition screen_init :: "boardcast_t \<Rightarrow> live_f \<Rightarrow> live_f" where
  "screen_init b l = (if bd l \<noteq> None then l else l\<lparr>bd := Some b\<rparr>)"

definition initSound :: "live_f \<Rightarrow> live_f" where
  "initSound l = (if sd l \<noteq> None then l else l\<lparr>sd := Some 0\<rparr>)"

definition destory :: "live_f \<Rightarrow> live_f" where "destory l = l\<lparr>bd := None\<rparr>"
definition destorySound :: "live_f \<Rightarrow> live_f" where "destorySound l = l\<lparr>sd := None\<rparr>"

definition screen_sendall :: "(bytes \<Rightarrow> 's \<Rightarrow> bytes \<times> 's) \<Rightarrow> bytes \<Rightarrow> live_f \<Rightarrow> 's \<Rightarrow> (live_f \<times> 's) option" where
  "screen_sendall send junk l s =
    (case bd l of None \<Rightarrow> Some (l, s) | Some b \<Rightarrow> Some (l, sendall send (buffer b) junk s))"

definition screen_liveall ::
    "(real \<Rightarrow> real) \<Rightarrow> real \<Rightarrow> (bytes \<Rightarrow> 's \<Rightarrow> bytes \<times> 's) \<Rightarrow> bytes \<Rightarrow> live_f \<Rightarrow> 's \<Rightarrow> (live_f \<times> 's) option" where
  "screen_liveall fl lp send junk l s =
    (case bd l of
      None \<Rightarrow> Some (l, s)
    | Some b \<Rightarrow> (case liveshot fl lp send junk b s of None \<Rightarrow> None | Some (b, s) \<Rightarrow> Some (l\<lparr>bd := Some b\<rparr>, s)))"

definition screen_save :: "u16 list \<Rightarrow> (nat \<Rightarrow> bytes) \<Rightarrow> live_f \<Rightarrow> (live_f \<times> (bytes \<times> u32 \<times> u32) option) option" where
  "screen_save dev junk l =
    (case bd l of
      None \<Rightarrow> Some (l, None)
    | Some b \<Rightarrow>
        (case save dev junk (shotbuf b) of
          (None, s) \<Rightarrow> None
        | (Some r, s) \<Rightarrow> Some (l\<lparr>bd := Some (b\<lparr>shotbuf := s\<rparr>)\<rparr>, Some r)))"

definition screen_sendsound :: "bytes \<Rightarrow> (bytes \<Rightarrow> 's \<Rightarrow> bytes \<times> 's) \<Rightarrow> bytes \<Rightarrow> live_f \<Rightarrow> 's \<Rightarrow> (live_f \<times> 's) option" where
  "screen_sendsound dev send junk l s =
    (case bd l of
      None \<Rightarrow> Some (l, s)
    | Some _ \<Rightarrow>
        (case sd l of
          None \<Rightarrow> None
        | Some t \<Rightarrow> (case sendsound dev send junk t s of (t, s) \<Rightarrow> Some (l\<lparr>sd := Some t\<rparr>, s))))"

section \<open>Packets and their pixels\<close>

lemma length_put_pixels [simp]: "length (put_pixels ps k b) = length b"
  by (induction ps arbitrary: k b) auto

lemma put_pixels_other:
  "i < 24 + 3 * k \<or> 24 + 3 * (k + length ps) \<le> i \<Longrightarrow> put_pixels ps k b ! i = b ! i"
  by (induction ps arbitrary: k b) (auto simp: nth_list_update)

lemma data_pixel_put:
  "24 + 3 * (k + length ps) \<le> length b \<Longrightarrow> j < length ps \<Longrightarrow> data_pixel (put_pixels ps k b) (k + j) = ps ! j"
proof (induction ps arbitrary: k b j)
  case (Cons p ps)
  let ?b = "b[24 + 3 * k := pR p, 25 + 3 * k := pG p, 26 + 3 * k := pB p]"
  show ?case
  proof (cases j)
    case 0
    have "data_pixel (put_pixels ps (Suc k) ?b) k = data_pixel ?b k"
      unfolding data_pixel_def by (simp add: put_pixels_other)
    also have "\<dots> = p"
      using Cons.prems(1) by (simp add: data_pixel_def nth_list_update)
    finally show ?thesis using 0 by simp
  next
    case (Suc j')
    then show ?thesis using Cons.IH [of "Suc k" ?b j'] Cons.prems by simp
  qed
qed simp

lemma data_pixel_other:
  "j < k \<Longrightarrow> data_pixel (put_pixels ps k b) j = data_pixel b j"
  unfolding data_pixel_def by (subst (1 2 3) put_pixels_other) auto

lemma length_set_area [simp]: "20 \<le> length b \<Longrightarrow> length (set_area x y w h b) = length b"
  by (simp add: set_area_def)

lemma field_put_pixels: "off + n \<le> 24 + 3 * k \<Longrightarrow> field off n (put_pixels ps k b) = field off n b"
  by (rule nth_equalityI) (auto simp: field_def put_pixels_other)

lemma field_other: "off' + length v \<le> off \<Longrightarrow> off' + length v \<le> length p \<Longrightarrow> field off n (set_field off' v p) = field off n p"
  by (simp add: field_def set_field_def drop_append min_def)

lemma set_area_fields:
  assumes "24 \<le> length b"
  shows "np_x (set_area x y w h b) = x" "np_y (set_area x y w h b) = y" "np_w (set_area x y w h b) = w" "np_h (set_area x y w h b) = h"
  using assms by (simp_all add: set_area_def np_x_def np_y_def np_w_def np_h_def field_set_same field_set_before)

lemma row_packet_fields:
  assumes "length b = 4096"
  shows "length (row_packet pic iy b) = 4096" "row_packet pic iy b ! 0 = 119" "np_x (row_packet pic iy b) = 0"
    "np_y (row_packet pic iy b) = word_of_nat (iy * 2)" "np_w (row_packet pic iy b) = 600" "np_h (row_packet pic iy b) = 2"
  using assms set_area_fields [of b 0 "word_of_nat (iy * 2)" 600 2]
  by (simp_all add: row_packet_def Let_def np_x_def np_y_def np_w_def np_h_def field_upd0 field_put_pixels)

text \<open>The pixels of a packet are the two lines of the picture, one after the other.\<close>

lemma row_packet_pixels:
  assumes "length b = 4096" "ix < 600" "j < 2"
  shows "data_pixel (row_packet pic iy b) (j * 600 + ix) = pic ix (iy * 2 + j)"
proof -
  have upd: "data_pixel (p[0 := v]) k = data_pixel p k" for p v k by (simp add: data_pixel_def)
  define p where "p = put_pixels (map (\<lambda>ix. pic ix (iy * 2)) [0..<600]) 0 (set_area 0 (word_of_nat (iy * 2)) 600 2 b)"
  have len: "length p = 4096" using assms(1) by (simp add: p_def)
  have row: "data_pixel (row_packet pic iy b) k = data_pixel (put_pixels (map (\<lambda>ix. pic ix (iy * 2 + 1)) [0..<600]) 600 p) k" for k
    by (simp add: row_packet_def Let_def upd p_def)
  from assms(3) consider "j = 0" | "j = 1" by linarith
  then show ?thesis
  proof cases
    case 1
    have "data_pixel p (0 + ix) = pic ix (iy * 2)"
      unfolding p_def using assms by (subst data_pixel_put) simp_all
    with 1 assms(2) show ?thesis by (simp add: row data_pixel_other)
  next
    case 2
    then show ?thesis
      using data_pixel_put [of 600 "map (\<lambda>ix. pic ix (iy * 2 + 1)) [0..<600]" p ix] assms(2) len by (simp add: row)
  qed
qed

text \<open>What is handed over, when the receiver of the packets writes each payload down and leaves any packet of the
  same length.\<close>

definition recorder :: "(bytes \<Rightarrow> bytes) \<Rightarrow> bytes \<Rightarrow> bytes list \<Rightarrow> bytes \<times> bytes list" where
  "recorder g nbuf acc = (g nbuf, acc @ [field 76 SOURCE_CHUNK_SIZE nbuf])"

definition rows_from :: "picture \<Rightarrow> nat list \<Rightarrow> bytes list \<Rightarrow> bool" where
  "rows_from pic iys ps \<longleftrightarrow>
    list_all2 (\<lambda>iy p. \<exists>b. length b = 4096 \<and> p = row_packet pic iy b) iys ps"

lemma sendall_loop_rows:
  assumes "\<And>p. length (g p) = length p" "\<And>p a. send p a = (g p, a @ [field 76 SOURCE_CHUNK_SIZE p])" "length nbuf = 4188"
  shows "\<exists>ps. snd (sendall_loop send pic iys nbuf acc) = acc @ ps \<and> rows_from pic iys ps"
  using assms(3)
proof (induction iys arbitrary: nbuf acc)
  case Nil
  then show ?case by (simp add: rows_from_def)
next
  case (Cons iy iys)
  let ?b = "field 76 4096 nbuf"
  let ?n = "set_field 76 (row_packet pic iy ?b) nbuf"
  have len: "length ?b = 4096" "length (row_packet pic iy ?b) = 4096"
    using Cons.prems row_packet_fields(1) [of ?b] by (simp_all add: field_def)
  then have n: "length ?n = 4188" "field 76 4096 ?n = row_packet pic iy ?b"
    using Cons.prems by (simp_all add: field_set_same)
  obtain ps where ps: "snd (sendall_loop send pic iys (g ?n) (acc @ [row_packet pic iy ?b])) = (acc @ [row_packet pic iy ?b]) @ ps"
    "rows_from pic iys ps"
    using Cons.IH [of "g ?n" "acc @ [row_packet pic iy ?b]"] assms(1) n(1) by metis
  have "sendall_loop send pic (iy # iys) nbuf acc = sendall_loop send pic iys (g ?n) (acc @ [row_packet pic iy ?b])"
    using n(2) assms(2) [of ?n acc] by (simp add: SOURCE_CHUNK_SIZE_def)
  with len ps show ?case
    by (auto simp: rows_from_def intro!: exI [of _ "row_packet pic iy ?b # ps"])
qed

lemma sendall_rows:
  assumes "\<And>p. length (g p) = length p" "length junk = 4188"
  shows "rows_from pic [0..<250] (sendall (recorder g) pic junk [])"
proof -
  let ?n = "set_field 56 (nint32_set (word_of_nat SOURCE_CHUNK_SIZE)) junk"
  have "length ?n = 4188" using assms(2) by simp
  from sendall_loop_rows [OF assms(1) recorder_def [of g] this, of pic "[0..<250]" "[]"] show ?thesis
    by (auto simp: sendall_def)
qed

section \<open>Screenshots\<close>

text \<open>Back from three bytes to a pixel: the high bits of each colour.\<close>

fun unpack565 :: "bytes \<Rightarrow> u16 list" where
  "unpack565 (r # g # b # rest) =
    (push_bit 11 (ucast (drop_bit 3 r)) OR push_bit 5 (ucast (drop_bit 2 g)) OR ucast (drop_bit 3 b)) # unpack565 rest"
| "unpack565 rest = []"

lemma colour_masks: "0x1f = (mask 5 :: u8)" "0x3f = (mask 6 :: u8)"
  by (simp_all add: mask_eq_exp_minus_1)

lemma colour_high:
  "drop_bit 3 (push_bit 3 (y AND mask 5) OR drop_bit 2 (y AND mask 5)) = y AND mask 5"
  "drop_bit 2 (push_bit 2 (y AND mask 6) OR drop_bit 4 (y AND mask 6)) = y AND mask 6" for y :: u8
  by (rule bit_word_eqI, auto simp: bit_simps)+

lemma unpack565_rgb24: "unpack565 (rgb24 p @ rest) = p # unpack565 rest"
proof -
  have "push_bit 11 (ucast (ucast (drop_bit 11 p) AND mask 5 :: u8)) OR
    push_bit 5 (ucast (ucast (drop_bit 5 p) AND mask 6 :: u8)) OR ucast (ucast p AND mask 5 :: u8) = p" (is "?l = p")
  proof (rule bit_word_eqI)
    fix n assume "n < LENGTH(16)"
    then consider "n < 5" | "5 \<le> n" "n < 11" | "11 \<le> n" "n < 16" by fastforce
    then show "bit ?l n = bit p n" by cases (auto simp: bit_simps)
  qed
  then show ?thesis
    by (simp only: rgb24_def Let_def colour_masks colour_high append.simps unpack565.simps)
qed

lemma unpack565_concat: "unpack565 (concat (map rgb24 ps)) = ps"
  by (induction ps) (simp_all add: unpack565_rgb24)

lemma length_rgb24 [simp]: "length (rgb24 p) = 3"
  by (simp add: rgb24_def Let_def)

lemma to_rgb24_loop_eq:
  "k \<le> n \<Longrightarrow> n \<le> length src \<Longrightarrow> 3 * n \<le> length out \<Longrightarrow>
    to_rgb24_loop src [k..<n] out = Some (take (3 * k) out @ concat (map rgb24 (drop k (take n src))) @ drop (3 * n) out)"
proof (induction "n - k" arbitrary: k out)
  case 0
  then show ?case by simp
next
  case (Suc d)
  then have "k < n" by linarith
  then have up: "[k..<n] = k # [Suc k..<n]" "drop k (take n src) = src ! k # drop (Suc k) (take n src)"
    using Suc.prems by (auto simp: upt_conv_Cons Cons_nth_drop_Suc [symmetric])
  let ?out = "set_field (3 * k) (rgb24 (src ! k)) out"
  have len: "length ?out = length out" using \<open>k < n\<close> Suc.prems by simp
  have parts: "take (3 * Suc k) ?out = take (3 * k) out @ rgb24 (src ! k)" "drop (3 * n) ?out = drop (3 * n) out"
    using \<open>k < n\<close> Suc.prems by (simp_all add: set_field_def min_def)
  have "to_rgb24_loop src [Suc k..<n] ?out = Some (take (3 * Suc k) ?out @ concat (map rgb24 (drop (Suc k) (take n src))) @ drop (3 * n) ?out)"
    using Suc.hyps(2) Suc.prems \<open>k < n\<close> len by (intro Suc.hyps(1)) auto
  then show ?case
    using \<open>k < n\<close> Suc.prems unfolding up parts by simp
qed

text \<open>A screenshot loses nothing: for a frame buffer of sixteen bits a pixel the conversion to three bytes a pixel
  stays inside both arrays, fills the second one, and from its high bits the frame buffer comes back.\<close>

theorem screenshot_lossless:
  assumes "unat (xres s) * unat (yres s) < 2 ^ 28" "length dev = unat (xres s) * unat (yres s)" "length (data s) = length dev"
    "bits_per_pixel s = 16" "length (junk (unat (xres s * yres s * 3))) = unat (xres s) * unat (yres s) * 3"
  shows "\<exists>rgb s'. save dev junk s = (Some (rgb, xres s, yres s), s') \<and> length rgb = 3 * length dev \<and> unpack565 rgb = dev"
proof -
  let ?n = "unat (xres s) * unat (yres s)"
  have n: "unat (xres s * yres s) = ?n" "unat (xres s * yres s * 3) = ?n * 3" "unat (xres s * yres s * 16) = ?n * 16"
    using assms(1) by (simp_all add: unat_word_ariths)
  have "unat (buffer_size s) = ?n * 2"
    using n(3) assms(4) by (simp add: buffer_size_def unat_div)
  then have read: "readbuffer dev s = s\<lparr>data := dev\<rparr>"
    using assms(2,3) by (simp add: readbuffer_def)
  have whole: "nat (sint (xres s * yres s)) = ?n"
    unfolding sint_uint uint_nat n(1)
    using assms(1) by (subst signed_take_bit_int_eq_self) (simp_all del: of_nat_mult)
  have "RGB565_to_RGB24 dev (junk (?n * 3)) (xres s) (yres s) = Some (concat (map rgb24 dev))"
    using to_rgb24_loop_eq [of 0 ?n dev "junk (?n * 3)"] assms(2,5) n(2)
    by (simp add: RGB565_to_RGB24_def whole)
  moreover have "length (concat (map rgb24 dev)) = 3 * length dev"
    by (simp add: length_concat comp_def sum_list_triv)
  ultimately show ?thesis
    by (simp add: save_def Let_def read n(2) unpack565_concat)
qed

section \<open>The screen is not copied\<close>

text \<open>Rounding to a \<open>float\<close>: monotone, exact on integers of 24 bits, and in between off by at most the last bit.\<close>

definition float_rounding :: "(real \<Rightarrow> real) \<Rightarrow> bool" where
  "float_rounding fl \<longleftrightarrow> mono fl \<and> (\<forall>n. n \<le> 2 ^ 24 \<longrightarrow> fl (real n) = real n) \<and>
    (\<forall>x. 1 / 1024 \<le> x \<and> x \<le> 2 ^ 24 \<longrightarrow> fl x \<le> x + x / 2 ^ 24)"

lemma scaled_le:
  assumes "float_rounding fl" "n \<le> 2 ^ 24" "i < d" "d \<le> 600" "0 < d"
  shows "0 \<le> fl (real i * fl (fl (real n) / real d))" "fl (real i * fl (fl (real n) / real d)) \<le> real n"
proof -
  have m: "mono fl" and int: "\<And>n. n \<le> 2 ^ 24 \<Longrightarrow> fl (real n) = real n"
    and err: "\<And>x. 1 / 1024 \<le> x \<Longrightarrow> x \<le> 2 ^ 24 \<Longrightarrow> fl x \<le> x + x / 2 ^ 24"
    using assms(1) by (auto simp: float_rounding_def)
  have f0: "fl 0 = 0" using int [of 0] by simp
  have n: "fl (real n) = real n" using int assms(2) by simp
  have nn: "0 \<le> fl (real n / real d)"
    using monoD [OF m, of 0 "real n / real d"] f0 by simp
  show "0 \<le> fl (real i * fl (fl (real n) / real d))"
    using monoD [OF m, of 0 "real i * fl (real n / real d)"] f0 n nn by simp
  have "real i * fl (real n / real d) \<le> real n"
  proof (cases "n = 0")
    case True
    then show ?thesis using f0 by simp
  next
    case False
    have lo: "1 / 1024 \<le> real n / real d"
    proof -
      have "1 / 1024 \<le> 1 / real d" using assms(4,5) by (intro divide_left_mono) auto
      also have "\<dots> \<le> real n / real d" using False assms(5) by (intro divide_right_mono) auto
      finally show ?thesis .
    qed
    have hi: "real n / real d \<le> 2 ^ 24"
    proof -
      have "real n / real d \<le> real n" using assms(5) by (simp add: divide_le_eq mult_le_cancel_left1)
      then show ?thesis using assms(2) by (simp add: order.trans)
    qed
    have "fl (real n / real d) \<le> real n / real d + real n / real d / 2 ^ 24"
      by (rule err [OF lo hi])
    then have "real i * fl (real n / real d) \<le> real i * (real n / real d + real n / real d / 2 ^ 24)"
      by (intro mult_left_mono) auto
    also have "\<dots> \<le> (real d - 1) * (real n / real d + real n / real d / 2 ^ 24)"
      using assms(3) by (intro mult_right_mono) auto
    also have "\<dots> = real n * ((real d - 1) * (1 + 1 / 2 ^ 24) / real d)"
      using assms(5) by (simp add: field_simps)
    also have "\<dots> \<le> real n * 1"
      using assms(4,5) by (intro mult_left_mono) (auto simp: field_simps)
    finally show ?thesis by simp
  qed
  from monoD [OF m this] show "fl (real i * fl (fl (real n) / real d)) \<le> real n"
    by (simp add: n)
qed

lemma word_floor_small:
  assumes "0 \<le> r" "r \<le> real (unat (m :: u32))" "unat m \<le> 2 ^ 24"
  shows "\<not> sint (word_of_int \<lfloor>r\<rfloor> :: u32) < 0" "\<not> m < word_of_int \<lfloor>r\<rfloor>"
proof -
  have b: "0 \<le> \<lfloor>r\<rfloor>" "\<lfloor>r\<rfloor> \<le> int (unat m)" using assms(1,2) by linarith+
  have small: "\<lfloor>r\<rfloor> \<le> 16777216" using b(2) of_nat_mono [OF assms(3), where ?'a = int] by simp linarith
  then have u: "uint (word_of_int \<lfloor>r\<rfloor> :: u32) = \<lfloor>r\<rfloor>"
    using b(1) small by (simp add: uint_word_of_int)
  have "sint (word_of_int \<lfloor>r\<rfloor> :: u32) = \<lfloor>r\<rfloor>"
    using b(1) small u by (simp add: sint_uint signed_take_bit_int_eq_self)
  then show "\<not> sint (word_of_int \<lfloor>r\<rfloor> :: u32) < 0" using b by simp
  show "\<not> m < word_of_int \<lfloor>r\<rfloor>"
    using u b by (simp add: word_less_def uint_nat [symmetric])
qed

text \<open>A broadcast whose factors belong to its screen.\<close>

definition scaled :: "(real \<Rightarrow> real) \<Rightarrow> boardcast_t \<Rightarrow> bool" where
  "scaled fl b \<longleftrightarrow> unat (xres (shotbuf b)) \<le> 2 ^ 24 \<and> unat (yres (shotbuf b)) \<le> 2 ^ 24 \<and>
    resizex b = fl (fl (real (unat (xres (shotbuf b)))) / 600) \<and> resizey b = fl (fl (real (unat (yres (shotbuf b)))) / 500)"

lemma copy_screen_nothing:
  assumes "float_rounding fl" "scaled fl b" "list_all (\<lambda>(x, y). x < 600 \<and> y < 500) cs"
  shows "copy_screen fl cs b = Some b"
proof -
  have "screen_pix fl b x y \<noteq> None" if "x < 600" "y < 500" for x y
  proof -
    note x = scaled_le [OF assms(1), of "unat (xres (shotbuf b))" x 600]
    note y = scaled_le [OF assms(1), of "unat (yres (shotbuf b))" y 500]
    show ?thesis
      using assms(2) that word_floor_small [OF x] word_floor_small [OF y]
      by (auto simp: screen_pix_def getpix_def scaled_def)
  qed
  with assms(3) show ?thesis
    by (induction cs) (auto split: option.splits)
qed

lemma all_cells_inside: "list_all (\<lambda>(x, y). x < 600 \<and> y < 500) all_cells"
  by (auto simp: all_cells_def list_all_iff)

lemma liveshot_eq:
  assumes "float_rounding fl" "scaled fl b"
  shows "liveshot fl lp send junk b s = Some (b\<lparr>btimes := btimes b + 1\<rparr>, chunk_loop lp send b (List.product [0..<40] [0..<25])
    (set_field 56 (nint32_set (word_of_nat SOURCE_CHUNK_SIZE)) junk) s)"
  by (simp add: liveshot_def copy_screen_nothing [OF assms all_cells_inside])

lemma chunk_loop_nothing:
  assumes "list_all (\<lambda>u. times u \<noteq> btimes b) (ulog b)" "length (ulog b) = 1000" "list_all (\<lambda>(x, y). x < 40 \<and> y < 25) cs"
  shows "chunk_loop lp send b cs nbuf s = s"
  using assms(3)
proof (induction cs)
  case (Cons c cs)
  then have "25 * fst c + snd c < 1000" by auto
  then have "times (ulog b ! (25 * fst c + snd c)) \<noteq> btimes b"
    using assms(1,2) by (simp add: list_all_length)
  with Cons show ?case by simp
qed simp

theorem screenshot_lossless_witness:
  "\<exists>rgb s'. save [0x1234, 0xffff] (\<lambda>n. replicate n 0) \<lparr>xres = 2, yres = 1, bits_per_pixel = 16, data = [0, 0]\<rparr> =
    (Some (rgb, 2, 1), s') \<and> length rgb = 3 * length [0x1234, 0xffff :: u16] \<and> unpack565 rgb = [0x1234, 0xffff]"
  using screenshot_lossless [of "\<lparr>xres = 2, yres = 1, bits_per_pixel = 16, data = [0, 0]\<rparr>" "[0x1234, 0xffff]" "\<lambda>n. replicate n 0"]
  by simp

end
