(* ===== verification/Viewer.thy ===== *)
theory Viewer
  imports Picture Connection "HOL-Library.Sublist"
begin

text \<open>
  The viewer, the program of \<^verbatim>\<open>live/main.cpp\<close> with \<^verbatim>\<open>live/shot.hpp\<close>: it reads the packets of a live broadcast from a pipe,
  draws pictures into an SDL surface and plays sound; started with \<open>s\<close> it sends pictures of its own screen.

  The surface is the array of 32 bit words behind \<open>surface->pixels\<close>, \<open>pitch\<close> its bytes for a line, and
  \<open>rgb\<close> stands for \<open>SDL_MapRGB\<close>.  An access outside an array is \<open>None\<close>.  Coordinates are 32 bit words, read as signed
  integers where the code compares them.
\<close>

unbundle bit_operations_syntax

section \<open>The window\<close>

record viewer =
  surf :: "u32 list"
  pitch :: nat
  locks :: nat
  drawn_at :: "u32 list"
  sound_times :: u32
  played :: "bytes list"

type_synonym map_rgb = "u8 \<Rightarrow> u8 \<Rightarrow> u8 \<Rightarrow> u32"

definition pixel_word :: "map_rgb \<Rightarrow> pixel \<Rightarrow> u32" where
  "pixel_word rgb p = rgb (pR p) (pG p) (pB p)"

text \<open>\<open>mywindow::setpixel\<close> for pixel number \<open>k\<close> of a packet: the pixel is only read when it is inside the window.
  The index counts words, the pitch bytes.\<close>

definition mw_setpixel :: "map_rgb \<Rightarrow> bytes \<Rightarrow> nat \<Rightarrow> u32 \<Rightarrow> u32 \<Rightarrow> viewer \<Rightarrow> viewer option" where
  "mw_setpixel rgb buf k x y v =
    (if sint x < 0 \<or> sint y < 0 \<or> 600 \<le> sint x \<or> 500 \<le> sint y then Some v
     else
       (let ix = unat x + unat y * pitch v
        in if 26 + 3 * k < length buf \<and> ix < length (surf v)
           then Some (v\<lparr>surf := (surf v)[ix := pixel_word rgb (data_pixel buf k)]\<rparr>)
           else None))"

text \<open>The loops of \<open>drawbitmap\<close>: pixel \<open>k\<close> at column \<open>ix\<close> of line \<open>iy\<close>.  \<open>if(ppx>end) return;\<close> leaves early.\<close>

function draw_loop ::
    "map_rgb \<Rightarrow> bytes \<Rightarrow> u32 \<Rightarrow> u32 \<Rightarrow> int \<Rightarrow> int \<Rightarrow> nat \<Rightarrow> nat \<Rightarrow> nat \<Rightarrow> viewer \<Rightarrow> (bool \<times> viewer) option" where
  "draw_loop rgb buf x y w h k ix iy v =
    (if h \<le> int iy then Some (True, v)
     else if w \<le> int ix then draw_loop rgb buf x y w h k 0 (iy + 1) v
     else if 4096 < 24 + 3 * k then Some (False, v)
     else
       (case mw_setpixel rgb buf k (word_of_nat ix + x) (word_of_nat iy + y) v of
         None \<Rightarrow> None
       | Some v \<Rightarrow> draw_loop rgb buf x y w h (k + 1) (ix + 1) iy v))"
  by pat_completeness auto
termination
  by (relation "measures [\<lambda>(rgb, buf, x, y, w, h, k, ix, iy, v). nat (h - int iy), \<lambda>(rgb, buf, x, y, w, h, k, ix, iy, v). nat (w - int ix)]") auto

declare draw_loop.simps [simp del]

definition drawbitmap :: "map_rgb \<Rightarrow> bytes \<Rightarrow> u32 \<Rightarrow> u32 \<Rightarrow> u32 \<Rightarrow> u32 \<Rightarrow> viewer \<Rightarrow> viewer option" where
  "drawbitmap rgb buf x y w h v =
    (case draw_loop rgb buf x y (sint w) (sint h) 0 0 0 (v\<lparr>locks := locks v + 1\<rparr>) of
      None \<Rightarrow> None
    | Some (False, v) \<Rightarrow> Some v
    | Some (True, v) \<Rightarrow> Some (v\<lparr>locks := locks v - 1\<rparr>))"

section \<open>Packets\<close>

text \<open>\<open>connection::resolv\<close>.  \<open>updatelog[x][y]\<close> is entry \<open>25 * x + y\<close>; its counter is unsigned, that of the sound is
  not.\<close>

definition resolv_area :: "map_rgb \<Rightarrow> bytes \<Rightarrow> viewer \<Rightarrow> viewer option" where
  "resolv_area rgb buf v =
    (let i = sint (np_x buf) * 25 + sint (np_y buf)
     in if i < 0 \<or> int (length (drawn_at v)) \<le> i then None
        else if np_t buf \<le> drawn_at v ! nat i then Some v
        else drawbitmap rgb buf (np_x buf * 15) (np_y buf * 20) 40 25 (v\<lparr>drawn_at := (drawn_at v)[nat i := np_t buf]\<rparr>))"

definition resolv_sound :: "bytes \<Rightarrow> viewer \<Rightarrow> viewer" where
  "resolv_sound buf v =
    (if sint (np_t buf) \<le> sint (sound_times v) then v
     else v\<lparr>sound_times := np_t buf, played := played v @ [field 24 3584 buf]\<rparr>)"

definition resolv :: "map_rgb \<Rightarrow> bytes \<Rightarrow> viewer \<Rightarrow> viewer option" where
  "resolv rgb buf v =
    (if buf ! 0 = 119 then drawbitmap rgb buf (np_x buf) (np_y buf) (np_w buf) (np_h buf) v
     else if buf ! 0 = 105 then resolv_area rgb buf v
     else if buf ! 0 = 115 then Some (resolv_sound buf v)
     else Some v)"

text \<open>\<open>autoresolv\<close>: each read from the pipe fills the front of the buffer, or fails; after the packet the same bytes are
  cleared.  The list of reads ends when the window is closed.\<close>

primrec autoresolv_loop :: "map_rgb \<Rightarrow> bytes list \<Rightarrow> bytes \<Rightarrow> viewer \<Rightarrow> viewer option" where
  "autoresolv_loop rgb [] buf v = Some v"
| "autoresolv_loop rgb (r # rs) buf v =
    (if r = [] then autoresolv_loop rgb rs buf v
     else
       (let buf = recv_into buf r
        in case resolv rgb buf v of
             None \<Rightarrow> None
           | Some v \<Rightarrow> autoresolv_loop rgb rs (replicate (min 4096 (length r)) 0 @ drop (length r) buf) v))"

definition autoresolv :: "map_rgb \<Rightarrow> bytes list \<Rightarrow> viewer \<Rightarrow> viewer option" where
  "autoresolv rgb rs v = autoresolv_loop rgb rs (replicate 4096 0) v"

section \<open>Sending from the viewer\<close>

text \<open>The class \<open>boardcast\<close> of this program: integer factors, no log of changes, and packets written to a pipe.  \<open>junk\<close> is
  the local buffer.  \<open>sendall\<close> is that of the server without the line that sets \<open>m\<close>.\<close>

record sender =
  vshot :: shot
  vresizex :: u32
  vresizey :: u32
  vbuffer :: picture
  pipe :: "bytes list"

definition sender_init :: "picture \<Rightarrow> shot \<Rightarrow> sender" where
  "sender_init pic s = \<lparr>vshot = s, vresizex = xres s div 600, vresizey = yres s div 500, vbuffer = pic, pipe = []\<rparr>"

definition v_setpixel :: "pixel \<Rightarrow> int \<Rightarrow> int \<Rightarrow> sender \<Rightarrow> sender" where
  "v_setpixel px x y s =
    (if x < 0 \<or> y < 0 \<or> 600 \<le> x \<or> 500 \<le> y then s else s\<lparr>vbuffer := set_pixel px (nat x) (nat y) (vbuffer s)\<rparr>)"

definition v_row_packet :: "picture \<Rightarrow> nat \<Rightarrow> bytes \<Rightarrow> bytes" where
  "v_row_packet pic iy b =
    (let b = set_area 0 (word_of_nat (iy * 2)) 600 2 b;
         b = put_pixels (map (\<lambda>ix. pic ix (iy * 2)) [0..<600]) 0 b
     in put_pixels (map (\<lambda>ix. pic ix (iy * 2 + 1)) [0..<600]) 600 b)"

primrec v_sendall_loop :: "nat list \<Rightarrow> bytes \<Rightarrow> sender \<Rightarrow> sender" where
  "v_sendall_loop [] b s = s"
| "v_sendall_loop (iy # iys) b s =
    (let b = v_row_packet (vbuffer s) iy b in v_sendall_loop iys b (s\<lparr>pipe := pipe s @ [b]\<rparr>))"

definition v_sendall :: "bytes \<Rightarrow> sender \<Rightarrow> sender" where
  "v_sendall junk s = v_sendall_loop [0..<250] junk s"

primrec v_copy_screen :: "(nat \<times> nat) list \<Rightarrow> sender \<Rightarrow> sender option" where
  "v_copy_screen [] s = Some s"
| "v_copy_screen (c # cs) s =
    (case getpix (vshot s) (word_of_nat (fst c) * vresizex s) (word_of_nat (snd c) * vresizey s) of
      None \<Rightarrow> None
    | Some _ \<Rightarrow> v_copy_screen cs s)"

definition v_sendshot :: "u16 list \<Rightarrow> bytes \<Rightarrow> sender \<Rightarrow> sender option" where
  "v_sendshot dev junk s =
    map_option (v_sendall junk) (v_copy_screen all_cells (s\<lparr>vshot := readbuffer dev (vshot s)\<rparr>))"

text \<open>\<open>servermode\<close>: a frame for each content of the screen until the window is closed.\<close>

primrec servermode :: "u16 list list \<Rightarrow> bytes \<Rightarrow> sender \<Rightarrow> sender option" where
  "servermode [] junk s = Some s"
| "servermode (dev # devs) junk s =
    (case v_sendshot dev junk s of None \<Rightarrow> None | Some s \<Rightarrow> servermode devs junk s)"

text \<open>\<open>setarea\<close>, which no other function calls: pixels \<open>pxs\<close> with \<open>end\<close> at \<open>e\<close> bytes go into the picture and into one packet.
  The packet takes whole pixels as long as one starts before its end.\<close>

function setarea_loop :: "pixel list \<Rightarrow> nat \<Rightarrow> int \<Rightarrow> int \<Rightarrow> int \<Rightarrow> int \<Rightarrow> nat \<Rightarrow> nat \<Rightarrow> nat \<Rightarrow> sender \<Rightarrow> (bool \<times> sender) option" where
  "setarea_loop pxs e x y w h k ix iy s =
    (if h \<le> int iy then Some (True, s)
     else if w \<le> int ix then setarea_loop pxs e x y w h k 0 (iy + 1) s
     else if e < 3 * k then Some (False, s)
     else if length pxs \<le> k then None
     else setarea_loop pxs e x y w h (k + 1) (ix + 1) iy (v_setpixel (pxs ! k) (int ix + x) (int iy + y) s))"
  by pat_completeness auto
termination
  by (relation "measures [\<lambda>(pxs, e, x, y, w, h, k, ix, iy, s). nat (h - int iy), \<lambda>(pxs, e, x, y, w, h, k, ix, iy, s). nat (w - int ix)]") auto

declare setarea_loop.simps [simp del]

function area_data :: "pixel list \<Rightarrow> nat \<Rightarrow> nat \<Rightarrow> bytes \<Rightarrow> bytes option" where
  "area_data pxs e k b =
    (if 24 + 3 * k < 4096 \<and> 3 * k < e
     then if k < length pxs \<and> 26 + 3 * k < length b then area_data pxs e (k + 1) (put_pixels [pxs ! k] k b) else None
     else Some b)"
  by pat_completeness auto
termination by (relation "measure (\<lambda>(pxs, e, k, b). 4096 - (24 + 3 * k))") auto

declare area_data.simps [simp del]

definition setarea :: "pixel list \<Rightarrow> nat \<Rightarrow> u32 \<Rightarrow> u32 \<Rightarrow> u32 \<Rightarrow> u32 \<Rightarrow> bytes \<Rightarrow> sender \<Rightarrow> sender option" where
  "setarea pxs e x y w h junk s =
    (case setarea_loop pxs e (sint x) (sint y) (sint w) (sint h) 0 0 0 s of
      None \<Rightarrow> None
    | Some (False, s) \<Rightarrow> Some s
    | Some (True, s) \<Rightarrow>
        (case area_data pxs e 0 (set_area x y w h (junk[0 := 119])) of
          None \<Rightarrow> None
        | Some b \<Rightarrow> Some (s\<lparr>pipe := pipe s @ [b]\<rparr>)))"

section \<open>Drawing\<close>




lemma small_word: "n < 2 ^ 31 \<Longrightarrow> unat (word_of_nat n :: u32) = n \<and> sint (word_of_nat n :: u32) = int n"
  by (simp add: unat_of_nat sint_uint uint_nat signed_take_bit_int_eq_self)










text \<open>Packets one after the other.\<close>

primrec resolv_all :: "map_rgb \<Rightarrow> bytes list \<Rightarrow> viewer \<Rightarrow> viewer option" where
  "resolv_all rgb [] v = Some v"
| "resolv_all rgb (p # ps) v = (case resolv rgb p v of None \<Rightarrow> None | Some v \<Rightarrow> resolv_all rgb ps v)"


lemma autoresolv_packets:
  "list_all (\<lambda>p. length p = 4096) ps \<Longrightarrow> length buf = 4096 \<Longrightarrow> autoresolv_loop rgb ps buf v = resolv_all rgb ps v"
proof (induction ps arbitrary: buf v)
  case (Cons p ps)
  then show ?case by (auto simp: recv_into_def split: option.splits)
qed simp





section \<open>Sound\<close>

text \<open>A recording: each block of the device in a packet of its own.\<close>

primrec sendsounds :: "(bytes \<Rightarrow> 's \<Rightarrow> bytes \<times> 's) \<Rightarrow> bytes \<Rightarrow> bytes list \<Rightarrow> u32 \<Rightarrow> 's \<Rightarrow> u32 \<times> 's" where
  "sendsounds handle junk [] t s = (t, s)"
| "sendsounds handle junk (d # ds) t s = (case sendsound d handle junk t s of (t, s) \<Rightarrow> sendsounds handle junk ds t s)"

lemma sound_packet_fields:
  assumes "length b = 4096" "length d = 3584"
  shows "length (sound_packet t d b) = 4096" "sound_packet t d b ! 0 = 115" "np_t (sound_packet t d b) = t"
    "field 24 3584 (sound_packet t d b) = d"
  using assms by (simp_all add: sound_packet_def np_t_def field_set_same field_set_before)
    (simp add: set_field_def nth_append)

lemma sendsounds_packets:
  assumes "list_all (\<lambda>d. length d = 3584) ds" "length junk = 4188" "p \<in> set (snd (sendsounds (recorder g) junk ds (word_of_nat n) acc))"
  shows "p \<in> set acc \<or> (\<exists>i < length ds. \<exists>b. length b = 4096 \<and> p = sound_packet (word_of_nat (Suc (n + i))) (ds ! i) b)"
  using assms
proof (induction ds arbitrary: n acc)
  case (Cons d ds)
  define nb where "nb = set_field 56 (nint32_set (word_of_nat SOURCE_CHUNK_SIZE)) junk"
  let ?b = "field 76 SOURCE_CHUNK_SIZE nb" and ?t = "word_of_nat (Suc n) :: u32"
  have b: "length ?b = 4096" "length nb = 4188" using Cons.prems(2) by (simp_all add: nb_def field_def SOURCE_CHUNK_SIZE_def)
  have "sendsound d (recorder g) junk (word_of_nat n) acc = (?t, acc @ [sound_packet ?t d ?b])"
    using b Cons.prems(1) unfolding sendsound_def Let_def recorder_def nb_def [symmetric]
    by (simp add: add.commute field_set_same SOURCE_CHUNK_SIZE_def sound_packet_fields(1))
  then have "p \<in> set (snd (sendsounds (recorder g) junk ds (word_of_nat (Suc n)) (acc @ [sound_packet ?t d ?b])))"
    using Cons.prems(3) by simp
  from Cons.IH [OF _ Cons.prems(2) this] Cons.prems(1) consider "p \<in> set acc" | "p = sound_packet ?t d ?b"
    | i b' where "i < length ds" "length b' = 4096" "p = sound_packet (word_of_nat (Suc (Suc n + i))) (ds ! i) b'" by auto
  then show ?case
  proof cases
    case 2
    with b(1) have "\<exists>b. length b = 4096 \<and> p = sound_packet (word_of_nat (Suc (n + 0))) ((d # ds) ! 0) b" by auto
    then show ?thesis by blast
  next
    case 3
    then have "Suc i < length (d # ds) \<and> length b' = 4096 \<and> p = sound_packet (word_of_nat (Suc (n + Suc i))) ((d # ds) ! Suc i) b'" by simp
    then show ?thesis by blast
  qed simp
qed simp

text \<open>The invariant: what has been played is part of the recording up to the counter.\<close>

definition in_order :: "bytes list \<Rightarrow> viewer \<Rightarrow> bool" where
  "in_order ds v \<longleftrightarrow> (\<exists>n \<le> length ds. sound_times v = word_of_nat n \<and> subseq (played v) (take n ds))"

lemma resolv_sound_in_order:
  assumes "in_order ds v" "length ds < 2 ^ 31" "i < length ds" "list_all (\<lambda>d. length d = 3584) ds" "length b = 4096"
  shows "\<exists>v'. resolv rgb (sound_packet (word_of_nat (Suc i)) (ds ! i) b) v = Some v' \<and> in_order ds v'"
proof -
  from assms(1) obtain n where n: "n \<le> length ds" "sound_times v = word_of_nat n" "subseq (played v) (take n ds)"
    by (auto simp: in_order_def)
  let ?p = "sound_packet (word_of_nat (Suc i)) (ds ! i) b"
  have d: "length (ds ! i) = 3584" using assms(3,4) by (simp add: list_all_length)
  note f = sound_packet_fields [OF assms(5) d, of "word_of_nat (Suc i)"]
  have r: "resolv rgb ?p v = Some (resolv_sound ?p v)" unfolding resolv_def f(2) by simp
  have s: "sint (word_of_nat n :: u32) = int n" "sint (word_of_nat (Suc i) :: u32) = int (Suc i)"
    using small_word [of n] small_word [of "Suc i"] n(1) assms(2,3) by linarith+
  show ?thesis
  proof (cases "Suc i \<le> n")
    case True
    then have "resolv_sound ?p v = v" unfolding resolv_sound_def f(3) n(2) s by simp
    with r assms(1) show ?thesis by simp
  next
    case False
    then have v': "resolv_sound ?p v = v\<lparr>sound_times := word_of_nat (Suc i), played := played v @ [ds ! i]\<rparr>"
      unfolding resolv_sound_def f(3,4) n(2) s by simp
    have "subseq (played v) (take i ds)"
      using n(3) False by (metis not_less_eq_eq min.absorb1 prefix_imp_subseq subseq_order.trans take_is_prefix take_take)
    then have "subseq (played v @ [ds ! i]) (take (Suc i) ds)"
      using assms(3) by (simp add: take_Suc_conv_app_nth)
    with r v' assms(3) show ?thesis by (auto simp: in_order_def intro!: exI [of _ "Suc i"])
  qed
qed

text \<open>C23. Sound is played in order: the packets of a recording may be lost, repeated and mixed up on the way, the
  viewer handles them all, and what it plays is a part of the recording in the order in which it was
  recorded, each block once at most.\<close>

theorem sound_played_in_order:
  assumes "list_all (\<lambda>d. length d = 3584) ds" "length ds < 2 ^ 31" "length junk = 4188"
    "set ps \<subseteq> set (snd (sendsounds (recorder g) junk ds 0 []))" "sound_times v = 0" "played v = []"
  shows "\<exists>v'. autoresolv rgb ps v = Some v' \<and> subseq (played v') ds"
proof -
  have packet: "\<exists>i < length ds. \<exists>b. length b = 4096 \<and> p = sound_packet (word_of_nat (Suc i)) (ds ! i) b" if "p \<in> set ps" for p
    using sendsounds_packets [OF assms(1,3), of p g 0 "[]"] that assms(4) by auto
  have "\<exists>v'. resolv_all rgb ps v = Some v' \<and> in_order ds v'" if "in_order ds v" for v
    using that packet
  proof (induction ps arbitrary: v)
    case (Cons p ps)
    from Cons.prems(2) [of p] obtain i b where "i < length ds" "length b = 4096" "p = sound_packet (word_of_nat (Suc i)) (ds ! i) b" by auto
    with resolv_sound_in_order [OF Cons.prems(1) assms(2) _ assms(1)] obtain v1 where "resolv rgb p v = Some v1" "in_order ds v1" by blast
    with Cons.IH [of v1] Cons.prems(2) show ?case by auto
  qed simp
  moreover have "in_order ds v" using assms(5,6) by (auto simp: in_order_def intro!: exI [of _ 0])
  moreover have "list_all (\<lambda>p. length p = 4096) ps"
    using packet sound_packet_fields(1) assms(1) by (fastforce simp: list_all_iff)
  ultimately show ?thesis
    by (auto simp: autoresolv_def autoresolv_packets in_order_def intro: subseq_order.trans [OF _ prefix_imp_subseq [OF take_is_prefix]])
qed

section \<open>The viewer as a sender\<close>

lemma v_row_packet_first: "length b = 4096 \<Longrightarrow> v_row_packet pic iy b ! 0 = b ! 0 \<and> length (v_row_packet pic iy b) = 4096"
  by (simp add: v_row_packet_def Let_def put_pixels_other set_area_def set_field_def nth_append)

lemma v_sendall_loop_packets:
  "length b = 4096 \<Longrightarrow> \<exists>ps. v_sendall_loop iys b s = s\<lparr>pipe := pipe s @ ps\<rparr> \<and> length ps = length iys \<and> list_all (\<lambda>p. p ! 0 = b ! 0) ps"
proof (induction iys arbitrary: b s)
  case (Cons iy iys)
  let ?b = "v_row_packet (vbuffer s) iy b"
  have b: "length ?b = 4096" "?b ! 0 = b ! 0" using v_row_packet_first [OF Cons.prems] by simp_all
  from Cons.IH [OF b(1), of "s\<lparr>pipe := pipe s @ [?b]\<rparr>"] obtain ps where
    "v_sendall_loop iys ?b (s\<lparr>pipe := pipe s @ [?b]\<rparr>) = s\<lparr>pipe := pipe s @ [?b] @ ps\<rparr>" "length ps = length iys"
    "list_all (\<lambda>p. p ! 0 = ?b ! 0) ps" by auto
  with b show ?case by (auto simp: Let_def intro!: exI [of _ "?b # ps"])
qed simp

lemma scaled_pixel:
  assumes "unat (m :: u32) \<le> 2 ^ 30" "i < d" "0 < d" "d < 2 ^ 32"
  shows "\<not> sint (word_of_nat i * (m div word_of_nat d)) < 0" "\<not> m < word_of_nat i * (m div word_of_nat d)"
proof -
  have "i * (unat m div d) \<le> d * (unat m div d)" using assms(2) by simp
  also have "\<dots> \<le> unat m" by simp
  finally have le: "i * (unat m div d) \<le> unat m" .
  have wi: "unat (word_of_nat i :: u32) = i" and "unat (word_of_nat d :: u32) = d"
    using assms(2,4) by (simp_all add: unat_of_nat)
  then have q: "unat (m div word_of_nat d) = unat m div d" by (simp add: unat_div)
  have u: "unat (word_of_nat i * (m div word_of_nat d)) = i * (unat m div d)"
    using le assms(1) wi q by (simp only: unat_word_ariths(2)) simp
  show "\<not> m < word_of_nat i * (m div word_of_nat d)" using le u by (simp add: word_less_nat_alt)
  have "sint (word_of_nat i * (m div word_of_nat d)) = int (i * (unat m div d))"
    using le assms(1) unfolding sint_uint uint_nat u by (subst signed_take_bit_int_eq_self) (simp_all del: of_nat_mult)
  then show "\<not> sint (word_of_nat i * (m div word_of_nat d)) < 0" by (simp del: of_nat_mult)
qed

lemma v_copy_screen_nothing:
  assumes "unat (xres (vshot s)) \<le> 2 ^ 30" "unat (yres (vshot s)) \<le> 2 ^ 30"
    "vresizex s = xres (vshot s) div 600" "vresizey s = yres (vshot s) div 500"
    "list_all (\<lambda>(x, y). x < 600 \<and> y < 500) cs"
  shows "v_copy_screen cs s = Some s"
  using assms(5)
proof (induction cs)
  case (Cons c cs)
  then show ?case
    using scaled_pixel [OF assms(1), of "fst c" 600] scaled_pixel [OF assms(2), of "snd c" 500] assms(3,4)
    by (auto simp: getpix_def)
qed simp

text \<open>What the viewer sends when it is the sender: however the screen changes, every frame is the memory the picture
  had at the start, because only pixels that do not exist would be copied; and no packet has a type, the first byte is
  what the stack held.\<close>

theorem servermode_sends_memory:
  assumes "unat (xres sh) \<le> 2 ^ 30" "unat (yres sh) \<le> 2 ^ 30" "length junk = 4096"
  shows "\<exists>s. servermode devs junk (sender_init pic sh) = Some s \<and> vbuffer s = pic \<and> length (pipe s) = 250 * length devs \<and>
    list_all (\<lambda>p. p ! 0 = junk ! 0) (pipe s)"
proof -
  have "\<exists>s'. servermode devs junk s = Some s' \<and> vbuffer s' = vbuffer s \<and> length (pipe s') = length (pipe s) + 250 * length devs \<and>
      list_all (\<lambda>p. p ! 0 = junk ! 0) (pipe s')"
    if "unat (xres (vshot s)) \<le> 2 ^ 30" "unat (yres (vshot s)) \<le> 2 ^ 30" "vresizex s = xres (vshot s) div 600"
      "vresizey s = yres (vshot s) div 500" "list_all (\<lambda>p. p ! 0 = junk ! 0) (pipe s)" for s
    using that
  proof (induction devs arbitrary: s)
    case (Cons dev devs)
    let ?s = "s\<lparr>vshot := readbuffer dev (vshot s)\<rparr>"
    have "v_copy_screen all_cells ?s = Some ?s"
      using Cons.prems all_cells_inside by (intro v_copy_screen_nothing) (simp_all add: readbuffer_def Let_def)
    moreover obtain ps where "v_sendall junk ?s = ?s\<lparr>pipe := pipe s @ ps\<rparr>" "length ps = 250" "list_all (\<lambda>p. p ! 0 = junk ! 0) ps"
      using v_sendall_loop_packets [OF assms(3), of "[0..<250]" ?s] unfolding v_sendall_def length_upt by auto
    ultimately have "v_sendshot dev junk s = Some (?s\<lparr>pipe := pipe s @ ps\<rparr>)" by (simp add: v_sendshot_def)
    moreover have "xres (readbuffer dev (vshot s)) = xres (vshot s)" "yres (readbuffer dev (vshot s)) = yres (vshot s)"
      by (simp_all add: readbuffer_def Let_def)
    ultimately show ?case
      using Cons.IH [of "?s\<lparr>pipe := pipe s @ ps\<rparr>"] Cons.prems \<open>length ps = 250\<close> \<open>list_all _ ps\<close> by auto
  qed simp
  from this [of "sender_init pic sh"] assms(1,2) show ?thesis by (simp add: sender_init_def)
qed

section \<open>Witnesses\<close>

definition sample_viewer :: viewer where
  "sample_viewer = \<lparr>surf = replicate 75000 0, pitch = 600, locks = 0, drawn_at = replicate 1000 0, sound_times = 0, played = []\<rparr>"

definition sample_rgb :: map_rgb where "sample_rgb r g b = ucast r + 256 * ucast g + 65536 * ucast b"


theorem sound_played_in_order_witness:
  "\<exists>v'. autoresolv sample_rgb (rev (snd (sendsounds (recorder (\<lambda>p. p)) (replicate 4188 0) [replicate 3584 1, replicate 3584 2] 0 []))) sample_viewer = Some v' \<and>
    subseq (played v') [replicate 3584 1, replicate 3584 2]"
  by (rule sound_played_in_order [where junk = "replicate 4188 0" and g = "\<lambda>p. p"]) (simp_all add: sample_viewer_def)

theorem servermode_sends_memory_witness:
  "\<exists>s. servermode [[1, 2], [3, 4]] (replicate 4096 5) (sender_init (\<lambda>x y. Pixel 1 2 3) \<lparr>xres = 1200, yres = 1000, bits_per_pixel = 16, data = [7]\<rparr>) = Some s \<and>
    vbuffer s = (\<lambda>x y. Pixel 1 2 3) \<and> length (pipe s) = 250 * length [[1, 2], [3, 4 :: u16]] \<and> list_all (\<lambda>p. p ! 0 = replicate 4096 (5 :: u8) ! 0) (pipe s)"
  by (rule servermode_sends_memory) simp_all

end
