(* ===== verification/Livestream.thy ===== *)
theory Livestream
  imports Viewer Client_Props Websocket
begin

text \<open>
  The live broadcast between the programs: \<open>Client::live\<close> and \<open>Client::liveclient\<close> of \<^verbatim>\<open>core/client.hpp\<close>, and the functions around
  the broadcast in \<^verbatim>\<open>core/live.hpp\<close>: the thread that forwards a pipe, the callback that shows what arrives in
  browsers, and the switches.

  The state is a client and the connection of the server object, whose socket sends when the program is a
  node; the database of the two is one object, the one of the client here.  The second half of the state, \<open>live_out\<close>, is what
  the callback writes to.
\<close>

unbundle bit_operations_syntax

section \<open>Sending a packet\<close>

text \<open>\<open>livesrc(respk,1)\<close> writes a new header first.\<close>

definition livesrc_header :: "conn \<Rightarrow> u32 \<Rightarrow> bytes \<Rightarrow> bytes" where
  "livesrc_header srv rdn p = (set_mode LIVE (set_unique rdn (sign_header srv p)))[0 := 102]"

text \<open>\<open>live(netSource *)\<close>: the packet afterwards and the state.  What is sent eight times are \<open>sizeof(qypk)\<close> bytes from
  \<open>&qypk\<close>, the pointer.\<close>

definition live_source :: "client_env \<Rightarrow> bytes \<Rightarrow> client \<times> conn \<Rightarrow> bytes \<times> client \<times> conn" where
  "live_source e q st =
    (case st of (s, srv) \<Rightarrow>
      (case next_randnum e s of (rdn, s) \<Rightarrow>
        if nodemode e
        then (livesrc_header srv rdn q, s, livesrc (cenv e) (srv\<lparr>db := db (base s)\<rparr>))
        else
          (let q = seal (iscrypt s) (key s) netSource (request_header LIVESRC s rdn q)
           in (q, send_8 (take 8 (respk_address (cenv e))) s, srv))))"

text \<open>\<open>liveserver\<close>: every read from the pipe goes into a fresh buffer of the pool.\<close>

primrec liveserver :: "client_env \<Rightarrow> bytes list \<Rightarrow> client \<times> conn \<Rightarrow> client \<times> conn" where
  "liveserver e [] st = st"
| "liveserver e (r # rs) st =
    (let r = take SOURCE_CHUNK_SIZE r; q = set_field 76 r (set_field 56 (nint32_set (word_of_nat (length r))) zero_source)
     in liveserver e rs (snd (live_source e q st)))"

section \<open>What arrives\<close>

record live_out =
  receivers :: "nat list"
  closed_fds :: "nat list"
  shown :: "bytes list"
  livetimer :: u32
  speaker :: "bytes list"
  to_fifo :: "bytes list"

text \<open>What the callback reads from outside.\<close>

record live_env =
  ws_ok :: "nat \<Rightarrow> bytes \<Rightarrow> bool"
  soundputout :: bool
  liveputout :: bool
  has_sound :: bool

definition fmt_2x :: "u8 \<Rightarrow> bytes" where
  "fmt_2x b = (let d = hex_digits (unat b) in replicate (2 - length d) 32 @ d)"

definition pixel_text :: "pixel \<Rightarrow> bytes" where
  "pixel_text p = fmt_2x (pR p) @ 44 # fmt_2x (pG p) @ 44 # fmt_2x (pB p) @ [59]"

definition live_text :: "bytes \<Rightarrow> bytes" where
  "live_text np =
    lit ''live '' @ [np ! 0, 32] @ fmt_8x (np_x np) @ 32 # fmt_8x (np_y np) @ 32 # fmt_8x (np_w np) @ 32 # fmt_8x (np_h np) @
    lit '' : '' @ concat (map (\<lambda>j. pixel_text (data_pixel np j)) [0..<300])"

definition ws_boardcast :: "live_env \<Rightarrow> bytes \<Rightarrow> live_out \<Rightarrow> live_out" where
  "ws_boardcast le text o1 =
    (case boardcast (ws_ok le) text (receivers o1) of
      (keep, gone) \<Rightarrow> o1\<lparr>receivers := keep, closed_fds := closed_fds o1 @ gone, shown := shown o1 @ [text]\<rparr>)"

text \<open>\<open>runliveclient_cb\<close>.  \<open>livetimer==np->t();\<close> is a comparison, so the timer stays.\<close>

definition runliveclient_cb :: "live_env \<Rightarrow> bytes \<Rightarrow> u32 \<Rightarrow> live_out \<Rightarrow> bool \<times> live_out" where
  "runliveclient_cb le np sz o1 =
    (let o2 =
       (if np ! 0 = 105 \<or> np ! 0 = 119
        then (if sint (livetimer o1) < sint (np_t np) then ws_boardcast le (live_text np) o1 else o1)
        else if np ! 0 = 115
        then
          (let d = field 24 3584 np; o2 = ws_boardcast le (lit ''live s : '' @ cstr (fst (encode d 3584))) o1
           in if soundputout le \<and> has_sound le then o2\<lparr>speaker := speaker o2 @ [d]\<rparr> else o2)
        else o1)
     in (True, if liveputout le \<and> 0 \<le> sint sz then o2\<lparr>to_fifo := to_fifo o2 @ [take (min 4096 (nat (sint sz))) np]\<rparr> else o2))"

text \<open>One turn of the loop of \<open>liveclient\<close>: only packets of the parent with a new session number and the mode
  \<open>_LIVE\<close> come through.  The first component is whether the loop goes on.\<close>

definition live_packet ::
    "client_env \<Rightarrow> (bytes \<Rightarrow> u32 \<Rightarrow> 'o \<Rightarrow> bool \<times> 'o) \<Rightarrow> bytes \<Rightarrow> client \<times> conn \<Rightarrow> 'o \<Rightarrow> bool \<times> (client \<times> conn) \<times> 'o" where
  "live_packet e callback buf st o1 =
    (if h_mode buf \<noteq> request_code LIVE then (True, st, o1)
     else
       (case (if autoboardcast e then live_source e buf st else (buf, st)) of
         (buf, st) \<Rightarrow> (case callback (s_source buf) (s_size buf) o1 of (r, o1) \<Rightarrow> (r, st, o1))))"

fun live_event ::
    "client_env \<Rightarrow> (bytes \<Rightarrow> u32 \<Rightarrow> 'o \<Rightarrow> bool \<times> 'o) \<Rightarrow> net_event \<Rightarrow> client \<times> conn \<Rightarrow> 'o \<Rightarrow> bool \<times> (client \<times> conn) \<times> 'o" where
  "live_event e callback (t, None) st o1 = (True, st, o1)"
| "live_event e callback (t, Some (a, p, bs)) (s, srv) o1 =
    (if a = parIP (base s) \<and> p = parPort (base s)
     then
       (let buf = recv_into zero_source bs
        in case logunique (db (base s)) t (h_userid buf) (h_unique buf) of
             (False, d) \<Rightarrow> (True, (s, srv), o1)
           | (True, d) \<Rightarrow> live_packet e callback buf (s\<lparr>base := (base s)\<lparr>db := d\<rparr>\<rparr>, srv) o1)
     else (True, (s, srv), o1))"

text \<open>The loop ends with the list of events or when the callback wants no more.\<close>

primrec liveclient_loop ::
    "client_env \<Rightarrow> (bytes \<Rightarrow> u32 \<Rightarrow> 'o \<Rightarrow> bool \<times> 'o) \<Rightarrow> net_event list \<Rightarrow> client \<times> conn \<Rightarrow> 'o \<Rightarrow> bool \<times> (client \<times> conn) \<times> 'o" where
  "liveclient_loop e callback [] st o1 = (True, st, o1)"
| "liveclient_loop e callback (ev # es) st o1 =
    (case live_event e callback ev st o1 of
      (True, st, o1) \<Rightarrow> liveclient_loop e callback es st o1
    | (False, st, o1) \<Rightarrow> (False, st, o1))"

definition liveclient ::
    "client_env \<Rightarrow> (bytes \<Rightarrow> u32 \<Rightarrow> 'o \<Rightarrow> bool \<times> 'o) \<Rightarrow> client \<times> conn \<Rightarrow> 'o \<Rightarrow> (client \<times> conn) \<times> 'o" where
  "liveclient e callback st o1 =
    (case liveclient_loop e callback (inbox (base (fst st))) (liveBegin e (fst st), snd st) o1 of
      (again, (s, srv), o1) \<Rightarrow>
        (let s = s\<lparr>base := (base s)\<lparr>inbox := []\<rparr>\<rparr> in ((if again then liveEnd e s else s, srv), o1)))"

text \<open>The thread \<open>runliveclient_th\<close> with the flag \<open>clientdisabled\<close>.\<close>

definition runliveclient_th :: "client_env \<Rightarrow> live_env \<Rightarrow> bool \<Rightarrow> client \<times> conn \<Rightarrow> live_out \<Rightarrow> bool \<times> (client \<times> conn) \<times> live_out" where
  "runliveclient_th e le disabled st o1 =
    (if disabled then (True, st, o1) else (case liveclient e (runliveclient_cb le) st o1 of (st, o1) \<Rightarrow> (False, st, o1)))"

section \<open>Nothing of the picture is sent\<close>

text \<open>The effect of \<open>live(netSource *)\<close> on the state does not depend on the packet.\<close>

definition live_effect :: "client_env \<Rightarrow> client \<times> conn \<Rightarrow> client \<times> conn" where
  "live_effect e st = snd (live_source e [] st)"

lemma live_source_effect: "snd (live_source e q st) = live_effect e st"
  by (simp add: live_effect_def live_source_def Let_def split: prod.splits)

lemma sendall_loop_effect:
  assumes "\<And>q st. snd (f q st) = g st"
  shows "snd (sendall_loop f pic iys nbuf st) = (g ^^ length iys) st"
proof (induction iys arbitrary: nbuf st)
  case (Cons iy iys)
  let ?x = "f (set_field 76 (row_packet pic iy (field 76 SOURCE_CHUNK_SIZE nbuf)) nbuf) st"
  have "sendall_loop f pic (iy # iys) nbuf st = sendall_loop f pic iys (fst ?x) (snd ?x)"
    by (simp add: case_prod_unfold Let_def)
  then show ?case by (simp only: Cons.IH assms funpow_swap1 funpow.simps list.size comp_apply add_Suc_right add_0_right)
qed simp

lemma sendall_effect: "sendall (live_source e) pic junk st = (live_effect e ^^ 250) st"
  unfolding sendall_def sendall_loop_effect [where f = "live_source e" and g = "live_effect e", OF live_source_effect]
  by (simp only: length_upt diff_zero)

lemma send_8_sent:
  "base (send_8 p s) = (base s)\<lparr>sent := sent (base s) @ replicate 8 (Location (parIP (base s)) (parPort (base s)), p)\<rparr>"
proof -
  have "((\<lambda>c. send c (parIP c) (parPort c) p) ^^ n) c = c\<lparr>sent := sent c @ replicate n (Location (parIP c) (parPort c), p)\<rparr>" for n c
    by (induction n) (simp_all add: send_def replicate_append_same)
  then show ?thesis by (simp add: send_8_def)
qed

lemma live_effect_client:
  assumes "\<not> nodemode e"
  shows "base (fst (live_effect e st)) = (base (fst st))\<lparr>sent := sent (base (fst st)) @
    replicate 8 (Location (parIP (base (fst st))) (parPort (base (fst st))), take 8 (respk_address (cenv e)))\<rparr>"
  using assms by (auto simp: live_effect_def live_source_def next_randnum_def send_8_sent split: prod.splits)

lemma live_effects_client:
  assumes "\<not> nodemode e"
  shows "base (fst ((live_effect e ^^ n) st)) = (base (fst st))\<lparr>sent := sent (base (fst st)) @
    replicate (n * 8) (Location (parIP (base (fst st))) (parPort (base (fst st))), take 8 (respk_address (cenv e)))\<rparr>"
  by (induction n) (simp_all add: live_effect_client [OF assms] replicate_add add.commute [of 8])

text \<open>No broadcast picture leaves the machine: the state after \<open>sendall\<close> is the same for any two pictures, and what a client sends
  to its parent are two thousand copies of the eight bytes of a pointer.\<close>

theorem broadcast_sends_pointers:
  assumes "\<not> nodemode e"
  shows "sendall (live_source e) pic junk (s, srv) = sendall (live_source e) pic' junk' (s, srv) \<and>
    base (fst (sendall (live_source e) pic junk (s, srv))) = (base s)\<lparr>sent := sent (base s) @
      replicate 2000 (Location (parIP (base s)) (parPort (base s)), take 8 (respk_address (cenv e)))\<rparr>"
  using live_effects_client [OF assms, of 250 "(s, srv)"] by (simp add: sendall_effect)

section \<open>Packets come through once\<close>






section \<open>The screen is never broadcast\<close>

text \<open>The calls of the switches, in any order and with any contents of the devices.  \<open>mem\<close> is the memory a new broadcast
  finds in its picture.\<close>

inductive screen_step :: "(real \<Rightarrow> real) \<Rightarrow> picture \<Rightarrow> client_env \<Rightarrow> live_f \<times> client \<times> conn \<Rightarrow> live_f \<times> client \<times> conn \<Rightarrow> bool"
  for fl :: "real \<Rightarrow> real" and mem :: picture and e :: client_env where
  step_init: "unat (xres s) \<le> 2 ^ 24 \<Longrightarrow> unat (yres s) \<le> 2 ^ 24 \<Longrightarrow> length cts = 1000 \<Longrightarrow>
    screen_step fl mem e (l, st) (screen_init (boardcast_init fl cts mem s) l, st)"
| step_initSound: "screen_step fl mem e (l, st) (initSound l, st)"
| step_destory: "screen_step fl mem e (l, st) (destory l, st)"
| step_destorySound: "screen_step fl mem e (l, st) (destorySound l, st)"
| step_sendall: "screen_sendall (live_source e) junk l st = Some (l', st') \<Longrightarrow> screen_step fl mem e (l, st) (l', st')"
| step_liveall: "screen_liveall fl lp (live_source e) junk l st = Some (l', st') \<Longrightarrow> screen_step fl mem e (l, st) (l', st')"
| step_save: "screen_save dev fresh l = Some (l', r) \<Longrightarrow> screen_step fl mem e (l, st) (l', st)"
| step_sendsound: "screen_sendsound dev' (live_source e) junk l st = Some (l', st') \<Longrightarrow> screen_step fl mem e (l, st) (l', st')"

inductive screen_reach :: "(real \<Rightarrow> real) \<Rightarrow> picture \<Rightarrow> client_env \<Rightarrow> live_f \<times> client \<times> conn \<Rightarrow> bool"
  for fl :: "real \<Rightarrow> real" and mem :: picture and e :: client_env where
  reach_start: "screen_reach fl mem e (live_f_init, st)"
| reach_step: "screen_reach fl mem e x \<Longrightarrow> screen_step fl mem e x y \<Longrightarrow> screen_reach fl mem e y"

definition stale :: "(real \<Rightarrow> real) \<Rightarrow> picture \<Rightarrow> boardcast_t \<Rightarrow> bool" where
  "stale fl mem b \<longleftrightarrow> buffer b = mem \<and> scaled fl b \<and> length (ulog b) = 1000 \<and> list_all (\<lambda>u. times u = 0) (ulog b)"

lemma stale_init: "unat (xres s) \<le> 2 ^ 24 \<Longrightarrow> unat (yres s) \<le> 2 ^ 24 \<Longrightarrow> length cts = 1000 \<Longrightarrow> stale fl mem (boardcast_init fl cts mem s)"
  by (simp add: stale_def boardcast_init_def scaled_def list_all_iff)

lemma stale_more [simp]: "stale fl mem (b\<lparr>btimes := t\<rparr>) = stale fl mem b"
  by (simp add: stale_def scaled_def)

lemma stale_save: "stale fl mem b \<Longrightarrow> save dev fresh (shotbuf b) = (r, s) \<Longrightarrow> stale fl mem (b\<lparr>shotbuf := s\<rparr>)"
  by (auto simp: stale_def scaled_def save_def readbuffer_def Let_def)

lemma screen_step_stale:
  assumes "screen_step fl mem e x y" "float_rounding fl" "\<And>b. bd (fst x) = Some b \<Longrightarrow> stale fl mem b"
  shows "bd (fst y) = Some b \<Longrightarrow> stale fl mem b"
  using assms(1,3)
proof (induction rule: screen_step.induct)
  case (step_init s cts l st)
  then show ?case by (auto simp: screen_init_def stale_init split: if_splits)
next
  case (step_liveall lp junk l st l' st')
  show ?case
  proof (cases "bd l")
    case (Some b0)
    then have "stale fl mem b0" using step_liveall.prems by simp
    then have "scaled fl b0" by (simp add: stale_def)
    from step_liveall.hyps Some have "l' = l\<lparr>bd := Some (b0\<lparr>btimes := btimes b0 + 1\<rparr>)\<rparr>"
      by (simp add: screen_liveall_def liveshot_eq [OF assms(2) \<open>scaled fl b0\<close>])
    with step_liveall.prems(1) \<open>stale fl mem b0\<close> show ?thesis by auto
  qed (use step_liveall in \<open>auto simp: screen_liveall_def\<close>)
next
  case (step_save dev fresh l l' r st)
  then show ?case by (auto simp: screen_save_def stale_save split: option.splits prod.splits)
qed (auto simp: initSound_def destory_def destorySound_def screen_sendall_def screen_sendsound_def split: option.splits prod.splits if_splits)

lemma screen_reach_stale:
  assumes "screen_reach fl mem e x" "float_rounding fl" "bd (fst x) = Some b"
  shows "stale fl mem b"
  using assms(1,3)
proof (induction arbitrary: b rule: screen_reach.induct)
  case (reach_step x y)
  then show ?case using screen_step_stale [OF reach_step.hyps(2) assms(2)] by blast
qed (simp add: live_f_init_def)

lemma all_chunks_inside: "list_all (\<lambda>(x, y). x < 40 \<and> y < 25) (List.product [0..<40] [0..<25])"
  by (auto simp: list_all_iff)

text \<open>C25. The screen is never broadcast: after any calls of the switches the picture that \<open>sendall\<close> sends is the memory that
  was there when the broadcast was created, because only pixels that do not exist would be copied; and after the first
  \<open>liveall\<close> the next ones send nothing and leave the state.\<close>

theorem screen_never_broadcast:
  assumes "screen_reach fl mem e (l, st)" "float_rounding fl" "bd l = Some b"
  shows "screen_sendall (live_source e) junk l st = Some (l, sendall (live_source e) mem junk st) \<and>
    (btimes b \<noteq> 0 \<longrightarrow> screen_liveall fl lp (live_source e) junk l st = Some (l\<lparr>bd := Some (b\<lparr>btimes := btimes b + 1\<rparr>)\<rparr>, st))"
proof -
  have s: "stale fl mem b" using screen_reach_stale [OF assms(1,2)] assms(3) by simp
  then have "scaled fl b" "buffer b = mem" "length (ulog b) = 1000" "list_all (\<lambda>u. times u = 0) (ulog b)" by (auto simp: stale_def)
  moreover have "list_all (\<lambda>u. times u \<noteq> btimes b) (ulog b)" if "btimes b \<noteq> 0"
    using that \<open>list_all (\<lambda>u. times u = 0) (ulog b)\<close> by (auto simp: list_all_iff)
  ultimately show ?thesis
    using assms(3) chunk_loop_nothing [OF _ _ all_chunks_inside, of b]
    by (auto simp: screen_sendall_def screen_liveall_def liveshot_eq [OF assms(2)] simp del: upt_rec_numeral)
qed

section \<open>The text for browsers\<close>

text \<open>A reader of the text: two digits for each colour, where a blank counts as zero.\<close>

definition read_2x :: "u8 \<Rightarrow> u8 \<Rightarrow> u8" where
  "read_2x a b = word_of_nat (16 * (if a = 32 then 0 else the (hex_val a)) + the (hex_val b))"

fun read_pixels :: "bytes \<Rightarrow> pixel list" where
  "read_pixels (a # b # _ # c # d # _ # f # g # _ # rest) = Pixel (read_2x a b) (read_2x c d) (read_2x f g) # read_pixels rest"
| "read_pixels rest = []"

lemma fmt_2x_read: "\<exists>x y. fmt_2x b = [x, y] \<and> read_2x x y = b"
proof (cases "unat b < 16")
  case True
  then have "fmt_2x b = [32, hex_char (unat b)]" by (simp add: fmt_2x_def hex_digits.simps)
  then show ?thesis using True by (simp add: read_2x_def hex_val_char)
next
  case False
  have "unat b < 256" using unsigned_less [of b] by simp
  then have d: "unat b div 16 < 16" by auto
  then have "fmt_2x b = [hex_char (unat b div 16), hex_char (unat b mod 16)]"
    using False by (simp add: fmt_2x_def hex_digits.simps [of "unat b"] hex_digits.simps [of "unat b div 16"])
  moreover have "hex_char (unat b div 16) \<noteq> 32" using hex_char_props [OF d] by simp
  ultimately show ?thesis
    using d by (simp add: read_2x_def hex_val_char del: of_nat_add of_nat_mult)
qed

lemma read_pixel_text: "read_pixels (pixel_text p @ rest) = p # read_pixels rest"
proof -
  obtain a b c d f g where "fmt_2x (pR p) = [a, b]" "read_2x a b = pR p" "fmt_2x (pG p) = [c, d]" "read_2x c d = pG p"
    "fmt_2x (pB p) = [f, g]" "read_2x f g = pB p"
    using fmt_2x_read by metis
  then show ?thesis by (simp add: pixel_text_def)
qed

text \<open>What a browser is told: the text of a packet has the pixels in a fixed place and they can be read back, the first
  three hundred of them whatever the packet holds.\<close>

theorem live_text_decoded:
  "read_pixels (drop 45 (live_text np)) = map (data_pixel np) [0..<300]"
proof -
  have "read_pixels (concat (map (\<lambda>j. pixel_text (data_pixel np j)) js)) = map (data_pixel np) js" for js
    by (induction js) (simp_all add: read_pixel_text)
  moreover have "drop 45 (live_text np) = concat (map (\<lambda>j. pixel_text (data_pixel np j)) [0..<300])"
    by (simp add: live_text_def length_fmt_8x lit_def del: upt_rec_numeral)
  ultimately show ?thesis by (simp only:)
qed

section \<open>Witnesses\<close>

definition sample_live_env :: client_env where
  "sample_live_env = \<lparr>cenv = sample_env\<lparr>respk_address := [1, 2, 3, 4, 5, 6, 7, 8]\<rparr>, rnd = (\<lambda>_. 0), md5 = (\<lambda>_. []), checkSign = False,
    autoboardcast = False, nodemode = False, junk_query = zero_query, junk_source = zero_source\<rparr>"

definition sample_shot :: shot where
  "sample_shot = \<lparr>xres = 600, yres = 500, bits_per_pixel = 16, data = []\<rparr>"

theorem broadcast_sends_pointers_witness:
  "sendall (live_source sample_live_env) (\<lambda>x y. Pixel 1 2 3) zero_source (sample_client, sample_conn ysdb_empty) =
     sendall (live_source sample_live_env) (\<lambda>x y. Pixel 4 5 6) zero_source (sample_client, sample_conn ysdb_empty) \<and>
   base (fst (sendall (live_source sample_live_env) (\<lambda>x y. Pixel 1 2 3) zero_source (sample_client, sample_conn ysdb_empty))) =
     (base sample_client)\<lparr>sent := sent (base sample_client) @
       replicate 2000 (Location (parIP (base sample_client)) (parPort (base sample_client)), take 8 (respk_address (cenv sample_live_env)))\<rparr>"
  by (rule broadcast_sends_pointers) (simp add: sample_live_env_def)


theorem screen_never_broadcast_witness:
  "\<exists>l. bd l = Some (boardcast_init (\<lambda>x. x) (replicate 1000 0) (\<lambda>x y. Pixel 1 2 3) sample_shot) \<and>
    screen_sendall (live_source sample_live_env) zero_source l (sample_client, sample_conn ysdb_empty) =
      Some (l, sendall (live_source sample_live_env) (\<lambda>x y. Pixel 1 2 3) zero_source (sample_client, sample_conn ysdb_empty))"
proof -
  let ?b = "boardcast_init (\<lambda>x. x) (replicate 1000 0) (\<lambda>x y. Pixel 1 2 3) sample_shot"
  let ?l = "screen_init ?b live_f_init"
  have "screen_reach (\<lambda>x. x) (\<lambda>x y. Pixel 1 2 3) sample_live_env (?l, sample_client, sample_conn ysdb_empty)"
    by (rule reach_step [OF reach_start], rule step_init) (simp_all add: sample_shot_def)
  moreover have "float_rounding (\<lambda>x. x)" by (simp add: float_rounding_def mono_def)
  moreover have "bd ?l = Some ?b" by (simp add: screen_init_def live_f_init_def)
  ultimately show ?thesis using screen_never_broadcast [of "\<lambda>x. x" _ sample_live_env ?l _ ?b zero_source] by blast
qed

end
