(* ===== verification/Textfilter.thy ===== *)
theory Textfilter
  imports YsDB
begin

text \<open>
  The text filters that \<^verbatim>\<open>core/main.cpp\<close> gives to scripts: \<open>pathfilter\<close>, \<open>sqlfilter\<close> and \<open>addslashes\<close>, each with the
  array it allocates.  An argument is a C string; the result is a C string too, and \<open>None\<close> is a store outside the array.

  The properties compare the filters with the readers they are meant for: a reader of string literals of SQL and
  one of literals with a backslash.
\<close>

section \<open>The filters\<close>

definition pathfilter :: "bytes \<Rightarrow> bytes" where
  "pathfilter s = map (\<lambda>c. if c = 47 then 95 else c) (cstr s)"

text \<open>The loop of \<open>sqlfilter\<close>: a quote is stored twice; \<open>bak\<close> is the array and \<open>j\<close> the position in it.\<close>

primrec sqlfilter_loop :: "bytes \<Rightarrow> nat \<Rightarrow> bytes \<Rightarrow> bytes option" where
  "sqlfilter_loop [] j bak = Some bak"
| "sqlfilter_loop (c # cs) j bak =
    (if c = 34 \<or> c = 39
     then (if j + 1 < length bak then sqlfilter_loop cs (j + 2) (bak[j := c, j + 1 := c]) else None)
     else if j < length bak then sqlfilter_loop cs (j + 1) (bak[j := c]) else None)"

definition sqlfilter :: "bytes \<Rightarrow> bytes option" where
  "sqlfilter s = (let str = cstr s in map_option cstr (sqlfilter_loop str 0 (replicate (length str * 2 + 1) 0)))"

text \<open>The loop of \<open>addslashes\<close> over the array \<open>ostr\<close>, which is not initialised: \<open>junk\<close> gives its contents.\<close>

primrec addslashes_loop :: "bytes \<Rightarrow> nat \<Rightarrow> bytes \<Rightarrow> bytes option" where
  "addslashes_loop [] j ostr = (if j < length ostr then Some (ostr[j := 0]) else None)"
| "addslashes_loop (c # cs) j ostr =
    (if c = 34 \<or> c = 92
     then (if j + 1 < length ostr then addslashes_loop cs (j + 2) (ostr[j := 92, j + 1 := c]) else None)
     else if j < length ostr then addslashes_loop cs (j + 1) (ostr[j := c]) else None)"

definition addslashes :: "(nat \<Rightarrow> bytes) \<Rightarrow> bytes \<Rightarrow> bytes option" where
  "addslashes junk s = (let str = cstr s in map_option cstr (addslashes_loop str 0 (junk (length str * 2 + 1))))"

section \<open>What the loops write\<close>

definition sql_escape :: "bytes \<Rightarrow> bytes" where
  "sql_escape s = concat (map (\<lambda>c. if c = 34 \<or> c = 39 then [c, c] else [c]) s)"

definition slash_escape :: "bytes \<Rightarrow> bytes" where
  "slash_escape s = concat (map (\<lambda>c. if c = 34 \<or> c = 92 then [92, c] else [c]) s)"

lemma length_escapes: "length (sql_escape s) \<le> 2 * length s" "length (slash_escape s) \<le> 2 * length s"
  by (induction s) (auto simp: sql_escape_def slash_escape_def)

lemma sqlfilter_loop_eq:
  "length pre = j \<Longrightarrow> 2 * length s \<le> length suf \<Longrightarrow>
    sqlfilter_loop s j (pre @ suf) = Some (pre @ sql_escape s @ drop (length (sql_escape s)) suf)"
proof (induction s arbitrary: j pre suf)
  case (Cons c s)
  obtain a b suf' where suf: "suf = a # b # suf'" using Cons.prems(2) by (cases suf; cases "tl suf") auto
  show ?case
  proof (cases "c = 34 \<or> c = 39")
    case True
    then show ?thesis
      using Cons.IH [of "pre @ [c, c]" "j + 2" suf'] Cons.prems
      by (auto simp: suf sql_escape_def list_update_append)
  next
    case False
    then show ?thesis
      using Cons.IH [of "pre @ [c]" "j + 1" "b # suf'"] Cons.prems
      by (auto simp: suf sql_escape_def list_update_append)
  qed
qed (simp add: sql_escape_def)

lemma addslashes_loop_eq:
  "length pre = j \<Longrightarrow> 2 * length s < length suf \<Longrightarrow>
    \<exists>rest. addslashes_loop s j (pre @ suf) = Some (pre @ slash_escape s @ 0 # rest)"
proof (induction s arbitrary: j pre suf)
  case Nil
  then show ?case by (cases suf) (auto simp: slash_escape_def list_update_append)
next
  case (Cons c s)
  obtain a b suf' where suf: "suf = a # b # suf'" using Cons.prems(2) by (cases suf; cases "tl suf") auto
  show ?case
  proof (cases "c = 34 \<or> c = 92")
    case True
    then show ?thesis
      using Cons.IH [of "pre @ [92, c]" "j + 2" suf'] Cons.prems
      by (auto simp: suf slash_escape_def list_update_append)
  next
    case False
    then show ?thesis
      using Cons.IH [of "pre @ [c]" "j + 1" "b # suf'"] Cons.prems
      by (auto simp: suf slash_escape_def list_update_append)
  qed
qed

lemma cstr_none: "0 \<notin> set s \<Longrightarrow> cstr (s @ 0 # rest) = s" "0 \<notin> set s \<Longrightarrow> cstr s = s"
  by (induction s) (auto simp: cstr_def)

lemma zero_notin_cstr: "0 \<notin> set (cstr s)"
  by (auto simp: cstr_def dest: set_takeWhileD)

lemma zero_notin_escapes: "0 \<notin> set s \<Longrightarrow> 0 \<notin> set (sql_escape s)" "0 \<notin> set s \<Longrightarrow> 0 \<notin> set (slash_escape s)"
  by (auto simp: sql_escape_def slash_escape_def split: if_splits)

lemma sqlfilter_eq: "sqlfilter s = Some (sql_escape (cstr s))"
proof -
  let ?s = "cstr s"
  let ?suf = "replicate (length ?s * 2 + 1) (0 :: u8)"
  have "sqlfilter_loop ?s 0 ?suf = Some (sql_escape ?s @ drop (length (sql_escape ?s)) ?suf)"
    using sqlfilter_loop_eq [of "[]" 0 ?s ?suf] by simp
  moreover obtain n where "drop (length (sql_escape ?s)) ?suf = 0 # replicate n 0"
    using length_escapes(1) [of ?s] unfolding drop_replicate
    by (cases "length ?s * 2 + 1 - length (sql_escape ?s)") auto
  ultimately show ?thesis
    by (simp add: sqlfilter_def Let_def cstr_none zero_notin_escapes zero_notin_cstr)
qed

lemma addslashes_eq: "length (junk (length (cstr s) * 2 + 1)) = length (cstr s) * 2 + 1 \<Longrightarrow> addslashes junk s = Some (slash_escape (cstr s))"
  using addslashes_loop_eq [of "[]" 0 "cstr s" "junk (length (cstr s) * 2 + 1)"]
  by (auto simp: addslashes_def cstr_none zero_notin_escapes zero_notin_cstr)

section \<open>Readers of literals\<close>

text \<open>A string literal of SQL after its opening quote \<open>q\<close>: two quotes are one, a single one ends the literal.  The
  result is the text and what follows.\<close>

fun sql_literal :: "u8 \<Rightarrow> bytes \<Rightarrow> (bytes \<times> bytes) option" where
  "sql_literal q [] = None"
| "sql_literal q (c # cs) =
    (if c = q
     then (case cs of
            d # ds \<Rightarrow> if d = q then map_option (apfst (Cons q)) (sql_literal q ds) else Some ([], cs)
          | [] \<Rightarrow> Some ([], []))
     else map_option (apfst (Cons c)) (sql_literal q cs))"

text \<open>A literal with backslashes after its opening quote.\<close>

fun slash_literal :: "bytes \<Rightarrow> (bytes \<times> bytes) option" where
  "slash_literal [] = None"
| "slash_literal (c # cs) =
    (if c = 34 then Some ([], cs)
     else if c = 92 then (case cs of d # ds \<Rightarrow> map_option (apfst (Cons d)) (slash_literal ds) | [] \<Rightarrow> None)
     else map_option (apfst (Cons c)) (slash_literal cs))"

text \<open>The text a quote \<open>q\<close> leaves of a filtered string: the other kind of quote stays doubled.\<close>

definition other_doubled :: "u8 \<Rightarrow> bytes \<Rightarrow> bytes" where
  "other_doubled q s = concat (map (\<lambda>c. if (c = 34 \<or> c = 39) \<and> c \<noteq> q then [c, c] else [c]) s)"

lemma sql_literal_escape:
  assumes "q = 34 \<or> q = 39" "rest = [] \<or> hd rest \<noteq> q"
  shows "sql_literal q (sql_escape s @ q # rest) = Some (other_doubled q s, rest)"
proof (induction s)
  case Nil
  show ?case using assms(2) by (cases rest) (auto simp: sql_escape_def other_doubled_def)
next
  case (Cons c s)
  then show ?case using assms(1) by (auto simp: sql_escape_def other_doubled_def)
qed

text \<open>C34. No injection through \<open>sqlfilter\<close>: between two quotes of either kind the filtered text is one literal that ends at
  the closing quote, whatever the text and whatever follows; the database gets the text as it was, except that quotes of the
  other kind are doubled in it.\<close>

theorem sqlfilter_no_injection:
  assumes "q = 34 \<or> q = 39" "rest = [] \<or> hd rest \<noteq> q"
  shows "\<exists>f. sqlfilter s = Some f \<and> sql_literal q (f @ q # rest) = Some (other_doubled q (cstr s), rest)"
  using sql_literal_escape [OF assms] by (simp add: sqlfilter_eq)

lemma slash_literal_escape: "slash_literal (slash_escape s @ 34 # rest) = Some (s, rest)"
  by (induction s) (auto simp: slash_escape_def)

text \<open>\<open>addslashes\<close> can be undone: between double quotes the escaped text reads back as the text it was made from, and
  ends at the closing quote.\<close>

theorem addslashes_roundtrip:
  assumes "\<And>n. length (junk n) = n"
  shows "\<exists>f. addslashes junk s = Some f \<and> slash_literal (f @ 34 # rest) = Some (cstr s, rest)"
  using assms slash_literal_escape by (simp add: addslashes_eq)

text \<open>A filtered path is one name: no separator is left in it.\<close>

lemma pathfilter_one_name: "47 \<notin> set (pathfilter s) \<and> length (pathfilter s) = length (cstr s)"
  by (auto simp: pathfilter_def)

theorem sqlfilter_no_injection_witness:
  "\<exists>f. sqlfilter (lit ''x' OR ''@ [34, 0]) = Some f \<and>
    sql_literal 39 (f @ 39 # lit '' AND y'') = Some (other_doubled 39 (cstr (lit ''x' OR ''@ [34, 0])), lit '' AND y'')"
  by (rule sqlfilter_no_injection) (simp_all add: lit_def)

theorem addslashes_roundtrip_witness:
  "\<exists>f. addslashes (\<lambda>n. replicate n 7) (lit ''say '' @ [34, 92]) = Some f \<and>
    slash_literal (f @ 34 # lit '';'') = Some (cstr (lit ''say '' @ [34, 92]), lit '';'')"
  by (rule addslashes_roundtrip) simp

end
