(* ===== verification/Luaapi.thy ===== *)
theory Luaapi
  imports Textfilter Client_Props "HOL-Library.Sublist"
begin

text \<open>
  The functions that \<^verbatim>\<open>core/main.cpp\<close> registers for scripts: the table of global strings, the key-value data, keys, the
  requests of the client and the switches.

  The program has one database, one file cache and one sequence of random numbers.  The model keeps them in the client and
  in the server object; \<open>share\<close> copies them after every call, and the invariant \<open>one_world\<close> says that the
  copies agree.  A call of a script has a list of arguments and gives the results it pushes; \<open>lua_isstring\<close> is true
  of integers too, as in Lua.
\<close>

section \<open>Arguments and results\<close>

datatype lua_arg = ANil | AInt int | AStr bytes

datatype lua_out = ONil | OBool bool | OInt int | OStr bytes

text \<open>A call ends with its results, or it does not: \<open>Stuck\<close> with the reason.\<close>

datatype api_res = Results "lua_out list" | Stuck outcome

definition arg :: "lua_arg list \<Rightarrow> nat \<Rightarrow> lua_arg" where
  "arg as n = (if n \<le> length as \<and> n \<noteq> 0 then as ! (n - 1) else ANil)"

definition lua_isinteger :: "lua_arg \<Rightarrow> bool" where
  "lua_isinteger a = (case a of AInt _ \<Rightarrow> True | _ \<Rightarrow> False)"

definition lua_isstring :: "lua_arg \<Rightarrow> bool" where
  "lua_isstring a = (case a of ANil \<Rightarrow> False | _ \<Rightarrow> True)"

definition dec_int :: "int \<Rightarrow> bytes" where
  "dec_int i = (if i < 0 then 45 # dec_digits (nat (- i)) else dec_digits (nat i))"

definition lua_tostring :: "lua_arg \<Rightarrow> bytes" where
  "lua_tostring a = (case a of AStr s \<Rightarrow> cstr s | AInt i \<Rightarrow> dec_int i | ANil \<Rightarrow> [])"

text \<open>\<open>lua_tointeger\<close>, cut to 32 bits by the assignment to an \<open>int\<close>.\<close>

definition lua_toint :: "lua_arg \<Rightarrow> u32" where
  "lua_toint a = (case a of AInt i \<Rightarrow> word_of_int i | _ \<Rightarrow> 0)"

section \<open>Global strings\<close>

type_synonym lglobal = "bytes \<rightharpoonup> bytes"

definition lglobal_set :: "lua_arg list \<Rightarrow> lglobal \<Rightarrow> lglobal" where
  "lglobal_set as m =
    (if \<not> lua_isstring (arg as 1) \<or> \<not> lua_isstring (arg as 2) then m
     else m(lua_tostring (arg as 1) \<mapsto> lua_tostring (arg as 2)))"

definition lglobal_read :: "lua_arg list \<Rightarrow> lglobal \<Rightarrow> lua_out list" where
  "lglobal_read as m =
    (if \<not> lua_isstring (arg as 1) then []
     else case m (lua_tostring (arg as 1)) of None \<Rightarrow> [] | Some s \<Rightarrow> [OStr (cstr s)])"

definition lglobal_del :: "lua_arg list \<Rightarrow> lglobal \<Rightarrow> lglobal" where
  "lglobal_del as m =
    (if \<not> lua_isstring (arg as 1) then m
     else let k = lua_tostring (arg as 1) in if m k \<noteq> None then m(k := None) else m)"

section \<open>Key-value data\<close>

text \<open>\<open>lua_ldata_find\<close>: the loop over the iterator.  \<open>i\<close> counts only under a limit; \<open>rded\<close> is set by the first match.\<close>

primrec find_loop :: "int \<Rightarrow> int \<Rightarrow> bytes option \<Rightarrow> (bytes \<times> bytes) list \<Rightarrow> int \<Rightarrow> bool \<Rightarrow> bytes list" where
  "find_loop from1 limit pre [] i rded = []"
| "find_loop from1 limit pre (kv # it) i rded =
    (if limit > 0 \<and> i \<ge> limit then []
     else
       (let i = (if limit > 0 then i + 1 else i)
        in if i < from1 then find_loop from1 limit pre it i rded
           else if pre \<noteq> None \<and> \<not> prefix_match (the pre) (fst kv)
           then (if rded then [] else find_loop from1 limit pre it i rded)
           else cstr (snd kv) # find_loop from1 limit pre it i True))"

text \<open>The entries of the store from the first key that is not below the given one, in the order of the iterator.\<close>

definition ldata_find :: "(bytes \<times> bytes) list \<Rightarrow> (bytes \<Rightarrow> bytes \<Rightarrow> bool) \<Rightarrow> lua_arg list \<Rightarrow> bytes list option" where
  "ldata_find entries below as =
    (if \<not> lua_isstring (arg as 1) \<or> \<not> lua_isinteger (arg as 2) \<or> \<not> lua_isinteger (arg as 3) \<or> \<not> lua_isstring (arg as 4)
     then None
     else
       (let pre = (if lua_tostring (arg as 4) = [] then None else Some (lua_tostring (arg as 4)));
            it = (if lua_tostring (arg as 1) = [] then entries else dropWhile (\<lambda>kv. below (fst kv) (lua_tostring (arg as 1))) entries);
            from1 = lua_toint (arg as 2); limit = from1 + lua_toint (arg as 3)
        in Some (find_loop (sint from1) (sint limit) pre it 0 False)))"

section \<open>State\<close>

record config =
  nodemode_on :: bool
  autoboardcast_on :: bool
  liveputout_on :: bool
  soundputout_on :: bool
  checkSign_on :: bool
  AllowShell_on :: bool

record api =
  glob :: lglobal
  cl :: client
  srv :: client
  cfg :: config
  clientdisabled :: bool
  localfiles :: "bytes \<rightharpoonup> bytes"

text \<open>What the functions read from outside: the environment of the requests, \<open>inet_addr\<close>, the iterator of the store and the
  order of its keys, and fresh memory.\<close>

record api_env =
  aenv :: client_env
  inet_addr :: "bytes \<Rightarrow> u32"
  iterate :: "kv \<Rightarrow> (bytes \<times> bytes) list"
  key_below :: "bytes \<Rightarrow> bytes \<Rightarrow> bool"
  fresh_mem :: "nat \<Rightarrow> bytes"
  junk_num :: u32

definition env_of :: "api_env \<Rightarrow> api \<Rightarrow> client_env" where
  "env_of e a = (aenv e)\<lparr>nodemode := nodemode_on (cfg a), autoboardcast := autoboardcast_on (cfg a), checkSign := checkSign_on (cfg a)\<rparr>"

definition share :: "client \<Rightarrow> client \<Rightarrow> client" where
  "share c d = d\<lparr>base := (base d)\<lparr>db := db (base c), files := files (base c)\<rparr>, seed := seed c\<rparr>"

definition one_world :: "api \<Rightarrow> bool" where
  "one_world a \<longleftrightarrow> db (base (srv a)) = db (base (cl a)) \<and> files (base (srv a)) = files (base (cl a)) \<and> seed (srv a) = seed (cl a)"

definition set_client :: "client \<Rightarrow> api \<Rightarrow> api" where
  "set_client c a = a\<lparr>cl := c, srv := share c (srv a)\<rparr>"

definition set_server :: "client \<Rightarrow> api \<Rightarrow> api" where
  "set_server c a = a\<lparr>srv := c, cl := share c (cl a)\<rparr>"

definition set_db :: "ysdb \<Rightarrow> api \<Rightarrow> api" where
  "set_db d a = set_client ((cl a)\<lparr>base := (base (cl a))\<lparr>db := d\<rparr>\<rparr>) a"

abbreviation the_db :: "api \<Rightarrow> ysdb" where "the_db a \<equiv> db (base (cl a))"

section \<open>Requests of the client\<close>

text \<open>\<open>if(clientdisabled)return 0;\<close>, then the request between \<open>lock\<close> and \<open>unlock\<close>.\<close>

definition with_client :: "(client \<Rightarrow> api_res \<times> client) \<Rightarrow> api \<Rightarrow> api_res \<times> api" where
  "with_client f a =
    (if clientdisabled a then (Results [], a) else (case f (cl a) of (r, c) \<Rightarrow> (r, set_client c a)))"

text \<open>The loops that copy a name of at most eight characters into an array of the stack, whose contents are \<open>mem\<close>: a shorter name leaves
  what is behind its terminator.\<close>

definition short_name :: "bytes \<Rightarrow> lua_arg \<Rightarrow> bytes" where
  "short_name mem a =
    (let s = lua_tostring a in if 8 \<le> length s then take 8 s else s @ 0 # drop (length s + 1) (take 8 mem))"

definition no_result :: "'a \<times> client \<Rightarrow> api_res \<times> client" where
  "no_result p = (Results [], snd p)"

definition bool_result :: "bool \<times> client \<Rightarrow> api_res \<times> client" where
  "bool_result p = (Results [OBool (fst p)], snd p)"

definition outcome_result :: "outcome \<times> client \<Rightarrow> api_res \<times> client" where
  "outcome_result p = (case fst p of Ret _ \<Rightarrow> (Results [], snd p) | out \<Rightarrow> (Stuck out, snd p))"

definition lua_upload :: "api_env \<Rightarrow> lua_arg list \<Rightarrow> api \<Rightarrow> api_res \<times> api" where
  "lua_upload e as a =
    (if \<not> lua_isstring (arg as 1) \<or> \<not> lua_isstring (arg as 2) then (Results [], a)
     else with_client (\<lambda>c.
       case localfiles a (lua_tostring (arg as 2)) of
         None \<Rightarrow> (Stuck Fault, c)
       | Some content \<Rightarrow> (Results [], upload (env_of e a) (short_name (fresh_mem e 9) (arg as 1)) content c)) a)"

definition lua_download :: "api_env \<Rightarrow> lua_arg list \<Rightarrow> api \<Rightarrow> api_res \<times> api" where
  "lua_download e as a =
    (if clientdisabled a \<or> \<not> lua_isstring (arg as 1) \<or> \<not> lua_isstring (arg as 2) then (Results [], a)
     else
       (case download (env_of e a) (short_name (fresh_mem e 9) (arg as 1)) (cl a) of
         None \<Rightarrow> (Stuck Hang, a)
       | Some (bs, c) \<Rightarrow>
           (let path = lua_tostring (arg as 2); old = (case localfiles a path of None \<Rightarrow> [] | Some b \<Rightarrow> b)
            in (Results [], (set_client c a)\<lparr>localfiles := (localfiles a)(path \<mapsto> old @ bs)\<rparr>))))"

definition lua_del :: "api_env \<Rightarrow> lua_arg list \<Rightarrow> api \<Rightarrow> api_res \<times> api" where
  "lua_del e as a =
    (if \<not> lua_isstring (arg as 1) then (Results [], a)
     else with_client (\<lambda>c. no_result (del (short_name (fresh_mem e 9) (arg as 1)) (env_of e a) c)) a)"

text \<open>\<open>lua_setPwd\<close>: the second branch is for an integer, which the first one has already taken.  Without either the function falls off
  its end.\<close>

definition lua_setPwd :: "api_env \<Rightarrow> lua_arg list \<Rightarrow> api \<Rightarrow> api_res \<times> api" where
  "lua_setPwd e as a =
    (if clientdisabled a then (Results [], a)
     else if lua_isstring (arg as 1)
     then (if \<not> lua_isstring (arg as 2) then (Results [], a)
           else with_client (\<lambda>c. no_result (setPwd (lua_tostring (arg as 1)) (lua_tostring (arg as 2)) (env_of e a) c)) a)
     else if lua_isinteger (arg as 1)
     then (if \<not> lua_isstring (arg as 2) then (Results [], a)
           else with_client (\<lambda>c. no_result (setPwd_of (lua_tostring (arg as 2)) (lua_toint (arg as 1)) (env_of e a) c)) a)
     else (Stuck Fault, a))"

definition lua_newUser :: "api_env \<Rightarrow> lua_arg list \<Rightarrow> api \<Rightarrow> api_res \<times> api" where
  "lua_newUser e as a =
    (if \<not> lua_isinteger (arg as 1) then (Results [], a)
     else with_client (\<lambda>c. no_result (client_newUser (lua_toint (arg as 1)) (env_of e a) c)) a)"

definition newSrc_init :: "api_env \<Rightarrow> lua_arg list \<Rightarrow> api \<Rightarrow> api_res \<times> api" where
  "newSrc_init e as a =
    (if \<not> lua_isstring (arg as 1) then (Results [], a)
     else with_client (\<lambda>c. no_result (newSrc (lua_tostring (arg as 1)) (env_of e a) c)) a)"

text \<open>\<open>lua_cps\<close>: the server follows only when the client has changed.\<close>

definition lua_cps :: "api_env \<Rightarrow> lua_arg list \<Rightarrow> api \<Rightarrow> api_res \<times> api" where
  "lua_cps e as a =
    (if clientdisabled a \<or> \<not> lua_isstring (arg as 1) \<or> \<not> lua_isinteger (arg as 2) then (Results [], a)
     else
       (let addr = inet_addr e (lua_tostring (arg as 1)); pt = ucast (lua_toint (arg as 2)); t = now (cenv (env_of e a))
        in case changeParentServer t (base (cl a)) addr pt of
             (Ret True, c) \<Rightarrow>
               (let a = set_client ((cl a)\<lparr>base := c\<rparr>) a
                in case changeParentServer t (base (srv a)) addr pt of
                     (Ret r, c) \<Rightarrow> (Results [OBool r], set_server ((srv a)\<lparr>base := c\<rparr>) a)
                   | (out, c) \<Rightarrow> (Stuck out, set_server ((srv a)\<lparr>base := c\<rparr>) a))
           | (Ret False, c) \<Rightarrow> (Results [OBool False], set_client ((cl a)\<lparr>base := c\<rparr>) a)
           | (out, c) \<Rightarrow> (Stuck out, set_client ((cl a)\<lparr>base := c\<rparr>) a)))"

definition set_user :: "u32 \<Rightarrow> bytes \<Rightarrow> client \<Rightarrow> client" where
  "set_user uid pwd c = c\<lparr>base := (base c)\<lparr>myuserid := uid, mypassword := wristr pwd (mypassword (base c))\<rparr>\<rparr>"

definition lua_ssu :: "api_env \<Rightarrow> lua_arg list \<Rightarrow> api \<Rightarrow> api_res \<times> api" where
  "lua_ssu e as a =
    (if \<not> lua_isstring (arg as 2) \<or> \<not> lua_isinteger (arg as 1) then (Results [], a)
     else case outcome_result (client_login (env_of e a) (set_user (lua_toint (arg as 1)) (lua_tostring (arg as 2)) (srv a))) of
       (r, c) \<Rightarrow> (r, set_server c a))"

definition lua_scu :: "api_env \<Rightarrow> lua_arg list \<Rightarrow> api \<Rightarrow> api_res \<times> api" where
  "lua_scu e as a =
    (if \<not> lua_isstring (arg as 2) \<or> \<not> lua_isinteger (arg as 1) then (Results [], a)
     else with_client (\<lambda>c. outcome_result (client_login (env_of e a) (set_user (lua_toint (arg as 1)) (lua_tostring (arg as 2)) c))) a)"

definition lua_connectUser :: "api_env \<Rightarrow> lua_arg list \<Rightarrow> api \<Rightarrow> api_res \<times> api" where
  "lua_connectUser e as a =
    (if \<not> lua_isinteger (arg as 1) \<or> \<not> lua_isstring (arg as 2) \<or> \<not> lua_isinteger (arg as 3) then (Results [], a)
     else (Results [], set_server ((srv a)\<lparr>base := connectUser (base (srv a)) (lua_toint (arg as 1))
       (inet_addr e (lua_tostring (arg as 2))) (ucast (lua_toint (arg as 3)))\<rparr>) a))"

text \<open>\<open>lua_connectToUser\<close> and \<open>lua_becomeNode\<close> end in \<open>inttoip\<close>, which takes the address for a pointer and reads from it.\<close>

definition lua_connectToUser :: "api_env \<Rightarrow> lua_arg list \<Rightarrow> api \<Rightarrow> api_res \<times> api" where
  "lua_connectToUser e as a =
    (if \<not> lua_isinteger (arg as 1) then (Results [], a)
     else with_client (\<lambda>c. case connectToUser (env_of e a) c (lua_toint (arg as 1)) of (_, _, c) \<Rightarrow> (Stuck Fault, c)) a)"

definition lua_becomeNode :: "api_env \<Rightarrow> lua_arg list \<Rightarrow> api \<Rightarrow> api_res \<times> api" where
  "lua_becomeNode e as a =
    (if clientdisabled a \<or> \<not> lua_isinteger (arg as 1) then (Results [], a)
     else (case connectToUser (env_of e a) (srv a) (lua_toint (arg as 1)) of (_, _, c) \<Rightarrow> (Stuck Fault, set_server c a)))"

definition goLastServer :: "lua_arg list \<Rightarrow> api \<Rightarrow> api_res \<times> api" where
  "goLastServer as a = with_client (\<lambda>c. case goLast (base c) of (out, b) \<Rightarrow> outcome_result (out, c\<lparr>base := b\<rparr>)) a"

definition lua_callPlus :: "api_env \<Rightarrow> lua_arg list \<Rightarrow> api \<Rightarrow> api_res \<times> api" where
  "lua_callPlus e as a =
    with_client (\<lambda>c.
      let s = (\<lambda>n. if lua_isstring (arg as n) then Some (lua_tostring (arg as n)) else None);
          i = (\<lambda>n. if lua_isinteger (arg as n) then Some (lua_toint (arg as n)) else None)
      in case callPlus (s 1) (s 2) (i 3) (i 4) (i 5) (i 6) (env_of e a) c of
           (None, c) \<Rightarrow> (Stuck Fault, c)
         | (Some None, c) \<Rightarrow> (Results [], c)
         | (Some (Some (s1, s2, n1, n2, n3, n4)), c) \<Rightarrow>
             (Results ([OStr s1, OStr s2] @ map (\<lambda>n. OInt (sint n)) [n1, n2, n3, n4]), c)) a"

section \<open>Keys\<close>

text \<open>\<open>lua_setkey\<close>: sixteen bytes of the string, filled up with zeros, for the client or for a user.\<close>

definition key_of :: "bytes \<Rightarrow> bytes" where
  "key_of s = take 16 s @ replicate (16 - length s) 0"

definition lua_setkey :: "lua_arg list \<Rightarrow> api \<Rightarrow> api_res \<times> api" where
  "lua_setkey as a =
    (if clientdisabled a \<or> \<not> lua_isstring (arg as 1) then (Results [], a)
     else
       (let k = key_of (lua_tostring (arg as 1))
        in (Results [], if lua_isinteger (arg as 2) then set_db (setkey (the_db a) (lua_toint (arg as 2)) k) a
                        else set_client ((cl a)\<lparr>key := k\<rparr>) a)))"

definition lua_getkey :: "api_env \<Rightarrow> lua_arg list \<Rightarrow> api \<Rightarrow> api_res \<times> api" where
  "lua_getkey e as a =
    (let k = (if lua_isinteger (arg as 1)
              then snd (getkey (the_db a) (junk_base64 (cenv (aenv e))) (lua_toint (arg as 1)) (junk_key (cenv (aenv e))))
              else key (cl a))
     in (Results [OStr (cstr (take 16 k))], a))"

section \<open>All functions\<close>

datatype binding =
  ClientUpload | ClientDownload | ClientDel | ClientSetPwd | ClientNewUser | ChangeParentServer | ConnectUser | ConnectToUser
  | BecomeNode | GetKey | SetKey | ServerUpdateKey | GetParentHash | GoLastServer | ClientLogin | NodeMode bool
  | AutoboardcastMode bool | LiveputoutMode bool | SoundMode bool | GLOBAL_read | GLOBAL_set | GLOBAL_delete | LDATA_find
  | LDATA_read | LDATA_set | LDATA_delete | Hex2num | DelUser | ClientGetUniKey | ClientRegister | CheckSign bool | LogUnique
  | UniqueExist | ClientSrcInit | AllowShellMode bool | CanQuery | UpdateKeyCall | GlobalMode bool | CryptMode bool | LiveAdd | LiveClean
  | CallPlusCall | SetServerUser | SetClientUser | Pathfilter | Sqlfilter | Addslashes

definition set_cfg :: "(config \<Rightarrow> config) \<Rightarrow> api \<Rightarrow> api_res \<times> api" where
  "set_cfg f a = (Results [], a\<lparr>cfg := f (cfg a)\<rparr>)"

definition both :: "(client \<Rightarrow> client) \<Rightarrow> api \<Rightarrow> api_res \<times> api" where
  "both f a = (Results [], a\<lparr>cl := f (cl a), srv := f (srv a)\<rparr>)"

definition str_fn :: "lua_arg list \<Rightarrow> (bytes \<Rightarrow> bytes option) \<Rightarrow> api_res" where
  "str_fn as f =
    (if \<not> lua_isstring (arg as 1) then Results []
     else case f (lua_tostring (arg as 1)) of None \<Rightarrow> Stuck Fault | Some s \<Rightarrow> Results [OStr s])"

fun call :: "api_env \<Rightarrow> binding \<Rightarrow> lua_arg list \<Rightarrow> api \<Rightarrow> api_res \<times> api" where
  "call e ClientUpload as a = lua_upload e as a"
| "call e ClientDownload as a = lua_download e as a"
| "call e ClientDel as a = lua_del e as a"
| "call e ClientSetPwd as a = lua_setPwd e as a"
| "call e ClientNewUser as a = lua_newUser e as a"
| "call e ChangeParentServer as a = lua_cps e as a"
| "call e ConnectUser as a = lua_connectUser e as a"
| "call e ConnectToUser as a = lua_connectToUser e as a"
| "call e BecomeNode as a = lua_becomeNode e as a"
| "call e GetKey as a = lua_getkey e as a"
| "call e SetKey as a = lua_setkey as a"
| "call e ServerUpdateKey as a = (Results [], a\<lparr>srv := (srv a)\<lparr>key := key (cl a)\<rparr>\<rparr>)"
| "call e GetParentHash as a = (Results [OStr (cstr (parhash (cl a)))], a)"
| "call e GoLastServer as a = goLastServer as a"
| "call e ClientLogin as a = with_client (\<lambda>c. outcome_result (client_login (env_of e a) c)) a"
| "call e (NodeMode b) as a = set_cfg (\<lambda>c. c\<lparr>nodemode_on := b\<rparr>) a"
| "call e (AutoboardcastMode b) as a = set_cfg (\<lambda>c. c\<lparr>autoboardcast_on := b\<rparr>) a"
| "call e (LiveputoutMode b) as a = set_cfg (\<lambda>c. c\<lparr>liveputout_on := b\<rparr>) a"
| "call e (SoundMode b) as a = set_cfg (\<lambda>c. c\<lparr>soundputout_on := b\<rparr>) a"
| "call e (CheckSign b) as a = set_cfg (\<lambda>c. c\<lparr>checkSign_on := b\<rparr>) a"
| "call e (AllowShellMode b) as a = set_cfg (\<lambda>c. c\<lparr>AllowShell_on := b\<rparr>) a"
| "call e GLOBAL_read as a = (Results (lglobal_read as (glob a)), a)"
| "call e GLOBAL_set as a = (Results [], a\<lparr>glob := lglobal_set as (glob a)\<rparr>)"
| "call e GLOBAL_delete as a = (Results [], a\<lparr>glob := lglobal_del as (glob a)\<rparr>)"
| "call e LDATA_find as a =
    (case ldata_find (iterate e (ldata (the_db a))) (key_below e) as of
      None \<Rightarrow> (Results [], a) | Some vs \<Rightarrow> (Results (map OStr vs), a))"
| "call e LDATA_read as a =
    (if \<not> lua_isstring (arg as 1) then (Results [], a)
     else (Results [OStr (case Get (ldata (the_db a)) (lua_tostring (arg as 1)) of None \<Rightarrow> [] | Some v \<Rightarrow> cstr v)], a))"
| "call e LDATA_set as a =
    (if \<not> lua_isstring (arg as 1) \<or> \<not> lua_isstring (arg as 2) then (Results [], a)
     else (Results [OBool True],
       set_db ((the_db a)\<lparr>ldata := Put (ldata (the_db a)) (lua_tostring (arg as 1)) (lua_tostring (arg as 2))\<rparr>) a))"
| "call e LDATA_delete as a =
    (if \<not> lua_isstring (arg as 1) then (Results [], a)
     else (Results [OBool True], set_db ((the_db a)\<lparr>ldata := Delete (ldata (the_db a)) (lua_tostring (arg as 1))\<rparr>) a))"
| "call e Hex2num as a =
    (if \<not> lua_isstring (arg as 1) then (Results [], a)
     else (Results [OInt (sint (str2int (lua_tostring (arg as 1)) (junk_num e)))], a))"
| "call e DelUser as a =
    (if \<not> lua_isinteger (arg as 1) then (Results [], a) else (Results [], set_db (delUser (the_db a) (lua_toint (arg as 1))) a))"
| "call e ClientGetUniKey as a = with_client (\<lambda>c. bool_result (getUniKey (env_of e a) c)) a"
| "call e ClientRegister as a =
    (if lua_isstring (arg as 1) \<and> localfiles a (lua_tostring (arg as 1)) = None \<and> \<not> clientdisabled a then (Results [OBool False], a)
     else with_client (\<lambda>c. bool_result (reg (env_of e a) c)) a)"
| "call e LogUnique as a =
    (if \<not> lua_isinteger (arg as 1) \<or> \<not> lua_isinteger (arg as 2) then (Results [], a)
     else (case logunique (the_db a) (now (cenv (aenv e))) (lua_toint (arg as 1)) (lua_toint (arg as 2)) of
       (r, d) \<Rightarrow> (Results [OBool r], set_db d a)))"
| "call e UniqueExist as a =
    (if \<not> lua_isinteger (arg as 1) \<or> \<not> lua_isinteger (arg as 2) then (Results [], a)
     else (Results [OBool (uniqueExist (the_db a) (lua_toint (arg as 1)) (lua_toint (arg as 2)))], a))"
| "call e ClientSrcInit as a = newSrc_init e as a"
| "call e CanQuery as a = (Results [OBool (\<not> clientdisabled a)], a)"
| "call e UpdateKeyCall as a = with_client (\<lambda>c. bool_result (updatekey (env_of e a) c)) a"
| "call e (GlobalMode b) as a = (Results [], a\<lparr>cl := (cl a)\<lparr>globalmode := (if b then 116 else 102)\<rparr>\<rparr>)"
| "call e (CryptMode b) as a = both (\<lambda>c. c\<lparr>iscrypt := b\<rparr>) a"
| "call e LiveAdd as a =
    (if \<not> lua_isstring (arg as 1) \<or> \<not> lua_isinteger (arg as 2) then (Results [], a)
     else (Results [], set_db (liveAdd (the_db a) (Location (inet_addr e (lua_tostring (arg as 1))) (ucast (lua_toint (arg as 2))))) a))"
| "call e LiveClean as a = (Results [], set_db (liveClean (the_db a)) a)"
| "call e CallPlusCall as a = lua_callPlus e as a"
| "call e SetServerUser as a = lua_ssu e as a"
| "call e SetClientUser as a = lua_scu e as a"
| "call e Pathfilter as a = (str_fn as (\<lambda>s. Some (pathfilter s)), a)"
| "call e Sqlfilter as a = (str_fn as sqlfilter, a)"
| "call e Addslashes as a = (str_fn as (addslashes (fresh_mem e)), a)"

section \<open>One world\<close>

lemma one_world_share [simp]: "one_world (set_client c a)" "one_world (set_server c a)" "one_world (set_db d a)"
  by (simp_all add: one_world_def set_client_def set_server_def set_db_def share_def)

lemma one_world_other [simp]:
  "one_world (a\<lparr>cfg := c\<rparr>) = one_world a" "one_world (a\<lparr>glob := g\<rparr>) = one_world a" "one_world (a\<lparr>localfiles := l\<rparr>) = one_world a"
  by (simp_all add: one_world_def)

lemma one_world_with_client [simp]: "one_world a \<Longrightarrow> one_world (snd (with_client f a))"
  by (simp add: with_client_def split: prod.split)

lemmas bindings = lua_upload_def lua_download_def lua_del_def lua_setPwd_def lua_newUser_def lua_cps_def lua_connectUser_def
  lua_connectToUser_def lua_becomeNode_def lua_getkey_def lua_setkey_def goLastServer_def newSrc_init_def lua_callPlus_def
  lua_ssu_def lua_scu_def set_cfg_def both_def str_fn_def Let_def

lemma call_one_world: "one_world a \<Longrightarrow> one_world (snd (call e f as a))"
  by (induction e f as a rule: call.induct)
    (auto simp: bindings split: option.split prod.split outcome.split bool.split, auto simp: one_world_def)

section \<open>While the client is in use\<close>

lemma set_server_keeps:
  "sent (base (cl (set_server c a))) = sent (base (cl a))" "inbox (base (cl (set_server c a))) = inbox (base (cl a))"
  "clientdisabled (set_server c a) = clientdisabled a"
  by (simp_all add: set_server_def share_def)

lemma set_db_keeps:
  "sent (base (cl (set_db d a))) = sent (base (cl a))" "inbox (base (cl (set_db d a))) = inbox (base (cl a))"
  "clientdisabled (set_db d a) = clientdisabled a"
  by (simp_all add: set_db_def set_client_def)

text \<open>While the live mode has the socket of the client, no function of a script uses it: none of them sends a packet through it or takes one
  that has arrived, and the client stays disabled.\<close>

theorem disabled_client_silent:
  assumes "clientdisabled a" "call e f as a = (r, a')"
  shows "sent (base (cl a')) = sent (base (cl a)) \<and> inbox (base (cl a')) = inbox (base (cl a)) \<and> clientdisabled a'"
proof -
  have off: "with_client g a = (Results [], a)" for g using assms(1) by (simp add: with_client_def)
  note keeps = set_server_keeps set_db_keeps
  show ?thesis
    using assms(2,1) off
    by (induction e f as a rule: call.induct)
      (simp_all add: bindings split: option.splits prod.splits if_splits, auto simp: keeps)
qed

section \<open>Searching\<close>


definition find_match :: "bytes option \<Rightarrow> bool \<Rightarrow> (bytes \<times> bytes) list \<Rightarrow> (bytes \<times> bytes) list" where
  "find_match pre rded xs =
    (case pre of
      None \<Rightarrow> xs
    | Some p \<Rightarrow>
        (let m = (\<lambda>kv. prefix_match p (fst kv)) in takeWhile m (if rded then xs else dropWhile (\<lambda>kv. \<not> m kv) xs)))"


lemma find_match_Nil [simp]: "find_match pre rded [] = []"
  by (cases pre) (auto simp: find_match_def Let_def)




text \<open>The order of the store, byte by byte.  In it the keys with a prefix follow each other.\<close>

fun key_less :: "bytes \<Rightarrow> bytes \<Rightarrow> bool" where
  "key_less xs [] = False"
| "key_less [] (y # ys) = True"
| "key_less (x # xs) (y # ys) = (x < y \<or> x = y \<and> key_less xs ys)"




text \<open>\<open>clientSetPwd\<close> with the number of a user does not reach the branch for it: the number becomes the new password of the caller.\<close>

lemma setPwd_number: "call e ClientSetPwd [AInt i, p] a = call e ClientSetPwd [AStr (dec_int i), p] a"
proof -
  have "x \<noteq> 0" if "x \<in> set (dec_digits n)" for x n using that dec_digits_props [of n] by fastforce
  then have "0 \<notin> set (dec_int i)" by (auto simp: dec_int_def)
  then show ?thesis
    by (simp add: lua_setPwd_def arg_def lua_isstring_def lua_tostring_def cstr_none(2))
qed

section \<open>Witnesses\<close>

definition sample_api_env :: api_env where
  "sample_api_env = \<lparr>aenv = \<lparr>cenv = sample_env, rnd = (\<lambda>_. 0), md5 = (\<lambda>_. []), checkSign = False, autoboardcast = False, nodemode = False,
      junk_query = zero_query, junk_source = zero_source\<rparr>, inet_addr = (\<lambda>_. 0),
    iterate = (\<lambda>_. [([97], [1]), ([98, 1], [2]), ([98, 2], [3, 0, 4]), ([99], [5])]), key_below = key_less, fresh_mem = (\<lambda>n. replicate n 7), junk_num = 0\<rparr>"

definition sample_api :: api where
  "sample_api = \<lparr>glob = Map.empty, cl = sample_client, srv = sample_client,
    cfg = \<lparr>nodemode_on = False, autoboardcast_on = False, liveputout_on = False, soundputout_on = False, checkSign_on = False, AllowShell_on = False\<rparr>,
    clientdisabled = True, localfiles = Map.empty\<rparr>"

theorem disabled_client_silent_witness:
  "\<exists>r a'. call sample_api_env SetServerUser [AInt 5, AStr [120]] sample_api = (r, a') \<and> sent (base (cl a')) = sent (base (cl sample_api)) \<and>
    inbox (base (cl a')) = inbox (base (cl sample_api)) \<and> clientdisabled a'"
proof -
  obtain r a' where c: "call sample_api_env SetServerUser [AInt 5, AStr [120]] sample_api = (r, a')" by fastforce
  have "clientdisabled sample_api" by (simp add: sample_api_def)
  from disabled_client_silent [OF this c] c show ?thesis by blast
qed


end
