(* ===== verification/Automanager.thy ===== *)
theory Automanager
  imports Pools Registration "HOL-Library.Signed_Division"
begin

text \<open>
  The two threads of the class \<open>Automanager\<close> of \<^verbatim>\<open>core/main.cpp\<close>: \<open>freeunique\<close> forgets old session numbers, \<open>freemems\<close> gives request
  buffers back to the system.  Each turn of a thread is an operation on the state it works on, the database or
  the pool of request buffers with its statistics.
\<close>

section \<open>Session numbers\<close>

text \<open>\<open>atoi\<close>: white space, a sign, digits.  The sum wraps.\<close>

definition is_digit :: "u8 \<Rightarrow> bool" where
  "is_digit c \<longleftrightarrow> 48 \<le> unat c \<and> unat c \<le> 57"

definition digits_val :: "bytes \<Rightarrow> nat" where
  "digits_val s = foldl (\<lambda>n x. 10 * n + (unat x - 48)) 0 (takeWhile is_digit s)"

definition atoi :: "bytes \<Rightarrow> u32" where
  "atoi s =
    (let s = dropWhile (\<lambda>c. c = 32 \<or> 9 \<le> unat c \<and> unat c \<le> 13) s
     in case s of
          [] \<Rightarrow> 0
        | c # r \<Rightarrow> if c = 45 then - word_of_nat (digits_val r)
                  else if c = 43 then word_of_nat (digits_val r) else word_of_nat (digits_val s))"

text \<open>One turn of \<open>freeunique\<close>: the entries of the snapshot \<open>es\<close> in turn.  What is less than five minutes away from now stays.\<close>

definition is_recent :: "u32 \<Rightarrow> bytes \<Rightarrow> bool" where
  "is_recent clock v \<longleftrightarrow> sint (cabs (atoi (cstr v) - clock)) < 300"

primrec free_entries :: "u32 \<Rightarrow> (bytes \<times> bytes) list \<Rightarrow> kv \<Rightarrow> kv" where
  "free_entries clock [] m = m"
| "free_entries clock (kv # it) m =
    free_entries clock it (if is_recent clock (snd kv) then m else Delete m (fst kv))"

definition freeunique :: "u32 \<Rightarrow> (bytes \<times> bytes) list \<Rightarrow> ysdb \<Rightarrow> ysdb" where
  "freeunique clock es d = d\<lparr>uniq := free_entries clock es (uniq d)\<rparr>"

section \<open>Memory\<close>

text \<open>\<open>num\<close> and \<open>times\<close>: for each hour the average number of buffers and how often it was taken.\<close>

record memstat =
  mnum :: "u32 list"
  mtimes :: "u32 list"

definition memstat_init :: memstat where
  "memstat_init = \<lparr>mnum = replicate 24 0, mtimes = replicate 24 0\<rparr>"

definition average :: "nat \<Rightarrow> u32 \<Rightarrow> memstat \<Rightarrow> memstat" where
  "average hour mc m =
    (let buf = mnum m ! hour * mtimes m ! hour; t = mtimes m ! hour + 1
     in m\<lparr>mtimes := (mtimes m)[hour := t], mnum := (mnum m)[hour := word_of_int (sint (buf + mc) sdiv sint t)]\<rparr>)"

text \<open>\<open>while(pool.mallocCount>(nownum+32)) pool.freeone();\<close>  \<open>None\<close> is a loop that does not end.\<close>

partial_function (option) shrink :: "u32 \<Rightarrow> pool \<Rightarrow> pool option" where
  "shrink nownum p = (if sint (nownum + 32) < sint (malloced p) then shrink nownum (requirePool_freeone p) else Some p)"

text \<open>One turn of \<open>freemems\<close>; \<open>busy\<close> is the comparison of the quotient of \<open>usingCount\<close> and \<open>mallocCount\<close> with 0.8.\<close>

definition freemems :: "(u32 \<Rightarrow> u32 \<Rightarrow> bool) \<Rightarrow> nat \<Rightarrow> memstat \<Rightarrow> pool \<Rightarrow> memstat \<times> pool option" where
  "freemems busy hour m p =
    (let nownum = mnum m ! hour; m = average hour (malloced p) m
     in if sint nownum < 64 then (m, Some p)
        else if busy (Pools.used p) (malloced p) then (m, Some p)
        else (m, shrink nownum p))"

section \<open>How long a session number is kept\<close>

lemma digit_props: "x \<in> set (dec_digits n) \<Longrightarrow> is_digit x \<and> x \<noteq> 32 \<and> x \<noteq> 45 \<and> x \<noteq> 43 \<and> x \<noteq> 0 \<and> \<not> unat x \<le> 13"
  using dec_digits_props [of n] by (fastforce simp: is_digit_def)

lemma digits_val_dec: "digits_val (dec_digits n) = n"
proof -
  have tw: "takeWhile is_digit (dec_digits n) = dec_digits n" using digit_props by (auto simp: takeWhile_eq_all_conv)
  show ?thesis unfolding digits_val_def tw using dec_digits_props [of n] by blast
qed

lemma dec_digits_Cons: "\<exists>x r. dec_digits n = x # r"
  using dec_digits_props [of n] by (cases "dec_digits n") auto

lemma atoi_fmt_d: "atoi (cstr (fmt_d w)) = w"
proof -
  have nz: "0 \<notin> set (fmt_d w)" using digit_props by (auto simp: fmt_d_def Let_def)
  then have c: "cstr (fmt_d w) = fmt_d w" by (auto simp: cstr_def takeWhile_eq_all_conv)
  show ?thesis
  proof (cases "sint w < 0")
    case True
    then have f: "fmt_d w = 45 # dec_digits (nat (- sint w))" by (simp add: fmt_d_def Let_def)
    have "- word_of_nat (nat (- sint w)) = w" using True by simp
    then have "atoi (fmt_d w) = w" unfolding f by (simp add: atoi_def Let_def digits_val_dec)
    then show ?thesis by (simp only: c)
  next
    case False
    then have f: "fmt_d w = dec_digits (nat (sint w))" by (simp add: fmt_d_def Let_def)
    obtain x r where d: "dec_digits (nat (sint w)) = x # r" using dec_digits_Cons by blast
    then have "x \<noteq> 32 \<and> x \<noteq> 45 \<and> x \<noteq> 43 \<and> \<not> unat x \<le> 13" using digit_props [of x "nat (sint w)"] by auto
    moreover have "word_of_nat (digits_val (x # r)) = w" using False digits_val_dec [of "nat (sint w)"] by (simp add: d)
    ultimately have "atoi (fmt_d w) = w" unfolding f d by (auto simp: atoi_def Let_def)
    then show ?thesis by (simp only: c)
  qed
qed

lemma free_entries_get:
  "Get (free_entries t es m) k = (if \<exists>v. (k, v) \<in> set es \<and> \<not> is_recent t v then None else Get m k)"
  by (induction es arbitrary: m) (auto simp: kv.get_del)

lemma freeunique_logged:
  assumes "distinct (map fst es)" "map_of es = uniq d" "Get (uniq d) (unique_key uid lid) = Some (fmt_d t)"
  shows "logged (freeunique clock es d) uid lid \<longleftrightarrow> sint (cabs (t - clock)) < 300"
proof -
  have "(\<exists>v. (unique_key uid lid, v) \<in> set es \<and> \<not> is_recent clock v) \<longleftrightarrow> \<not> is_recent clock (fmt_d t)"
    using assms by (auto simp: Get_def simp flip: map_of_eq_Some_iff [OF assms(1)])
  moreover have "is_recent clock (fmt_d t) \<longleftrightarrow> sint (cabs (t - clock)) < 300"
    by (simp add: is_recent_def atoi_fmt_d)
  ultimately show ?thesis
    using assms(3) fmt_d_chars [of t] by (simp add: logged_def freeunique_def free_entries_get)
qed

text \<open>C14. How long a request can not be played back: a session number that was accepted at time \<open>t\<close> is refused again after a turn of \<open>freeunique\<close>
  exactly when this turn was less than 300 seconds away from \<open>t\<close>.  A later turn forgets the number, and the same request is
  accepted once more.\<close>

theorem session_number_window:
  assumes "lid \<noteq> 0" "logunique d t uid lid = (True, d')" "distinct (map fst es)" "map_of es = uniq d'"
  shows "fst (logunique (freeunique clock es d') t' uid lid) \<longleftrightarrow> \<not> sint (cabs (t - clock)) < 300"
proof -
  have "Get (uniq d') (unique_key uid lid) = Some (fmt_d t)"
    using assms(1,2) by (auto simp: logunique_cases kv.get_put split: if_splits)
  from freeunique_logged [OF assms(3,4) this] assms(1) show ?thesis by (simp add: logunique_cases)
qed

section \<open>Giving memory back\<close>

text \<open>The counters of the pool: \<open>usingCount\<close> counts the buffers in use, \<open>mallocCount\<close> those and the free ones.\<close>

definition counted :: "pool \<Rightarrow> nat set \<Rightarrow> nat list \<Rightarrow> bool" where
  "counted p U fs \<longleftrightarrow> finite U \<and> chain (nxt p) (freed p) fs \<and> distinct fs \<and> set fs \<inter> U = {} \<and> (\<forall>a \<in> set fs \<union> U. a < brk p) \<and>
    Pools.used p = word_of_nat (card U) \<and> malloced p = word_of_nat (card U + length fs)"

inductive pool_reach :: "pool \<Rightarrow> nat set \<Rightarrow> bool" where
  pool_start: "pool_reach requirePool_init {}"
| pool_get: "pool_reach p U \<Longrightarrow> requirePool_get p = (r, p') \<Longrightarrow> pool_reach p' (insert r U)"
| pool_del: "pool_reach p U \<Longrightarrow> r \<in> U \<Longrightarrow> pool_reach (requirePool_del r p) (U - {r})"
| pool_freeone: "pool_reach p U \<Longrightarrow> pool_reach (requirePool_freeone p) U"

lemma counted_get:
  assumes "counted p U fs" "requirePool_get p = (r, p')"
  shows "\<exists>fs'. counted p' (insert r U) fs'"
proof (cases "freed p")
  case None
  with assms have "fs = []" "r = brk p" "p' = p\<lparr>Pools.used := Pools.used p + 1, malloced := malloced p + 1, nxt := (nxt p)(brk p := None), brk := brk p + 1\<rparr>"
    by (auto simp: counted_def requirePool_get_def Let_def)
  moreover have "brk p \<notin> U" using assms(1) by (auto simp: counted_def)
  ultimately show ?thesis using assms(1) None by (auto simp: counted_def add.commute less_Suc_eq)
next
  case (Some x)
  with assms(1) obtain ys where fs: "fs = x # ys" "chain (nxt p) (nxt p x) ys" by (auto simp: counted_def chain_Some)
  from Some assms(2) have "r = x" "p' = p\<lparr>Pools.used := Pools.used p + 1, freed := nxt p x, nxt := (nxt p)(x := None)\<rparr>"
    by (auto simp: requirePool_get_def Let_def)
  moreover have "x \<notin> U" "x \<notin> set ys" using assms(1) fs by (auto simp: counted_def)
  ultimately show ?thesis using assms(1) fs by (auto simp: counted_def chain_upd add.commute intro!: exI [of _ ys])
qed

lemma counted_del:
  assumes "counted p U fs" "r \<in> U"
  shows "counted (requirePool_del r p) (U - {r}) (r # fs)"
proof -
  have r: "r \<notin> set fs" using assms by (auto simp: counted_def)
  have fin: "finite U" using assms(1) by (simp add: counted_def)
  then have c: "card U = Suc (card (U - {r}))" using assms(2) by (simp only: card_Suc_Diff1)
  show ?thesis
    using assms r fin unfolding counted_def c by (auto simp: requirePool_del_def chain_upd)
qed

lemma counted_freeone:
  assumes "counted p U fs"
  shows "counted (requirePool_freeone p) U (tl fs)"
proof (cases fs)
  case Nil
  with assms show ?thesis by (auto simp: counted_def requirePool_freeone_def)
next
  case (Cons x ys)
  with assms show ?thesis by (auto simp: counted_def requirePool_freeone_def chain_upd)
qed

lemma pool_reach_counted: "pool_reach p U \<Longrightarrow> \<exists>fs. counted p U fs"
proof (induction rule: pool_reach.induct)
  case pool_start
  then show ?case by (auto simp: counted_def requirePool_init_def intro!: exI [of _ "[0]"])
next
  case (pool_get p U r p')
  then show ?case using counted_get by blast
next
  case (pool_del p U r)
  then show ?case using counted_del by blast
next
  case (pool_freeone p U)
  then show ?case using counted_freeone by blast
qed

lemma small_count: "n < 2 ^ 31 \<Longrightarrow> sint (word_of_nat n :: u32) = int n"
  by (simp add: sint_uint uint_nat unat_of_nat signed_take_bit_int_eq_self)

lemma shrink_ends:
  assumes "counted p U fs" "card U + length fs < 2 ^ 31" "sint (nownum + 32) = int n" "card U \<le> n"
  shows "\<exists>p'. shrink nownum p = Some p' \<and> counted p' U (drop (card U + length fs - n) fs)"
  using assms(1,2)
proof (induction fs arbitrary: p)
  case Nil
  then have "sint (malloced p) = int (card U)" using small_count [of "card U"] by (simp add: counted_def)
  then show ?case using Nil assms(3,4) by (subst shrink.simps) simp
next
  case (Cons x fs)
  have m: "sint (malloced p) = int (card U + length (x # fs))"
    using Cons.prems small_count [of "card U + length (x # fs)"] by (simp add: counted_def)
  show ?case
  proof (cases "n < card U + length (x # fs)")
    case True
    then have "shrink nownum p = shrink nownum (requirePool_freeone p)" using m assms(3) by (subst shrink.simps) simp
    moreover have "counted (requirePool_freeone p) U fs" using counted_freeone [OF Cons.prems(1)] by simp
    moreover have "drop (card U + length (x # fs) - n) (x # fs) = drop (card U + length fs - n) fs"
      using True by (simp add: Suc_diff_le)
    ultimately show ?thesis using Cons.IH Cons.prems(2) by simp
  next
    case False
    then show ?thesis using m assms(3) Cons.prems(1) by (subst shrink.simps) simp
  qed
qed

lemma shrink_spins:
  assumes "shrink nownum p = Some p'"
  shows "\<not> (\<exists>fs. counted p U fs \<and> card U + length fs < 2 ^ 31 \<and> sint (nownum + 32) < int (card U))"
proof (rule shrink.raw_induct [OF _ assms], goal_cases)
  case (1 f nownum p p')
  show ?case
  proof
    assume "\<exists>fs. counted p U fs \<and> card U + length fs < 2 ^ 31 \<and> sint (nownum + 32) < int (card U)"
    then obtain fs where fs: "counted p U fs" "card U + length fs < 2 ^ 31" "sint (nownum + 32) < int (card U)" by blast
    have "sint (malloced p) = int (card U + length fs)"
      using fs(1,2) small_count [of "card U + length fs"] by (simp add: counted_def)
    then have "f nownum (requirePool_freeone p) = Some p'" using 1(2) fs(3) by (auto split: if_splits)
    from 1(1) [OF this] counted_freeone [OF fs(1)] fs(2,3) show False by fastforce
  qed
qed

text \<open>C36. When giving memory back ends: the loop of \<open>freemems\<close> ends if and only if the buffers in use are no more than the number it wants to keep.  Then
  it leaves at most this number, and takes no buffer that is in use.  Otherwise the free list runs empty, \<open>freeone\<close> does nothing, and
  the thread spins.\<close>

theorem freemems_ends_iff:
  assumes "pool_reach p U" "brk p < 2 ^ 31" "unat nownum + 32 < 2 ^ 31"
  shows "(shrink nownum p \<noteq> None \<longleftrightarrow> card U \<le> unat nownum + 32) \<and>
    (\<forall>p'. shrink nownum p = Some p' \<longrightarrow> pool_inv p' U \<and> Pools.used p' = Pools.used p \<and> unat (malloced p') \<le> max (unat nownum + 32) (card U))"
proof -
  obtain fs where fs: "counted p U fs" using pool_reach_counted [OF assms(1)] by blast
  have "card (set fs \<union> U) \<le> card {..<brk p}" using fs by (intro card_mono) (auto simp: counted_def)
  moreover have "card (set fs \<union> U) = length fs + card U" using fs by (simp add: counted_def card_Un_disjoint distinct_card)
  ultimately have k: "card U + length fs < 2 ^ 31" using assms(2) by simp
  have "word_of_nat (unat nownum + 32) = nownum + 32" by simp
  then have n: "sint (nownum + 32) = int (unat nownum + 32)" using small_count [OF assms(3)] by (simp only:)
  show ?thesis
  proof (cases "card U \<le> unat nownum + 32")
    case True
    from shrink_ends [OF fs k n True] obtain p' where p': "shrink nownum p = Some p'"
      "counted p' U (drop (card U + length fs - (unat nownum + 32)) fs)" by blast
    then have "pool_inv p' U" by (auto simp: counted_def pool_inv_def list_inv_def)
    moreover have "Pools.used p' = Pools.used p" using p'(2) fs by (simp add: counted_def)
    moreover define j where "j = card U + (length fs - (card U + length fs - (unat nownum + 32)))"
    have "malloced p' = word_of_nat j" using p'(2) unfolding counted_def j_def length_drop by blast
    then have "unat (malloced p') \<le> j" by (simp add: unat_of_nat)
    then have "unat (malloced p') \<le> unat nownum + 32" using True unfolding j_def by linarith
    ultimately show ?thesis using p'(1) True by auto
  next
    case False
    have "shrink nownum p = None"
    proof (cases "shrink nownum p")
      case (Some p')
      have "sint (nownum + 32) < int (card U)" using n False by linarith
      with shrink_spins [OF Some, of U] fs k show ?thesis by blast
    qed
    with False show ?thesis by simp
  qed
qed

section \<open>Witnesses\<close>

theorem session_number_window_witness:
  "\<exists>d. logunique ysdb_empty 1000 7 9 = (True, d) \<and>
    (fst (logunique (freeunique 1299 [(unique_key 7 9, fmt_d 1000)] d) 1299 7 9) \<longleftrightarrow> \<not> sint (cabs (1000 - 1299)) < 300) \<and>
    (fst (logunique (freeunique 1300 [(unique_key 7 9, fmt_d 1000)] d) 1300 7 9) \<longleftrightarrow> \<not> sint (cabs (1000 - 1300)) < 300)"
proof -
  obtain d where d: "logunique ysdb_empty 1000 7 9 = (True, d)" "uniq d = [unique_key 7 9 \<mapsto> fmt_d 1000]"
    by (simp add: logunique_def ysdb_empty_def Get_def Put_def)
  have "map_of [(unique_key 7 9, fmt_d 1000)] = uniq d" by (simp add: d(2))
  from session_number_window [OF _ d(1) _ this] d(1) show ?thesis by simp
qed

theorem freemems_ends_iff_witness:
  "\<exists>p. requirePool_get requirePool_init = (0, p) \<and> (shrink 64 p \<noteq> None \<longleftrightarrow> card {0 :: nat} \<le> unat (64 :: u32) + 32)"
proof -
  obtain p where p: "requirePool_get requirePool_init = (0, p)" "brk p = 1"
    by (simp add: requirePool_get_def requirePool_init_def Let_def)
  have "pool_reach p {0}" using pool_get [OF pool_start p(1)] by simp
  from freemems_ends_iff [OF this, of 64] p show ?thesis by auto
qed

end
