(* ===== verification/Serverloop.thy ===== *)
theory Serverloop
  imports Pools Connection_Props "HOL-Library.Multiset"
begin

text \<open>
  The class \<open>Server\<close> of \<^verbatim>\<open>core/server.hpp\<close>: the loop that receives packets into buffers of the request pool, the thread pool that takes
  them, and the handler that runs on each.  Three components meet here: the request pool and the thread pool of \<open>Pools\<close> and the
  handler of \<open>Connection\<close>.

  The steps are those of the threads: a packet is received, a worker takes the oldest buffer, a worker finishes its request and
  gives the buffer back, the loop ends.  A request is one step of the connection, because its accesses to shared state are locked.  A request
  that does not return has no step.
\<close>

section \<open>State and steps\<close>

type_synonym req = "u32 \<times> u16 \<times> bytes"

record server =
  spool :: pool
  threads :: "nat tpool"
  sbuf :: "nat \<Rightarrow> req"
  cur :: nat
  isrunning :: bool
  sconn :: conn
  received :: "req list"
  handled :: "req list"

definition zero_req :: req where "zero_req = (0, 0, zero_source)"

text \<open>The start of \<open>runServer\<close>: \<open>get\<close> clears the buffer.\<close>

definition server_start :: "conn \<Rightarrow> server" where
  "server_start c =
    (case requirePool_get requirePool_init of
      (r, p) \<Rightarrow> \<lparr>spool = p, threads = tpool_create, sbuf = (\<lambda>_. zero_req), cur = r, isrunning = True, sconn = c, received = [], handled = []\<rparr>)"

text \<open>A turn of the loop that receives a packet: \<open>threadpool::add(accept_req,r)\<close> and a new buffer.\<close>

definition server_recv :: "u32 \<Rightarrow> u16 \<Rightarrow> bytes \<Rightarrow> server \<Rightarrow> server option" where
  "server_recv from pt bs s =
    (if \<not> isrunning s then None
     else
       (let pk = (from, pt, recv_into (snd (snd (sbuf s (cur s)))) bs)
        in case tpool_add_work (cur s) (threads s) of
             None \<Rightarrow> None
           | Some t \<Rightarrow>
               (case requirePool_get (spool s) of
                 (r, p) \<Rightarrow> Some (s\<lparr>spool := p, threads := t, sbuf := (sbuf s)(cur s := pk, r := zero_req), cur := r,
                   received := received s @ [pk]\<rparr>))))"

text \<open>A worker takes the next buffer; \<open>accept_req\<close> runs the request and gives the buffer back.\<close>

definition server_take :: "server \<Rightarrow> server option" where
  "server_take s = map_option (\<lambda>t. s\<lparr>threads := t\<rparr>) (thread_take (threads s))"

definition accept_req :: "env \<Rightarrow> nat \<Rightarrow> server \<Rightarrow> server option" where
  "accept_req e work s =
    (if work \<notin> set (running (threads s)) then None
     else case task (threads s) work of
       None \<Rightarrow> None
     | Some r \<Rightarrow>
         (case sbuf s r of (from, pt, buf) \<Rightarrow>
           (case run e from pt buf (sconn s) of
             (Ret b, c) \<Rightarrow>
               Some (s\<lparr>sconn := c, spool := requirePool_del r (spool s), threads := thread_done work (threads s),
                 handled := handled s @ [sbuf s r]\<rparr>)
           | _ \<Rightarrow> None)))"

text \<open>The end of the loop after \<open>shutdown\<close>.\<close>

definition server_end :: "server \<Rightarrow> server" where
  "server_end s = (if isrunning s then s\<lparr>isrunning := False, spool := requirePool_del (cur s) (spool s)\<rparr> else s)"

inductive srv_step :: "server \<Rightarrow> server \<Rightarrow> bool" where
  srv_recv: "server_recv from pt bs s = Some s' \<Longrightarrow> srv_step s s'"
| srv_take: "server_take s = Some s' \<Longrightarrow> srv_step s s'"
| srv_accept: "accept_req e work s = Some s' \<Longrightarrow> srv_step s s'"
| srv_change: "changeParentServer t (sconn s) a p = (Ret b, c) \<Longrightarrow> srv_step s (s\<lparr>sconn := c\<rparr>)"
| srv_back: "goLast (sconn s) = (Ret b, c) \<Longrightarrow> srv_step s (s\<lparr>sconn := c\<rparr>)"
| srv_end: "srv_step s (server_end s)"

inductive srv_reach :: "conn \<Rightarrow> server \<Rightarrow> bool" for c0 :: conn where
  srv_start: "srv_reach c0 (server_start c0)"
| srv_more: "srv_reach c0 s \<Longrightarrow> srv_step s s' \<Longrightarrow> srv_reach c0 s'"

section \<open>Buffers on their way\<close>

text \<open>The buffers in the queue, those of the workers, and the one the loop receives into.\<close>

definition queued :: "server \<Rightarrow> nat list" where
  "queued s = drop (length (started (threads s))) (added (threads s))"

definition in_work :: "server \<Rightarrow> nat list" where
  "in_work s = map (\<lambda>a. the (task (threads s) a)) (running (threads s))"

definition own :: "server \<Rightarrow> nat list" where
  "own s = (if isrunning s then [cur s] else [])"

definition srv_inv :: "conn \<Rightarrow> server \<Rightarrow> bool" where
  "srv_inv c0 s \<longleftrightarrow> tp_inv (threads s) \<and> (\<forall>a \<in> set (running (threads s)). task (threads s) a \<noteq> None) \<and>
    distinct (own s @ queued s @ in_work s) \<and> pool_inv (spool s) (set (own s @ queued s @ in_work s)) \<and>
    mset (received s) = mset (handled s) + mset (map (sbuf s) (queued s @ in_work s)) \<and> server_reach c0 (sconn s)"

lemma tp_inv_queue: "tp_inv t \<Longrightarrow> length (started t) \<le> length (added t)"
  by (auto simp: tp_inv_def)

lemma srv_inv_recv:
  assumes "srv_inv c0 s" "server_recv from pt bs s = Some s'"
  shows "srv_inv c0 s'"
proof -
  let ?pk = "(from, pt, recv_into (snd (snd (sbuf s (cur s)))) bs)"
  from assms(2) obtain t r p where run: "isrunning s" and t: "tpool_add_work (cur s) (threads s) = Some t"
    and r: "requirePool_get (spool s) = (r, p)"
    and s': "s' = s\<lparr>spool := p, threads := t, sbuf := (sbuf s)(cur s := ?pk, r := zero_req), cur := r, received := received s @ [?pk]\<rparr>"
    by (auto simp: server_recv_def Let_def split: if_splits option.splits prod.splits)
  note inv = assms(1) [unfolded srv_inv_def]
  have tasks: "\<forall>a \<in> set (running (threads s)). task (threads s) a \<noteq> None" and tp: "tp_inv (threads s)" using inv by auto
  note add = add_work_effect [OF tp t tasks]
  have q: "queued s' = queued s @ [cur s]" "in_work s' = in_work s" "own s' = [r]" "own s = [cur s]"
    using add tp_inv_queue [OF tp] run by (auto simp: s' queued_def in_work_def own_def)
  have dist: "distinct (cur s # queued s @ in_work s)" "pool_inv (spool s) (set (cur s # queued s @ in_work s))"
    using inv q(4) by auto
  from requirePool.get_fresh [OF dist(2) r] have fresh: "r \<notin> set (cur s # queued s @ in_work s)"
    "pool_inv p (insert r (set (cur s # queued s @ in_work s)))" by auto
  have "map (sbuf s') (queued s @ in_work s) = map (sbuf s) (queued s @ in_work s)" "sbuf s' (cur s) = ?pk"
    using dist(1) fresh(1) by (auto simp: s')
  moreover have "insert r (set (cur s # queued s @ in_work s)) = set (own s' @ queued s' @ in_work s')" by (auto simp: q)
  ultimately show ?thesis
    using inv add(1,4,5) dist(1) fresh q by (auto simp: srv_inv_def s')
qed

lemma srv_inv_take:
  assumes "srv_inv c0 s" "server_take s = Some s'"
  shows "srv_inv c0 s'"
proof -
  note inv = assms(1) [unfolded srv_inv_def]
  from assms(2) obtain t where t: "thread_take (threads s) = Some t" "s' = s\<lparr>threads := t\<rparr>" by (auto simp: server_take_def)
  from inv have "tp_inv (threads s)" by simp
  from take_effect [OF this t(1)] obtain work w where e: "tp_inv t" "added t = added (threads s)" "started t = started (threads s) @ [w]"
    "running t = work # running (threads s)" "task t = task (threads s)" "task (threads s) work = Some w"
    "drop (length (started (threads s))) (added (threads s)) = w # drop (length (started t)) (added (threads s))" by metis
  have q: "queued s = w # queued s'" "in_work s' = w # in_work s" "own s' = own s"
    using e t(2) by (simp_all add: queued_def in_work_def own_def)
  show ?thesis
    using inv e t(2) q by (auto simp: srv_inv_def)
qed

lemma srv_inv_accept:
  assumes "srv_inv c0 s" "accept_req e work s = Some s'"
  shows "srv_inv c0 s'"
proof -
  note inv = assms(1) [unfolded srv_inv_def]
  from assms(2) obtain r fr pt buf b c where w: "work \<in> set (running (threads s))" "task (threads s) work = Some r"
    "sbuf s r = (fr, pt, buf)" "run e fr pt buf (sconn s) = (Ret b, c)"
    and s': "s' = s\<lparr>sconn := c, spool := requirePool_del r (spool s), threads := thread_done work (threads s), handled := handled s @ [sbuf s r]\<rparr>"
    by (auto simp: accept_req_def split: if_splits option.splits prod.splits outcome.splits)
  let ?f = "\<lambda>a. the (task (threads s) a)"
  have q: "queued s' = queued s" "own s' = own s" "in_work s' = map ?f (remove1 work (running (threads s)))"
    by (simp_all add: s' queued_def own_def in_work_def thread_done_def)
  have m: "mset (in_work s) = add_mset r (mset (in_work s'))"
  proof -
    have "mset (running (threads s)) = add_mset work (mset (remove1 work (running (threads s))))" using w(1) by simp
    moreover have "in_work s = map ?f (running (threads s))" by (simp add: in_work_def)
    ultimately show ?thesis unfolding q(3) by (simp only: mset_map image_mset_add_mset w(2) option.sel)
  qed
  have all: "mset (own s @ queued s @ in_work s) = mset (r # own s' @ queued s' @ in_work s')" by (simp add: q m)
  have dist: "distinct (r # own s' @ queued s' @ in_work s')" using inv mset_eq_imp_distinct_iff [OF all] by simp
  have set_eq: "set (own s @ queued s @ in_work s) = insert r (set (own s' @ queued s' @ in_work s'))"
    using mset_eq_setD [OF all] by simp
  have "pool_inv (spool s') (set (own s @ queued s @ in_work s) - {r})"
  proof -
    have "spool s' = requirePool_del r (spool s)" by (simp add: s')
    then show ?thesis using inv set_eq by (simp only:) (rule requirePool.del_back, auto)
  qed
  then have "pool_inv (spool s') (set (own s' @ queued s' @ in_work s'))" using dist set_eq by simp
  moreover have "tp_inv (threads s')" using done_inv [OF _ w(1)] inv by (simp add: s')
  moreover have "\<forall>a \<in> set (running (threads s')). task (threads s') a \<noteq> None"
    using inv by (auto simp: s' thread_done_def dest: notin_set_remove1 [rotated])
  moreover have "mset (received s') = mset (handled s') + mset (map (sbuf s') (queued s' @ in_work s'))"
    using inv m q(1) by (simp add: s')
  moreover have "server_reach c0 (sconn s')" using reach_request [OF _ w(4)] inv by (simp add: s')
  ultimately show ?thesis using dist by (simp add: srv_inv_def)
qed

lemma srv_inv_end: "srv_inv c0 s \<Longrightarrow> srv_inv c0 (server_end s)"
proof (cases "isrunning s")
  case True
  assume "srv_inv c0 s"
  note inv = this [unfolded srv_inv_def]
  have q: "queued (server_end s) = queued s" "in_work (server_end s) = in_work s" "own (server_end s) = []" "own s = [cur s]"
    using True by (simp_all add: server_end_def queued_def in_work_def own_def)
  then have "pool_inv (spool (server_end s)) (set (own s @ queued s @ in_work s) - {cur s})"
    using requirePool.del_back [of "spool s" "set (own s @ queued s @ in_work s)" "cur s"] inv True by (simp add: server_end_def)
  then have "pool_inv (spool (server_end s)) (set (queued s @ in_work s))" using inv q(4) by simp
  with inv q True show ?thesis by (auto simp: srv_inv_def server_end_def)
qed (simp add: server_end_def)

lemma srv_inv_conn: "srv_inv c0 s \<Longrightarrow> server_reach c0 c \<Longrightarrow> srv_inv c0 (s\<lparr>sconn := c\<rparr>)"
  by (simp add: srv_inv_def queued_def in_work_def own_def)

lemma srv_inv_step: "srv_step s s' \<Longrightarrow> srv_inv c0 s \<Longrightarrow> srv_inv c0 s'"
proof (induction rule: srv_step.induct)
  case (srv_change t s a p b c)
  then show ?case using reach_change [OF _ srv_change.hyps] by (intro srv_inv_conn) (auto simp: srv_inv_def)
next
  case (srv_back s b c)
  then show ?case using reach_back [OF _ srv_back.hyps] by (intro srv_inv_conn) (auto simp: srv_inv_def)
qed (auto intro: srv_inv_recv srv_inv_take srv_inv_accept srv_inv_end)

lemma srv_inv_start: "srv_inv c0 (server_start c0)"
  using requirePool.get_fresh [OF pool_inv_init(2)] tp_reach_inv [OF tp_init, where ?'a = nat]
  by (auto simp: srv_inv_def server_start_def queued_def in_work_def own_def tpool_create_def reach_start split: prod.splits)

lemma srv_reach_inv: "srv_reach c0 s \<Longrightarrow> srv_inv c0 s"
  by (induction rule: srv_reach.induct) (auto intro: srv_inv_start srv_inv_step)


text \<open>The server is ready for the next packet: as long as it runs, receiving ends with the packet in a buffer.\<close>

theorem server_can_receive:
  assumes "srv_reach c0 s" "isrunning s"
  shows "\<exists>s'. server_recv from pt bs s = Some s' \<and> received s' = received s @ [(from, pt, recv_into (snd (snd (sbuf s (cur s)))) bs)]"
proof -
  have "tp_inv (threads s)" using srv_reach_inv [OF assms(1)] by (simp add: srv_inv_def)
  from add_work_inv [OF this, of "cur s"] obtain t where "tpool_add_work (cur s) (threads s) = Some t" by blast
  with assms(2) show ?thesis by (simp add: server_recv_def Let_def split: prod.split)
qed

section \<open>Witnesses\<close>


theorem server_can_receive_witness:
  "\<exists>s'. server_recv 8 9 [1, 2, 3] (server_start (sample_conn ysdb_empty)) = Some s' \<and>
    received s' = received (server_start (sample_conn ysdb_empty)) @ [(8, 9, recv_into (snd (snd (sbuf (server_start (sample_conn ysdb_empty))
      (cur (server_start (sample_conn ysdb_empty)))))) [1, 2, 3])]"
  by (rule server_can_receive [OF srv_start]) (simp add: server_start_def split: prod.split)

end
