(* ===== verification/Screenlock.thy ===== *)
theory Screenlock
  imports YsDB "HOL-Library.Sublist"
begin

text \<open>
  The screen lock of \<^verbatim>\<open>lock/main.cpp\<close>, which kills programs that are not on a list and guards the package configuration, and the check of
  \<^verbatim>\<open>lock/hook.cpp\<close> that runs inside every started program.

  Processes are numbers with the contents of their file \<open>comm\<close>; a guarded file is its bytes.  \<open>char\<close> is signed, as on the
  machines the rest of the program is built for.
\<close>

section \<open>Killing programs\<close>

definition allowprocess :: "bytes list" where
  "allowprocess = map lit [''com.sec.android.app.keyguard'', ''com.android.settings'', ''com.sec.android.widgetapp.alarmwidget'',
    ''com.sec.android.widgetapp.activeapplicationwidget'', ''com.sec.android.provider.badge'', ''com.sec.factory'',
    ''org.simalliance.openmobileapi.service'', ''android.process.acore'', ''com.android.systemui'', ''org.yrssf'',
    ''com.sec.android.app.launcher'', ''com.android.systemui'', ''org.simalliance'']"

text \<open>\<open>strhead\<close> on two C strings, without their terminators.\<close>

fun strhead :: "bytes \<Rightarrow> bytes \<Rightarrow> bool" where
  "strhead [] p2 = True"
| "strhead (c # sp) p2 = (if p2 = [] \<or> c \<noteq> hd p2 then False else strhead sp (tl p2))"

text \<open>The name in the buffer: what was read, over what the last process left there, up to a line feed or a terminator.\<close>

definition proc_name :: "bytes \<Rightarrow> bytes option \<Rightarrow> bytes" where
  "proc_name pname comm =
    (let b = (case comm of None \<Rightarrow> pname | Some r \<Rightarrow> r @ drop (length r) pname) in takeWhile (\<lambda>c. c \<noteq> 0 \<and> c \<noteq> 10) b)"

definition dots :: "bytes \<Rightarrow> nat" where
  "dots s = length (filter (\<lambda>c. c = 46) s)"

definition killed :: "bytes \<Rightarrow> bool" where
  "killed nm \<longleftrightarrow> 2 \<le> dots nm \<and> \<not> list_ex (\<lambda>a. strhead a nm) allowprocess"

text \<open>\<open>searchproc\<close>: the processes in the order of the directory, each with its number and its name when it can be read.  The buffer goes from one
  to the next.  The result are the processes killed.\<close>

primrec searchproc :: "(int \<times> bytes option) list \<Rightarrow> bytes \<Rightarrow> int list" where
  "searchproc [] pname = []"
| "searchproc (pr # prs) pname =
    (if fst pr \<le> 1 then searchproc prs pname
     else
       (let nm = proc_name pname (snd pr); b = (case snd pr of None \<Rightarrow> pname | Some r \<Rightarrow> r @ drop (length r) pname);
            b = (if length nm < length b then b[length nm := 0] else b)
        in (if killed nm then [fst pr] else []) @ searchproc prs b))"

section \<open>The guarded file\<close>

text \<open>The next character of a file as a \<open>char\<close>: the byte 255 and the end look the same.\<close>

definition next_char :: "bytes \<Rightarrow> u8" where
  "next_char f = (case f of [] \<Rightarrow> 255 | c # _ \<Rightarrow> c)"

function same_loop :: "bytes \<Rightarrow> bytes \<Rightarrow> bool" where
  "same_loop f1 f2 =
    (let ch1 = next_char f1; ch2 = next_char f2
     in if ch1 \<noteq> ch2 then False
        else if ch1 = 255 then True
        else same_loop (tl f1) (tl f2))"
  by pat_completeness auto
termination by (relation "measure (\<lambda>(f1, f2). length f1)") (auto simp: next_char_def split: list.splits)

declare same_loop.simps [simp del]

text \<open>\<open>file_same\<close> of two files that may not exist.\<close>

definition file_same :: "bytes option \<Rightarrow> bytes option \<Rightarrow> bool" where
  "file_same f1 f2 = (case (f1, f2) of (Some a, Some b) \<Rightarrow> same_loop a b | _ \<Rightarrow> False)"

text \<open>The backup and the package configuration.\<close>

record packages =
  backup :: "bytes option"
  conf :: "bytes option"

text \<open>The start of \<open>lockpackageconf\<close>: without a backup the configuration is opened with \<open>O_TRUNC\<close> and copied.  \<open>ok\<close> is whether the two files can
  be opened.\<close>

definition lockpackageconf_start :: "bool \<Rightarrow> packages \<Rightarrow> packages option" where
  "lockpackageconf_start ok s =
    (if backup s \<noteq> None then Some s
     else if \<not> ok then None
     else let from1 = [] in Some (s\<lparr>conf := Some from1, backup := Some from1\<rparr>))"

text \<open>A turn of its loop: the backup is written over the beginning of the configuration.\<close>

definition lockpackageconf_turn :: "packages \<Rightarrow> packages" where
  "lockpackageconf_turn s =
    (if file_same (backup s) (conf s) then s
     else case (backup s, conf s) of
       (Some b, Some c) \<Rightarrow> s\<lparr>conf := Some (b @ drop (length b) c)\<rparr>
     | _ \<Rightarrow> s)"

section \<open>The check in every program\<close>

definition allowpath :: "bytes list" where "allowpath = [lit ''/bin'', lit ''/system'']"
definition allowuser :: "bytes list" where "allowuser = [lit ''root'', lit ''system'']"

definition allowprocess_hook :: "bytes list" where
  "allowprocess_hook = map lit [''ls'', ''su'', ''bash'', ''YRSSF'', ''yrssf'', ''com.sec.android.app.keyguard'', ''com.android.settings'',
    ''com.sec.android.widgetapp.alarmwidget'', ''com.sec.android.widgetapp.activeapplicationwidget'', ''com.sec.android.provider.badge'',
    ''com.sec.factory'', ''org.simalliance.openmobileapi.service:remote'', ''android.process.acore'', ''setting.sh'', ''com.android.systemui'',
    ''org.yrssf.netspace'']"

text \<open>\<open>isindir\<close>, from position \<open>i\<close> on of both C strings.\<close>

function isindir_from :: "bytes \<Rightarrow> bytes \<Rightarrow> nat \<Rightarrow> bool" where
  "isindir_from par c i =
    (if cbyte par i = cbyte c i then (if cbyte par i = 0 then True else isindir_from par c (i + 1))
     else cbyte par i = 0)"
  by pat_completeness auto
termination by (relation "measure (\<lambda>(par, c, i). length par - i)") (auto simp: cbyte_def split: if_splits)

declare isindir_from.simps [simp del]

definition isindir :: "bytes \<Rightarrow> bytes \<Rightarrow> bool" where
  "isindir par c = isindir_from par c 0"

text \<open>\<open>get_executable_path\<close>: the directory with its separator, and the name; \<open>None\<close> without a separator.\<close>

definition get_executable_path :: "bytes \<Rightarrow> (bytes \<times> bytes) option" where
  "get_executable_path exe =
    (if 47 \<notin> set exe then None
     else (let nm = rev (takeWhile (\<lambda>c. c \<noteq> 47) (rev exe)) in Some (take (length exe - length nm) exe, nm)))"

text \<open>The constructor of \<open>Init\<close>: whether the program may go on.\<close>

definition hook_allowed :: "bytes \<Rightarrow> bytes \<Rightarrow> bytes \<Rightarrow> bool" where
  "hook_allowed user path processname \<longleftrightarrow>
    list_ex (\<lambda>a. a = user) allowuser \<or> list_ex (\<lambda>a. isindir a path) allowpath \<or> list_ex (\<lambda>a. a = processname) allowprocess_hook"

section \<open>Properties\<close>

lemma strhead_prefix: "strhead a s \<longleftrightarrow> take (length a) s = a"
proof (induction a s rule: strhead.induct)
  case (2 c sp p2)
  then show ?case by (cases p2) auto
qed simp

text \<open>Which programs survive: the kernel cuts the name of a program to fifteen characters, and then \<open>searchproc\<close> kills every program with two
  dots in its name unless the name begins with one of the three short entries of the list.  The other ten entries, the system interface
  among them, are longer than any name and protect nothing.\<close>

theorem only_short_entries_protect:
  assumes "length nm \<le> 15"
  shows "killed nm \<longleftrightarrow> 2 \<le> dots nm \<and>
    \<not> strhead (lit ''com.sec.factory'') nm \<and> \<not> strhead (lit ''org.yrssf'') nm \<and> \<not> strhead (lit ''org.simalliance'') nm"
proof -
  have long: "\<not> strhead (lit a) nm" if "15 < length a" for a
  proof
    assume "strhead (lit a) nm"
    then have "length (take (length a) nm) = length a" by (simp add: strhead_prefix lit_def)
    with that assms show False by simp
  qed
  have "list_ex (\<lambda>a. strhead a nm) allowprocess \<longleftrightarrow>
      strhead (lit ''com.sec.factory'') nm \<or> strhead (lit ''org.yrssf'') nm \<or> strhead (lit ''org.simalliance'') nm"
    by (simp add: allowprocess_def long)
  then show ?thesis by (simp add: killed_def)
qed

lemma same_loop_iff: "same_loop f1 f2 \<longleftrightarrow> takeWhile (\<lambda>c. c \<noteq> 255) f1 = takeWhile (\<lambda>c. c \<noteq> 255) f2"
proof (induction f1 f2 rule: same_loop.induct)
  case (1 f1 f2)
  show ?case
    using 1 by (subst same_loop.simps) (cases f1; cases f2; auto simp: next_char_def Let_def)
qed

text \<open>The guard destroys what it guards: without a backup the first turn empties the package configuration and keeps an empty backup, and from then
  on no turn changes a configuration, whatever has been written into it.\<close>

theorem guard_without_effect:
  assumes "backup s = None"
  shows "\<exists>s1. lockpackageconf_start True s = Some s1 \<and> conf s1 = Some [] \<and> lockpackageconf_turn (s1\<lparr>conf := c\<rparr>) = s1\<lparr>conf := c\<rparr>"
  using assms by (auto simp: lockpackageconf_start_def lockpackageconf_turn_def split: option.split)

text \<open>With a backup a turn restores its bytes, but what a longer file has behind them stays, and a file that differs only behind a byte 255 counts as
  the same.\<close>

lemma turn_restores:
  assumes "backup s = Some b" "conf s = Some c" "255 \<notin> set b" "255 \<notin> set c"
  shows "conf (lockpackageconf_turn s) = Some (b @ drop (length b) c)"
proof -
  have t: "takeWhile (\<lambda>c. c \<noteq> 255) b = b" "takeWhile (\<lambda>c. c \<noteq> 255) c = c" using assms(3,4) by (auto simp: takeWhile_eq_all_conv)
  have "file_same (backup s) (conf s) \<longleftrightarrow> b = c"
    unfolding file_same_def assms(1,2) prod.case option.case same_loop_iff t ..
  then show ?thesis using assms(1,2) by (auto simp: lockpackageconf_turn_def)
qed

lemma isindir_from_iff: "isindir_from par c i \<longleftrightarrow> prefix (cstr (drop i par)) (cstr (drop i c))"
proof (induction par c i rule: isindir_from.induct)
  case (1 par c i)
  have hd: "cstr (drop i s) = (if cbyte s i = 0 then [] else cbyte s i # cstr (drop (i + 1) s))" for s
    by (cases "i < length s") (auto simp: cstr_def cbyte_def Cons_nth_drop_Suc [symmetric])
  show ?case
    using 1 by (subst isindir_from.simps) (auto simp: hd [of par] hd [of c])
qed

text \<open>What the check in every program accepts: an accepted path is one that begins with the characters of \<open>/bin\<close> or \<open>/system\<close>, also inside a
  directory of another name; everybody else must have a listed user or program name.\<close>

theorem hook_accepts_prefixes:
  "hook_allowed user path nm \<longleftrightarrow> user \<in> set allowuser \<or> nm \<in> set allowprocess_hook \<or>
    prefix (lit ''/bin'') (cstr path) \<or> prefix (lit ''/system'') (cstr path)"
proof -
  have "cstr (lit ''/bin'') = lit ''/bin''" "cstr (lit ''/system'') = lit ''/system''" by (simp_all add: cstr_def lit_def)
  then show ?thesis by (auto simp: hook_allowed_def allowpath_def isindir_def isindir_from_iff list_ex_iff)
qed

text \<open>The directory and the name make up the path of the program again.\<close>

lemma executable_path_split:
  assumes "get_executable_path exe = Some (d, nm)"
  shows "d @ nm = exe \<and> 47 \<notin> set nm \<and> last d = 47"
proof -
  let ?r = "takeWhile (\<lambda>c. c \<noteq> 47) (rev exe)" and ?d = "dropWhile (\<lambda>c. c \<noteq> 47) (rev exe)"
  have e: "exe = rev ?d @ rev ?r" by (metis rev_append rev_rev_ident takeWhile_dropWhile_id)
  have "47 \<in> set exe" and n: "nm = rev ?r" and d: "d = take (length exe - length ?r) exe"
    using assms by (auto simp: get_executable_path_def Let_def split: if_splits)
  have "length exe - length ?r = length (rev ?d)" by (subst e) simp
  then have "d = rev ?d" unfolding d by (subst e) (simp only: append_eq_conv_conj [THEN iffD1, OF refl] take_append take_all length_rev diff_self_eq_0 take_0 append_Nil2 order_refl)
  moreover have "?d \<noteq> []" using \<open>47 \<in> set exe\<close> by (simp add: dropWhile_eq_Nil_conv) 
  then have "last (rev ?d) = 47" using hd_dropWhile [of "\<lambda>c. c \<noteq> 47" "rev exe"] by (simp add: last_rev)
  ultimately show ?thesis using e n by (auto dest: set_takeWhileD)
qed

theorem only_short_entries_protect_witness:
  "killed (lit ''com.android.sys'') \<longleftrightarrow> 2 \<le> dots (lit ''com.android.sys'') \<and> \<not> strhead (lit ''com.sec.factory'') (lit ''com.android.sys'') \<and>
    \<not> strhead (lit ''org.yrssf'') (lit ''com.android.sys'') \<and> \<not> strhead (lit ''org.simalliance'') (lit ''com.android.sys'')"
  by (rule only_short_entries_protect) (simp add: lit_def)

theorem guard_without_effect_witness:
  "\<exists>s1. lockpackageconf_start True \<lparr>backup = None, conf = Some [1, 2, 3]\<rparr> = Some s1 \<and> conf s1 = Some [] \<and>
    lockpackageconf_turn (s1\<lparr>conf := Some [9]\<rparr>) = s1\<lparr>conf := Some [9]\<rparr>"
  by (rule guard_without_effect) simp

end
