(* ===== verification/Rwmutex.thy ===== *)
theory Rwmutex
  imports Main
begin

text \<open>
  The class \<open>RWMutex\<close> of \<^verbatim>\<open>core/rwmutex.hpp\<close>: a lock that any number of readers or one writer can hold.  Threads are
  numbers; an operation that has to wait is \<open>None\<close>.

  The locale \<open>rw_lock\<close> is the contract its users rely on, with the threads that read and the threads that write; the class is an
  interpretation of it.
\<close>

record rwlock =
  readers :: "nat list"
  writer :: "nat option"

definition RWMutex :: rwlock where
  "RWMutex = \<lparr>readers = [], writer = None\<rparr>"

definition Rlock :: "nat \<Rightarrow> rwlock \<Rightarrow> rwlock option" where
  "Rlock t l = (if writer l = None then Some (l\<lparr>readers := t # readers l\<rparr>) else None)"

definition Wlock :: "nat \<Rightarrow> rwlock \<Rightarrow> rwlock option" where
  "Wlock t l = (if writer l = None \<and> readers l = [] then Some (l\<lparr>writer := Some t\<rparr>) else None)"

text \<open>\<open>unlock\<close>, \<open>Runlock\<close> and \<open>Wunlock\<close> are the same call; it gives back what the thread holds.\<close>

definition unlock :: "nat \<Rightarrow> rwlock \<Rightarrow> rwlock" where
  "unlock t l = (if writer l = Some t then l\<lparr>writer := None\<rparr> else l\<lparr>readers := remove1 t (readers l)\<rparr>)"

definition Runlock :: "nat \<Rightarrow> rwlock \<Rightarrow> rwlock" where "Runlock = unlock"
definition Wunlock :: "nat \<Rightarrow> rwlock \<Rightarrow> rwlock" where "Wunlock = unlock"

locale rw_lock =
  fixes rd :: "nat \<Rightarrow> 'l \<Rightarrow> 'l option" and wr :: "nat \<Rightarrow> 'l \<Rightarrow> 'l option" and un :: "nat \<Rightarrow> 'l \<Rightarrow> 'l"
    and ok :: "'l \<Rightarrow> bool" and reading :: "'l \<Rightarrow> nat set" and writing :: "'l \<Rightarrow> nat set"
  assumes rd_ok: "ok l \<Longrightarrow> t \<notin> reading l \<Longrightarrow> rd t l = Some l' \<Longrightarrow>
      ok l' \<and> reading l' = insert t (reading l) \<and> writing l' = {} \<and> writing l = {}"
    and wr_ok: "ok l \<Longrightarrow> wr t l = Some l' \<Longrightarrow> ok l' \<and> writing l' = {t} \<and> reading l' = {} \<and> reading l = {} \<and> writing l = {}"
    and un_ok: "ok l \<Longrightarrow> t \<in> reading l \<union> writing l \<Longrightarrow>
      ok (un t l) \<and> reading (un t l) = reading l - {t} \<and> writing (un t l) = writing l - {t}"
    and free: "ok l \<Longrightarrow> reading l \<union> writing l = {} \<Longrightarrow> rd t l \<noteq> None \<and> wr t l \<noteq> None"
    and exclusive: "ok l \<Longrightarrow> t \<in> writing l \<Longrightarrow> writing l = {t} \<and> reading l = {}"
begin

definition holds :: "bool \<Rightarrow> nat \<Rightarrow> 'l \<Rightarrow> bool" where
  "holds excl t l \<longleftrightarrow> (if excl then t \<in> writing l else t \<in> reading l)"

definition take_lock :: "bool \<Rightarrow> nat \<Rightarrow> 'l \<Rightarrow> 'l option" where
  "take_lock excl t l = (if excl then wr t l else rd t l)"

text \<open>Whoever holds the lock for writing holds it alone.\<close>

lemma holds_alone: "ok l \<Longrightarrow> holds True t l \<Longrightarrow> holds e t' l \<Longrightarrow> t' = t \<and> e"
  using exclusive [of l t] by (auto simp: holds_def split: if_splits)

text \<open>Taking the lock adds one holder, giving it back removes it, and nobody else notices.\<close>

lemma take_holds:
  assumes "ok l" "t \<notin> reading l \<union> writing l" "take_lock excl t l = Some l'"
  shows "ok l'" "holds e t' l' \<longleftrightarrow> holds e t' l \<or> (t' = t \<and> e = excl)"
  using assms rd_ok [of l t l'] wr_ok [of l t l'] by (auto simp: take_lock_def holds_def split: if_splits)

lemma give_holds:
  assumes "ok l" "holds excl t l"
  shows "ok (un t l)" "holds e t' (un t l) \<longleftrightarrow> holds e t' l \<and> t' \<noteq> t"
  using assms un_ok [of l t] by (auto simp: holds_def split: if_splits)

lemma not_holding: "t \<notin> reading l \<union> writing l \<longleftrightarrow> (\<forall>e. \<not> holds e t l)"
  by (auto simp: holds_def split: if_splits)

lemma take_free: "ok l \<Longrightarrow> \<forall>e t. \<not> holds e t l \<Longrightarrow> \<exists>l'. take_lock excl t l = Some l'"
proof -
  assume "ok l" and none: "\<forall>e t. \<not> holds e t l"
  have "reading l \<union> writing l = {}" using none not_holding by blast
  with \<open>ok l\<close> show ?thesis using free [of l t] by (auto simp: take_lock_def)
qed

end

definition rw_ok :: "rwlock \<Rightarrow> bool" where
  "rw_ok l \<longleftrightarrow> distinct (readers l) \<and> (writer l \<noteq> None \<longrightarrow> readers l = [])"

definition rw_reading :: "rwlock \<Rightarrow> nat set" where "rw_reading l = set (readers l)"
definition rw_writing :: "rwlock \<Rightarrow> nat set" where "rw_writing l = set_option (writer l)"

interpretation rw: rw_lock Rlock Wlock unlock rw_ok rw_reading rw_writing
  by unfold_locales
    (auto simp: Rlock_def Wlock_def unlock_def rw_ok_def rw_reading_def rw_writing_def split: if_splits)

lemma rw_init: "rw_ok RWMutex" "\<not> rw.holds e t RWMutex"
  by (simp_all add: rw_ok_def RWMutex_def rw.holds_def rw_reading_def rw_writing_def)

end
