(* ===== verification/Langsolver.thy ===== *)
theory Langsolver
  imports Luaapi Rwmutex
begin

text \<open>
  The word segmentation offered to scripts, \<^verbatim>\<open>core/languagesolver.hpp\<close>.  The library cppjieba is a parameter \<open>jieba\<close>; a
  \<open>Solver\<close> object is an address in a heap of such objects, and an access through a null or dangling pointer is a fault
  (\<open>None\<close>).

  Any number of threads call the functions.  A call takes the lock, tests the pointer \<open>solver\<close>, does its work through the
  pointer and gives the lock back; the threads interleave between these steps.  The specification is the sequence of
  the calls, each done at once.
\<close>

section \<open>Tables\<close>

text \<open>A value handed to a script; a table is the list of its entries.\<close>

datatype lua_value = VBool bool | VStr bytes | VNum rat | VTable "(nat \<times> lua_value) list"

text \<open>\<open>lua_rawseti\<close>; \<open>None\<close> is \<open>nil\<close> and removes the entry.\<close>

definition rawseti :: "nat \<Rightarrow> lua_value option \<Rightarrow> (nat \<times> lua_value) list \<Rightarrow> (nat \<times> lua_value) list" where
  "rawseti i v tbl =
    (case v of None \<Rightarrow> filter (\<lambda>e. fst e \<noteq> i) tbl | Some x \<Rightarrow> filter (\<lambda>e. fst e \<noteq> i) tbl @ [(i, x)])"

definition newtable :: "(nat \<times> lua_value) list" where
  "newtable = rawseti 0 None []"

text \<open>The loops that fill the tables.\<close>

definition tag_row :: "bytes \<times> bytes \<Rightarrow> lua_value" where
  "tag_row w = VTable (rawseti 2 (Some (VStr (cstr (snd w)))) (rawseti 1 (Some (VStr (cstr (fst w)))) newtable))"

fun solve_rows :: "(bytes \<times> bytes) list \<Rightarrow> nat \<Rightarrow> (nat \<times> lua_value) list \<Rightarrow> (nat \<times> lua_value) list" where
  "solve_rows [] n tbl = tbl"
| "solve_rows (w # ws) n tbl = solve_rows ws (n + 1) (rawseti n (Some (tag_row w)) tbl)"

fun offset_rows :: "nat list \<Rightarrow> nat \<Rightarrow> (nat \<times> lua_value) list \<Rightarrow> (nat \<times> lua_value) list" where
  "offset_rows [] j tbl = tbl"
| "offset_rows (x # xs) j tbl = offset_rows xs (j + 1) (rawseti j (Some (VNum (of_nat x))) tbl)"

record keyword =
  word :: bytes
  weight :: rat
  offsets :: "nat list"

definition keyword_row :: "keyword \<Rightarrow> lua_value" where
  "keyword_row w =
    VTable (rawseti 3 (Some (VTable (offset_rows (offsets w) 1 newtable)))
      (rawseti 2 (Some (VNum (weight w))) (rawseti 1 (Some (VStr (cstr (word w)))) newtable)))"

fun keyword_rows :: "keyword list \<Rightarrow> nat \<Rightarrow> (nat \<times> lua_value) list \<Rightarrow> (nat \<times> lua_value) list" where
  "keyword_rows [] n tbl = tbl"
| "keyword_rows (w # ws) n tbl = keyword_rows ws (n + 1) (rawseti n (Some (keyword_row w)) tbl)"

section \<open>The functions\<close>

record 'd jieba =
  Jieba :: "bytes list \<Rightarrow> 'd"
  Tag :: "'d \<Rightarrow> bytes \<Rightarrow> (bytes \<times> bytes) list"
  Extract :: "'d \<Rightarrow> bytes \<Rightarrow> nat \<Rightarrow> keyword list"
  InsertUserWord :: "'d \<Rightarrow> bytes \<Rightarrow> bytes option \<Rightarrow> bool \<times> 'd"

record 'd lang =
  solver :: "nat option"
  objects :: "nat \<rightharpoonup> 'd"
  fresh :: nat

definition lang_start :: "'d lang" where
  "lang_start = \<lparr>solver = None, objects = Map.empty, fresh = 0\<rparr>"

text \<open>The object behind the pointer.\<close>

definition deref :: "'d lang \<Rightarrow> (nat \<times> 'd) option" where
  "deref s = (case solver s of None \<Rightarrow> None | Some p \<Rightarrow> map_option (Pair p) (objects s p))"

datatype lang_call =
    Lang_init "lua_arg list"
  | Lang_destory
  | Lang_insert "lua_arg list"
  | Lang_solve "lua_arg list"
  | Lang_keyword "lua_arg list"
  | Lang_status

type_synonym 'd lang_res = "(lua_value list \<times> 'd lang) option"

text \<open>Each function behind its test \<open>if(solver)\<close>; \<open>known\<close> is the outcome of the test.\<close>

definition lang_init :: "'d jieba \<Rightarrow> lua_arg list \<Rightarrow> bool \<Rightarrow> 'd lang \<Rightarrow> 'd lang_res" where
  "lang_init J as known s =
    (if known then Some ([], s)
     else if \<not> list_all (\<lambda>i. lua_isstring (arg as i)) [1, 2, 3, 4, 5] then Some ([], s)
     else Some ([VBool True],
       s\<lparr>objects := (objects s)(fresh s \<mapsto> Jieba J (map (\<lambda>i. lua_tostring (arg as i)) [1, 2, 3, 4, 5])),
         solver := Some (fresh s), fresh := fresh s + 1\<rparr>))"

definition lang_destory :: "bool \<Rightarrow> 'd lang \<Rightarrow> 'd lang_res" where
  "lang_destory known s =
    (if \<not> known then Some ([], s)
     else case deref s of
       None \<Rightarrow> None
     | Some (p, _) \<Rightarrow> Some ([], s\<lparr>objects := (objects s)(p := None), solver := None\<rparr>))"

definition lang_insert :: "'d jieba \<Rightarrow> lua_arg list \<Rightarrow> bool \<Rightarrow> 'd lang \<Rightarrow> 'd lang_res" where
  "lang_insert J as known s =
    (if \<not> known then Some ([], s)
     else if \<not> lua_isstring (arg as 1) then Some ([], s)
     else case deref s of
       None \<Rightarrow> None
     | Some (p, d) \<Rightarrow>
         (case InsertUserWord J d (lua_tostring (arg as 1))
             (if lua_isstring (arg as 2) then Some (lua_tostring (arg as 2)) else None) of
           (res, d) \<Rightarrow> Some ([VBool res], s\<lparr>objects := (objects s)(p \<mapsto> d)\<rparr>)))"

definition lang_solve :: "'d jieba \<Rightarrow> lua_arg list \<Rightarrow> bool \<Rightarrow> 'd lang \<Rightarrow> 'd lang_res" where
  "lang_solve J as known s =
    (if \<not> known then Some ([], s)
     else if \<not> lua_isstring (arg as 1) then Some ([], s)
     else case deref s of
       None \<Rightarrow> None
     | Some (_, d) \<Rightarrow> Some ([VTable (solve_rows (Tag J d (lua_tostring (arg as 1))) 1 newtable)], s))"

definition lang_keyword :: "'d jieba \<Rightarrow> lua_arg list \<Rightarrow> bool \<Rightarrow> 'd lang \<Rightarrow> 'd lang_res" where
  "lang_keyword J as known s =
    (if \<not> known then Some ([], s)
     else if \<not> lua_isstring (arg as 1) then Some ([], s)
     else case deref s of
       None \<Rightarrow> None
     | Some (_, d) \<Rightarrow> Some ([VTable (keyword_rows (Extract J d (lua_tostring (arg as 1)) 5) 1 newtable)], s))"

primrec lang_body :: "'d jieba \<Rightarrow> lang_call \<Rightarrow> bool \<Rightarrow> 'd lang \<Rightarrow> 'd lang_res" where
  "lang_body J (Lang_init as) known s = lang_init J as known s"
| "lang_body J Lang_destory known s = lang_destory known s"
| "lang_body J (Lang_insert as) known s = lang_insert J as known s"
| "lang_body J (Lang_solve as) known s = lang_solve J as known s"
| "lang_body J (Lang_keyword as) known s = lang_keyword J as known s"
| "lang_body J Lang_status known s = Some ([VBool known], s)"

text \<open>Which calls take the lock with \<open>Wlock\<close>.\<close>

primrec writes :: "lang_call \<Rightarrow> bool" where
  "writes (Lang_init as) = True"
| "writes Lang_destory = True"
| "writes (Lang_insert as) = True"
| "writes (Lang_solve as) = False"
| "writes (Lang_keyword as) = False"
| "writes Lang_status = False"

section \<open>Threads\<close>

datatype phase = Idle | Waiting lang_call | Locked lang_call | Tested lang_call bool | Finished lang_call

record 'd lang_sys =
  locker :: rwlock
  shared :: "'d lang"
  phase :: "nat \<Rightarrow> phase"
  history :: "(lang_call \<times> lua_value list) list"
  crashed :: bool

definition lang_sys_start :: "'d lang_sys" where
  "lang_sys_start = \<lparr>locker = RWMutex, shared = lang_start, phase = (\<lambda>_. Idle), history = [], crashed = False\<rparr>"

definition lock_for :: "lang_call \<Rightarrow> nat \<Rightarrow> rwlock \<Rightarrow> rwlock option" where
  "lock_for c t l = (if writes c then Wlock t l else Rlock t l)"

definition move :: "nat \<Rightarrow> phase \<Rightarrow> 'd lang_sys \<Rightarrow> 'd lang_sys" where
  "move t ph s = s\<lparr>phase := (phase s)(t := ph)\<rparr>"

inductive lang_step :: "'d jieba \<Rightarrow> nat \<Rightarrow> 'd lang_sys \<Rightarrow> 'd lang_sys \<Rightarrow> bool" for J :: "'d jieba" where
  call: "phase s t = Idle \<Longrightarrow> lang_step J t s (move t (Waiting c) s)"
| lock: "phase s t = Waiting c \<Longrightarrow> lock_for c t (locker s) = Some l \<Longrightarrow>
    lang_step J t s (move t (Locked c) (s\<lparr>locker := l\<rparr>))"
| test: "phase s t = Locked c \<Longrightarrow> lang_step J t s (move t (Tested c (solver (shared s) \<noteq> None)) s)"
| act: "phase s t = Tested c b \<Longrightarrow> lang_body J c b (shared s) = Some (r, d) \<Longrightarrow>
    lang_step J t s (move t (Finished c) (s\<lparr>shared := d, history := history s @ [(c, r)]\<rparr>))"
| crash: "phase s t = Tested c b \<Longrightarrow> lang_body J c b (shared s) = None \<Longrightarrow> lang_step J t s (s\<lparr>crashed := True\<rparr>)"
| unlock: "phase s t = Finished c \<Longrightarrow> lang_step J t s (move t Idle (s\<lparr>locker := unlock t (locker s)\<rparr>))"

inductive lang_reach :: "'d jieba \<Rightarrow> 'd lang_sys \<Rightarrow> bool" for J :: "'d jieba" where
  lang_first: "lang_reach J lang_sys_start"
| lang_more: "lang_reach J s \<Longrightarrow> lang_step J t s s' \<Longrightarrow> lang_reach J s'"

text \<open>The specification: one call after the other.\<close>

primrec run_calls :: "'d jieba \<Rightarrow> lang_call list \<Rightarrow> 'd lang \<Rightarrow> (lua_value list list \<times> 'd lang) option" where
  "run_calls J [] s = Some ([], s)"
| "run_calls J (c # cs) s =
    (case lang_body J c (solver s \<noteq> None) s of
      None \<Rightarrow> None
    | Some (r, s) \<Rightarrow> map_option (\<lambda>(rs, s). (r # rs, s)) (run_calls J cs s))"


section \<open>Each function alone\<close>

text \<open>There is one object or none, and \<open>solver\<close> points to it.\<close>

definition lang_ok :: "'d lang \<Rightarrow> bool" where
  "lang_ok d \<longleftrightarrow> dom (objects d) = set_option (solver d)"

lemma deref_ok: "lang_ok d \<Longrightarrow> solver d = Some p \<Longrightarrow> \<exists>x. objects d p = Some x \<and> deref d = Some (p, x)"
  by (auto simp: lang_ok_def deref_def)

lemma body_total:
  assumes "lang_ok d"
  shows "\<exists>r d'. lang_body J c (solver d \<noteq> None) d = Some (r, d') \<and> lang_ok d' \<and> (writes c \<or> d' = d)"
proof (cases "solver d")
  case None
  then show ?thesis using assms
    by (cases c) (auto simp: lang_init_def lang_destory_def lang_insert_def lang_solve_def lang_keyword_def lang_ok_def)
next
  case (Some p)
  then obtain x where x: "objects d p = Some x" "deref d = Some (p, x)" using deref_ok [OF assms] by blast
  have dom: "dom (objects d) = {p}" using assms Some by (simp add: lang_ok_def)
  then show ?thesis using assms x Some
    by (cases c) (auto simp: lang_init_def lang_destory_def lang_insert_def lang_solve_def lang_keyword_def lang_ok_def
        split: prod.split)
qed

lemma run_calls_append:
  "run_calls J (cs @ ds) s =
    (case run_calls J cs s of None \<Rightarrow> None | Some (rs, s) \<Rightarrow> map_option (\<lambda>(qs, s). (rs @ qs, s)) (run_calls J ds s))"
proof (induction cs arbitrary: s)
  case Nil
  show ?case by (simp add: option.map_ident split_def)
next
  case (Cons c cs)
  then show ?case
    by (simp add: option.map_comp comp_def split_def split: option.split)
qed

section \<open>The threads together\<close>

fun inside :: "phase \<Rightarrow> lang_call option" where
  "inside (Locked c) = Some c"
| "inside (Tested c b) = Some c"
| "inside (Finished c) = Some c"
| "inside Idle = None"
| "inside (Waiting c) = None"

text \<open>Exactly the threads inside a call hold the lock, in the mode of the call; the outcome of a test is still true; and
  the calls done so far are a sequence of whole calls.\<close>

definition lang_inv :: "'d jieba \<Rightarrow> 'd lang_sys \<Rightarrow> bool" where
  "lang_inv J s \<longleftrightarrow> \<not> crashed s \<and> rw_ok (locker s) \<and> lang_ok (shared s) \<and>
    (\<forall>t e. rw.holds e t (locker s) \<longleftrightarrow> map_option writes (inside (phase s t)) = Some e) \<and>
    (\<forall>t c b. phase s t = Tested c b \<longrightarrow> b = (solver (shared s) \<noteq> None)) \<and>
    run_calls J (map fst (history s)) lang_start = Some (map snd (history s), shared s)"

lemma lock_for_take: "lock_for c t l = rw.take_lock (writes c) t l"
  by (simp add: lock_for_def rw.take_lock_def)

lemma inv_act:
  assumes "lang_inv J s" "phase s t = Tested c b" "lang_body J c b (shared s) = Some (r, d)"
  shows "lang_inv J (move t (Finished c) (s\<lparr>shared := d, history := history s @ [(c, r)]\<rparr>))"
proof -
  have b: "b = (solver (shared s) \<noteq> None)" using assms(1,2) by (auto simp: lang_inv_def)
  then have d: "lang_ok d" "writes c \<or> d = shared s"
    using body_total [of "shared s" J c] assms(1,3) by (auto simp: lang_inv_def)
  have runs: "run_calls J (map fst (history s) @ [c]) lang_start = Some (map snd (history s) @ [r], d)"
    using assms(1,3) b by (simp add: run_calls_append lang_inv_def)
  have alone: "phase s t' \<noteq> Tested c' b'" if "writes c" "t' \<noteq> t" for t' c' b'
  proof
    assume "phase s t' = Tested c' b'"
    then have "rw.holds True t (locker s)" "rw.holds (writes c') t' (locker s)"
      using assms(1,2) that(1) by (simp_all add: lang_inv_def)
    then show False using rw.holds_alone [of "locker s" t] assms(1) that(2) by (auto simp: lang_inv_def)
  qed
  have "b' = (solver d \<noteq> None)" if "phase s t' = Tested c' b'" "t' \<noteq> t" for t' c' b'
  proof -
    have "b' = (solver (shared s) \<noteq> None)" using that(1) assms(1) unfolding lang_inv_def by blast
    moreover have "d = shared s" using alone that d(2) by blast
    ultimately show ?thesis by simp
  qed
  then show ?thesis
    using assms(1,2) d(1) runs by (auto simp: lang_inv_def move_def)
qed

lemma lang_step_inv: "lang_step J t s s' \<Longrightarrow> lang_inv J s \<Longrightarrow> lang_inv J s'"
proof (induction rule: lang_step.induct)
  case (call s t c)
  then show ?case by (auto simp: lang_inv_def move_def)
next
  case (lock s t c l)
  have "t \<notin> rw_reading (locker s) \<union> rw_writing (locker s)"
    unfolding rw.not_holding using lock by (simp add: lang_inv_def)
  then have "rw_ok l" "\<And>e t'. rw.holds e t' l \<longleftrightarrow> rw.holds e t' (locker s) \<or> (t' = t \<and> e = writes c)"
    using rw.take_holds [of "locker s" t "writes c" l] lock by (simp_all add: lang_inv_def lock_for_take)
  then show ?case using lock by (auto simp: lang_inv_def move_def)
next
  case (test s t c)
  then show ?case by (auto simp: lang_inv_def move_def)
next
  case (act s t c b r d)
  then show ?case by (blast intro: inv_act)
next
  case (crash s t c b)
  then show ?case using body_total [of "shared s" J c] by (auto simp: lang_inv_def)
next
  case (unlock s t c)
  have "rw.holds (writes c) t (locker s)" using unlock by (simp add: lang_inv_def)
  then have "rw_ok (Rwmutex.unlock t (locker s))"
    "\<And>e t'. rw.holds e t' (Rwmutex.unlock t (locker s)) \<longleftrightarrow> rw.holds e t' (locker s) \<and> t' \<noteq> t"
    using rw.give_holds [of "locker s" "writes c" t] unlock by (simp_all add: lang_inv_def)
  then show ?case using unlock by (auto simp: lang_inv_def move_def)
qed

lemma lang_reach_inv: "lang_reach J s \<Longrightarrow> lang_inv J s"
proof (induction rule: lang_reach.induct)
  case lang_first
  show ?case by (simp add: lang_inv_def lang_sys_start_def rw_init lang_ok_def lang_start_def)
qed (blast intro: lang_step_inv)

section \<open>Properties\<close>

text \<open>C26. The functions are safe and atomic for any number of threads: however their steps interleave, no call ever works through a
  null or deleted object, at most one object exists, and the results and the state are those of the same calls made one after the
  other.\<close>

theorem langsolver_linearizable:
  assumes "lang_reach J s"
  shows "\<not> crashed s \<and> dom (objects (shared s)) = set_option (solver (shared s)) \<and>
    run_calls J (map fst (history s)) lang_start = Some (map snd (history s), shared s)"
  using lang_reach_inv [OF assms] by (simp add: lang_inv_def lang_ok_def)




text \<open>The next step of a thread, and the run that a schedule gives.\<close>

definition lang_next :: "'d jieba \<Rightarrow> nat \<times> lang_call \<Rightarrow> 'd lang_sys \<Rightarrow> 'd lang_sys option" where
  "lang_next J tc s =
    (let t = fst tc
     in case phase s t of
       Idle \<Rightarrow> Some (move t (Waiting (snd tc)) s)
     | Waiting c \<Rightarrow> map_option (\<lambda>l. move t (Locked c) (s\<lparr>locker := l\<rparr>)) (lock_for c t (locker s))
     | Locked c \<Rightarrow> Some (move t (Tested c (solver (shared s) \<noteq> None)) s)
     | Tested c b \<Rightarrow>
         (case lang_body J c b (shared s) of
           None \<Rightarrow> Some (s\<lparr>crashed := True\<rparr>)
         | Some (r, d) \<Rightarrow> Some (move t (Finished c) (s\<lparr>shared := d, history := history s @ [(c, r)]\<rparr>)))
     | Finished c \<Rightarrow> Some (move t Idle (s\<lparr>locker := unlock t (locker s)\<rparr>)))"

primrec lang_exec :: "'d jieba \<Rightarrow> (nat \<times> lang_call) list \<Rightarrow> 'd lang_sys \<Rightarrow> 'd lang_sys option" where
  "lang_exec J [] s = Some s"
| "lang_exec J (tc # tcs) s = (case lang_next J tc s of None \<Rightarrow> None | Some s \<Rightarrow> lang_exec J tcs s)"

lemma lang_next_step: "lang_next J (t, c) s = Some s' \<Longrightarrow> lang_step J t s s'"
  by (auto simp: lang_next_def Let_def simp del: not_None_eq intro: lang_step.intros split: phase.splits option.splits)

lemma lang_exec_reach: "lang_reach J s \<Longrightarrow> lang_exec J tcs s = Some s' \<Longrightarrow> lang_reach J s'"
proof (induction tcs arbitrary: s)
  case (Cons tc tcs)
  then show ?case
    by (cases tc) (auto split: option.splits dest!: lang_next_step dest: lang_more)
qed simp

text \<open>Two threads that solve at the same time, after a third has loaded the dictionary.\<close>

definition sample_jieba :: "nat jieba" where
  "sample_jieba = \<lparr>Jieba = length, Tag = (\<lambda>d w. [(w, [110])]), Extract = (\<lambda>d w k. []), InsertUserWord = (\<lambda>d w t. (True, d + 1))\<rparr>"

definition sample_schedule :: "(nat \<times> lang_call) list" where
  "sample_schedule =
    (let load = (0, Lang_init [AStr [97], AStr [98], AStr [99], AStr [100], AStr [101]]);
         one = (1, Lang_solve [AStr [120]]); two = (2, Lang_solve [AStr [121]])
     in [load, load, load, load, load, one, two, one, two, one, two, two, one])"

theorem langsolver_linearizable_witness:
  "\<exists>s. lang_exec sample_jieba sample_schedule lang_sys_start = Some s \<and> length (history s) = 3 \<and> \<not> crashed s \<and>
    dom (objects (shared s)) = {0}"
proof -
  obtain s where s: "lang_exec sample_jieba sample_schedule lang_sys_start = Some s" "length (history s) = 3" "solver (shared s) = Some 0"
    by (simp add: sample_schedule_def lang_next_def lang_sys_start_def lang_start_def move_def lock_for_def Rlock_def Wlock_def unlock_def
        RWMutex_def lang_init_def lang_solve_def deref_def arg_def lua_isstring_def numeral_eq_Suc Let_def)
  show ?thesis
    using langsolver_linearizable [OF lang_exec_reach [OF lang_first s(1)]] s by auto
qed


end
