(* ===== verification/Scriptworker.thy ===== *)
theory Scriptworker
  imports Pools Luaapi "HOL-Library.Multiset"
begin

text \<open>
  Scripts in the background: \<^verbatim>\<open>core/scriptworker.hpp\<close> with the pool of Lua states of \<^verbatim>\<open>core/luapool.hpp\<close>.  \<open>create\<close> puts
  a script into the thread pool; a worker takes it, gets a Lua state, runs the script in it and gives the state back.

  The threads interleave between these steps.  A Lua state is its global variables and the height of its stack.  The record
  \<open>interp\<close> stands for the interpreter: a new state, the functions registered in \<open>luapool::reg\<close>, and what a script does to the
  variables and leaves on the stack (an error message when it fails).
\<close>

section \<open>Lua states\<close>










section \<open>The worker\<close>









section \<open>The invariant\<close>
























section \<open>Properties\<close>







end
