(* ===== verification/Launcher.thy ===== *)
theory Launcher
  imports Automanager
begin

text \<open>
  The programs that keep the others alive, \<^verbatim>\<open>launcher/launcher.cpp\<close> and \<^verbatim>\<open>launcher/daemon.cpp\<close> with \<^verbatim>\<open>launcher/common.hpp\<close>.  The
  launcher starts the daemon, the server and the screen lock again when they are gone, the daemon starts the launcher again; each ends at
  once when it finds another instance of itself.

  The state is the number of processes of each name.  A process of the two programs is \<open>starting\<close> until it has
  looked for other instances.  \<open>init_daemon\<close> forks twice and leaves one process; the text of \<open>ps -C name|wc -l\<close> is the
  number of processes and one, for the line with the headings.
\<close>

datatype prog = Launcher_p | Daemon_p | YRSSF_p | Lock_p

record procs =
  starting :: "prog \<Rightarrow> nat"
  alive :: "prog \<Rightarrow> nat"
  lockfile :: bool
  lockmode :: bool

definition total :: "procs \<Rightarrow> prog \<Rightarrow> nat" where
  "total s p = starting s p + alive s p"

text \<open>What \<open>popen\<close> and \<open>fgets\<close> give: no pipe, no line, or a line.  Without a line the function has no \<open>return\<close> and its value is \<open>junk\<close>.\<close>

datatype pipe = No_pipe | No_line | Line bytes

definition process_num :: "u32 \<Rightarrow> pipe \<Rightarrow> u32" where
  "process_num junk r = (case r of No_pipe \<Rightarrow> 0 | No_line \<Rightarrow> junk | Line buf \<Rightarrow> atoi (cstr buf))"



section \<open>The programs\<close>









text \<open>Processes start, look for others, take their turns and are killed in any order, and a user may start launchers and daemons, up to
  the number of processes of the system.\<close>

definition pid_max :: nat where "pid_max = 4194304"




section \<open>Counting\<close>




section \<open>Invariant\<close>

definition sup_inv :: "procs \<Rightarrow> bool" where
  "sup_inv s \<longleftrightarrow> (\<forall>p. total s p \<le> pid_max \<and> alive s p \<le> 1) \<and> starting s YRSSF_p = 0 \<and> starting s Lock_p = 0"




lemma sup_inv_lockmode [simp]: "sup_inv (s\<lparr>lockmode := b\<rparr>) = sup_inv s"
  by (simp add: sup_inv_def total_def)













section \<open>Recovery\<close>






section \<open>Properties\<close>


text \<open>When the pipe can not be opened, as for a system without free processes, the counting gives 0 and a second instance would be started.\<close>

lemma no_pipe_counts_zero: "\<not> 1 < sint (process_num junk No_pipe)"
  by (simp add: process_num_def)


end
