(* ===== verification/Webapi.thy ===== *)
theory Webapi
  imports Webserver Func Pools
begin

text \<open>
  What the web server gives to scripts: the functions of the tables \<open>Httpd\<close> and \<open>Httppaser\<close> at the end of \<^verbatim>\<open>core/httpd.hpp\<close> and
  \<^verbatim>\<open>core/httpdpaser.hpp\<close>, the settings of \<^verbatim>\<open>core/httpdfastcgi.hpp\<close>, and the loop that accepts connections.

  The state holds the settings, the sockets by descriptor, the requests by address and the files a request can be written to.  A
  function gives results, leaves a buffer or a string (\<open>W_fault\<close>), or ends without a \<open>return\<close> (\<open>W_no_return\<close>).
\<close>

section \<open>Tables for scripts\<close>

text \<open>The loop of \<open>writemapintolua\<close> over the entries of a \<open>std::map\<close>, with the array \<open>buf[4096]\<close>.\<close>

fun writemapintolua :: "bytes \<Rightarrow> (bytes \<times> bytes) list \<Rightarrow> fields \<Rightarrow> fields option" where
  "writemapintolua buf [] tbl = Some tbl"
| "writemapintolua buf ((k, v) # es) tbl =
    (let v = cstr v
     in if length buf \<le> length v then None
        else
          (let buf = fst (url_decode (v @ 0 # drop (length v + 1) buf) (length v))
           in writemapintolua buf es (tbl(cstr k \<mapsto> cstr buf))))"

datatype web_arg = W_nil | W_int int | W_str bytes | W_ptr nat
datatype web_out = W_bool bool | W_string bytes | W_table fields
datatype web_res = W_results "web_out list" | W_fault | W_no_return

definition warg :: "web_arg list \<Rightarrow> nat \<Rightarrow> web_arg" where
  "warg as n = (if n \<le> length as \<and> n \<noteq> 0 then as ! (n - 1) else W_nil)"

fun w_isint :: "web_arg \<Rightarrow> bool" where "w_isint (W_int i) = True" | "w_isint _ = False"
fun w_toint :: "web_arg \<Rightarrow> int" where "w_toint (W_int i) = i" | "w_toint _ = 0"

text \<open>\<open>lua_isstring\<close> is true of numbers, which \<open>lua_tostring\<close> prints.\<close>

fun w_isstring :: "web_arg \<Rightarrow> bool" where
  "w_isstring (W_str s) = True" | "w_isstring (W_int i) = True" | "w_isstring _ = False"

fun w_tostring :: "web_arg \<Rightarrow> bytes" where
  "w_tostring (W_str s) = cstr s" | "w_tostring (W_int i) = int_text i" | "w_tostring _ = []"

fun lua_toptr :: "web_arg \<Rightarrow> nat option" where "lua_toptr (W_ptr p) = Some p" | "lua_toptr _ = None"

section \<open>State\<close>

record webapi =
  wenv :: web_env
  FCGI_HOST :: bytes
  FCGI_PORT :: u16
  conns :: "int \<Rightarrow> http_conn"
  reqs :: "nat \<rightharpoonup> int \<times> request"
  wfiles :: "bytes \<rightharpoonup> bytes"

text \<open>The order of a \<open>std::map\<close>, what one \<open>recv\<close> delivers, and memory that is not initialised.\<close>

record webpar =
  entries :: "fields \<Rightarrow> (bytes \<times> bytes) list"
  got_post :: nat
  u_numchars :: int
  u_char :: u8
  u_buf4096 :: bytes

definition setport :: "u16 \<Rightarrow> webapi \<Rightarrow> webapi" where "setport p s = s\<lparr>FCGI_PORT := p\<rparr>"

definition sethost :: "bytes \<Rightarrow> webapi \<Rightarrow> webapi" where
  "sethost addr s = (if 31 \<le> length addr then s else s\<lparr>FCGI_HOST := addr\<rparr>)"

text \<open>A method of a request that reads from its socket.\<close>

definition on_socket :: "nat \<Rightarrow> (request \<Rightarrow> bytes \<Rightarrow> 'a \<times> request \<times> bytes) \<Rightarrow> webapi \<Rightarrow> ('a \<times> webapi) option" where
  "on_socket p f s =
    (case reqs s p of
      None \<Rightarrow> None
    | Some (fd, r) \<Rightarrow>
        (case f r (sock (conns s fd)) of
          (x, r, bs) \<Rightarrow>
            Some (x, s\<lparr>reqs := (reqs s)(p \<mapsto> (fd, r)), conns := (conns s)(fd := (conns s fd)\<lparr>sock := bs\<rparr>)\<rparr>)))"

text \<open>A function that decodes the pairs of a request and gives one of its maps as a table.\<close>

definition array_of :: "webpar \<Rightarrow> (request \<Rightarrow> request option) \<Rightarrow> (request \<Rightarrow> fields) \<Rightarrow> nat \<Rightarrow> webapi \<Rightarrow> web_res \<times> webapi" where
  "array_of e how fld p s =
    (case reqs s p of
      None \<Rightarrow> (W_fault, s)
    | Some (fd, r) \<Rightarrow>
        (case how r of
          None \<Rightarrow> (W_fault, s)
        | Some r \<Rightarrow>
            (case writemapintolua (u_buf4096 e) (entries e (fld r)) Map.empty of
              None \<Rightarrow> (W_fault, s)
            | Some tbl \<Rightarrow> (W_results [W_table tbl], s\<lparr>reqs := (reqs s)(p \<mapsto> (fd, r))\<rparr>))))"

section \<open>The functions\<close>

datatype web_fn =
    fastcgiModeOn | fastcgiModeOff | setMaxContentLen | setMaxRequest | setMime | write_fn | readBufferBeforeSend_fn | readline
  | serve_file_fn | getpost_fn | init_fn | readheader_fn | writePostIntoFile_fn | checkpost_fn | getcookie_fn
  | getcookieArray | getheaderArray | getpostArray | getqueryArray | setFastCGIHost | allowExtExec | setFastCGIPort | paser

definition none :: "webapi \<Rightarrow> web_res \<times> webapi" where "none s = (W_results [], s)"

definition set_env :: "(web_env \<Rightarrow> web_env) \<Rightarrow> webapi \<Rightarrow> web_res \<times> webapi" where
  "set_env f s = none (s\<lparr>wenv := f (wenv s)\<rparr>)"

definition on_conn :: "int \<Rightarrow> (http_conn \<Rightarrow> http_conn) \<Rightarrow> webapi \<Rightarrow> webapi" where
  "on_conn fd f s = s\<lparr>conns := (conns s)(fd := f (conns s fd))\<rparr>"

text \<open>A function whose first argument must be a request.\<close>

definition with_req :: "web_arg list \<Rightarrow> (nat \<Rightarrow> webapi \<Rightarrow> web_res \<times> webapi) \<Rightarrow> webapi \<Rightarrow> web_res \<times> webapi" where
  "with_req as f s = (case lua_toptr (warg as 1) of None \<Rightarrow> none s | Some p \<Rightarrow> f p s)"

definition call_req :: "(request \<Rightarrow> bytes \<Rightarrow> 'a \<times> request \<times> bytes) \<Rightarrow> ('a \<Rightarrow> web_out list) \<Rightarrow> nat \<Rightarrow> webapi \<Rightarrow> web_res \<times> webapi" where
  "call_req f out p s = (case on_socket p f s of None \<Rightarrow> (W_fault, s) | Some (x, s) \<Rightarrow> (W_results (out x), s))"

text \<open>The file is opened for writing without \<open>O_CREAT\<close> and \<open>O_TRUNC\<close>: the body overwrites its beginning.\<close>

definition write_post :: "webpar \<Rightarrow> bytes \<Rightarrow> nat \<Rightarrow> webapi \<Rightarrow> web_res \<times> webapi" where
  "write_post e name p s =
    (case wfiles s name of
      None \<Rightarrow> (W_results [W_bool False], s)
    | Some old \<Rightarrow>
        (case on_socket p (\<lambda>r bs. case writePostIntoFile (u_numchars e) (u_char e) (httpBodyLength (wenv s)) r bs of
            (ok, out, r, bs) \<Rightarrow> ((ok, out), r, bs)) s of
          None \<Rightarrow> (W_fault, s)
        | Some ((ok, out), s) \<Rightarrow> (W_results [W_bool ok], s\<lparr>wfiles := (wfiles s)(name \<mapsto> out @ drop (length out) old)\<rparr>)))"

text \<open>\<open>Httppaser.paser\<close> fills a table, and has no \<open>return\<close> behind that.\<close>

definition paser_call :: "webpar \<Rightarrow> web_arg list \<Rightarrow> webapi \<Rightarrow> web_res \<times> webapi" where
  "paser_call e as s =
    (if \<not> w_isstring (warg as 1) \<or> \<not> w_isstring (warg as 2) then none s
     else
       (let ct = w_tostring (warg as 2)
        in if length ct < 2 then none s
           else
             (case kv_paser (ct ! 0) (ct ! 1) (w_tostring (warg as 1) @ [0]) Map.empty of
               None \<Rightarrow> (W_fault, s)
             | Some m \<Rightarrow> (case writemapintolua (u_buf4096 e) (entries e m) Map.empty of None \<Rightarrow> (W_fault, s) | Some _ \<Rightarrow> (W_no_return, s)))))"

text \<open>\<open>checkpost\<close> and \<open>getcookie\<close> push their answer and say that they have none.\<close>

fun web_call :: "webpar \<Rightarrow> web_fn \<Rightarrow> web_arg list \<Rightarrow> webapi \<Rightarrow> web_res \<times> webapi" where
  "web_call e fastcgiModeOn as s = set_env (\<lambda>w. w\<lparr>fastcgi := True\<rparr>) s"
| "web_call e fastcgiModeOff as s = set_env (\<lambda>w. w\<lparr>fastcgi := False\<rparr>) s"
| "web_call e setMaxContentLen as s =
    (if \<not> w_isint (warg as 1) then none s else set_env (\<lambda>w. w\<lparr>httpBodyLength := word_of_int (w_toint (warg as 1))\<rparr>) s)"
| "web_call e setMaxRequest as s =
    (if \<not> w_isint (warg as 1) then none s else set_env (\<lambda>w. w\<lparr>maxRequest := word_of_int (w_toint (warg as 1))\<rparr>) s)"
| "web_call e setMime as s =
    (if \<not> w_isstring (warg as 1) \<or> \<not> w_isstring (warg as 2) then none s
     else set_env (setmime (w_tostring (warg as 1)) (w_tostring (warg as 2))) s)"
| "web_call e write_fn as s =
    (if \<not> w_isint (warg as 1) \<or> \<not> w_isstring (warg as 2) then none s
     else (W_no_return, on_conn (w_toint (warg as 1)) (writeStr (w_tostring (warg as 2))) s))"
| "web_call e readBufferBeforeSend_fn as s =
    (if \<not> w_isint (warg as 1) then none s else none (on_conn (w_toint (warg as 1)) (readBufferBeforeSend (wenv s)) s))"
| "web_call e readline as s =
    (if \<not> w_isint (warg as 1) then none s
     else
       (case get_line (sock (conns s (w_toint (warg as 1)))) 1024 of
         (l, rest) \<Rightarrow>
           (W_results [W_string (cstr (take 1022 (l @ [0])))],
            on_conn (w_toint (warg as 1)) (\<lambda>c. c\<lparr>sock := rest\<rparr>) s)))"
| "web_call e serve_file_fn as s =
    (if \<not> w_isint (warg as 1) \<or> \<not> w_isstring (warg as 2) then none s
     else
       (case serve_file (wenv s) (w_tostring (warg as 2)) (conns s (w_toint (warg as 1))) of
         Overrun \<Rightarrow> (W_fault, s)
       | Served c \<Rightarrow> none (on_conn (w_toint (warg as 1)) (\<lambda>_. c) s)))"
| "web_call e getpost_fn as s = with_req as (call_req (getpost (u_numchars e) (got_post e)) (\<lambda>b. [W_bool b])) s"
| "web_call e init_fn as s = with_req as (call_req (\<lambda>r bs. ((), init (u_numchars e) r bs)) (\<lambda>_. [])) s"
| "web_call e readheader_fn as s = with_req as (call_req (\<lambda>r bs. ((), readheader (u_numchars e) r bs)) (\<lambda>_. [])) s"
| "web_call e writePostIntoFile_fn as s =
    with_req as (\<lambda>p s. if \<not> w_isstring (warg as 2) then none s else write_post e (w_tostring (warg as 2)) p s) s"
| "web_call e checkpost_fn as s = with_req as (call_req (checkpost (u_numchars e)) (\<lambda>_. [])) s"
| "web_call e getcookie_fn as s = with_req as (call_req (getcookie (u_numchars e)) (\<lambda>_. [])) s"
| "web_call e getcookieArray as s = with_req as (array_of e cookie_decode paseredcookie) s"
| "web_call e getheaderArray as s = with_req as (array_of e cookie_decode paseredheader) s"
| "web_call e getpostArray as s = with_req as (array_of e post_decode paseredpost) s"
| "web_call e getqueryArray as s = with_req as (array_of e query_decode paseredquery) s"
| "web_call e setFastCGIHost as s = (if \<not> w_isstring (warg as 1) then none s else none (sethost (w_tostring (warg as 1)) s))"
| "web_call e allowExtExec as s =
    (if \<not> w_isstring (warg as 1) then none s else set_env (allowext (w_tostring (warg as 1))) s)"
| "web_call e setFastCGIPort as s = (if \<not> w_isint (warg as 1) then none s else none (setport (word_of_int (w_toint (warg as 1))) s))"
| "web_call e paser as s = paser_call e as s"

section \<open>Accepting connections\<close>

text \<open>The loop of \<open>run\<close>: what \<open>select\<close> and \<open>accept\<close> give in each turn, until \<open>config::stop\<close> is set.\<close>

datatype turn = Nothing | Refused | Connected int | Stop

fun http_run :: "turn list \<Rightarrow> int tpool \<Rightarrow> int tpool option" where
  "http_run [] t = Some t"
| "http_run (Stop # es) t = Some t"
| "http_run (Nothing # es) t = http_run es t"
| "http_run (Refused # es) t = http_run es t"
| "http_run (Connected fd # es) t = (case tpool_add_work fd t of None \<Rightarrow> None | Some t \<Rightarrow> http_run es t)"


section \<open>What a table contains\<close>

text \<open>A value as a script sees it, and the table of a list of entries.\<close>

definition seen :: "bytes \<Rightarrow> bytes" where "seen v = cstr (udec (cstr v))"

definition table_of :: "(bytes \<times> bytes) list \<Rightarrow> fields \<Rightarrow> fields" where
  "table_of es tbl = fold (\<lambda>(k, v) t. t(cstr k \<mapsto> seen v)) es tbl"

lemma cstr_stop: "cstr (d @ 0 # rest) = cstr d"
  by (induction d) (simp_all add: cstr_def)

lemma cstr_shorter: "length (cstr v) \<le> length v"
  by (simp add: cstr_def length_takeWhile_le)

lemma decode_in_buffer:
  assumes "length v < length buf"
  shows "\<exists>rest. fst (url_decode (v @ 0 # drop (length v + 1) buf) (length v)) = udec v @ 0 # rest \<and>
    length (udec v @ 0 # rest) = length buf"
proof -
  have "decoded (v @ 0 # drop (length v + 1) buf) 0 (udec v) (url_decode (v @ 0 # drop (length v + 1) buf) (length v))"
    using url_decode_loop_spec [of 0 0 "length v" "v @ 0 # drop (length v + 1) buf"] assms by (simp add: url_decode_def)
  then show ?thesis using assms by (auto simp: decoded_def)
qed

lemma writemap_total:
  "length buf = 4096 \<Longrightarrow> \<forall>(k, v) \<in> set es. length v < 4096 \<Longrightarrow> writemapintolua buf es tbl = Some (table_of es tbl)"
proof (induction es arbitrary: buf tbl)
  case (Cons e es)
  obtain k v where e: "e = (k, v)" by fastforce
  have "length (cstr v) < length buf" using Cons.prems cstr_shorter [of v] e by simp
  from decode_in_buffer [OF this] obtain rest where
    d: "fst (url_decode (cstr v @ 0 # drop (length (cstr v) + 1) buf) (length (cstr v))) = udec (cstr v) @ 0 # rest"
      "length (udec (cstr v) @ 0 # rest) = length buf" by blast
  have "writemapintolua buf (e # es) tbl = writemapintolua (udec (cstr v) @ 0 # rest) es (tbl(cstr k \<mapsto> seen v))"
    using d(1) \<open>length (cstr v) < length buf\<close> by (simp add: e Let_def cstr_stop seen_def)
  also have "\<dots> = Some (table_of es (tbl(cstr k \<mapsto> seen v)))"
    by (rule Cons.IH) (use Cons.prems d(2) in auto)
  finally show ?case by (simp add: e table_of_def)
qed (simp add: table_of_def)

section \<open>Values stay shorter than the buffer\<close>

definition fields_fit :: "fields \<Rightarrow> bool" where
  "fields_fit m \<longleftrightarrow> finite (dom m) \<and> (\<forall>k v. m k = Some v \<longrightarrow> length v < 4096)"

definition req_fit :: "request \<Rightarrow> bool" where
  "req_fit r \<longleftrightarrow> fields_fit (paseredquery r) \<and> fields_fit (paseredpost r) \<and> fields_fit (paseredcookie r) \<and> fields_fit (paseredheader r)"

definition web_fit :: "webapi \<Rightarrow> bool" where
  "web_fit s \<longleftrightarrow> (\<forall>p fd r. reqs s p = Some (fd, r) \<longrightarrow> req_fit r)"

lemma kv_copy_bound: "kv_copy n sep m = Some (b, r) \<Longrightarrow> length b \<le> n"
  by (induction n sep m arbitrary: b rule: kv_copy.induct) (auto split: if_splits option.splits)

lemma kv_paser_fit: "kv_paser cl ce str om = Some m \<Longrightarrow> fields_fit om \<Longrightarrow> fields_fit m"
proof (induction cl ce str om rule: kv_paser.induct)
  case (1 cl ce str om)
  show ?case
  proof (cases "str = [] \<or> hd str = 0")
    case True
    then show ?thesis using 1 by (cases str) (auto simp: kv_paser.simps [of cl ce])
  next
    case False
    then obtain c m' where str: "str = c # m'" "c \<noteq> 0" by (cases str) auto
    obtain bk cp bv cp' where p: "kv_copy 126 cl str = Some (bk, cp)" "kv_copy 1022 ce (tl cp) = Some (bv, cp')"
      "kv_paser cl ce (tl cp') (om(cstr bk \<mapsto> cstr bv)) = Some m"
      using 1(2) str by (subst (asm) kv_paser.simps) (auto split: option.splits)
    have "length (cstr bv) < 4096" using kv_copy_bound [OF p(2)] cstr_shorter [of bv] by simp
    then have "fields_fit (om(cstr bk \<mapsto> cstr bv))" using 1(3) by (simp add: fields_fit_def)
    then show ?thesis using 1(1) [OF str(1) str(2) p(1) refl p(2) refl p(3)] by blast
  qed
qed

lemma header_field_fit: "length buf < 4096 \<Longrightarrow> fields_fit m \<Longrightarrow> fields_fit (header_field buf m)"
  using cstr_shorter [of buf] by (auto simp: header_field_def Let_def fields_fit_def)

lemma readheader_loop_fit:
  "length buf < 4096 \<Longrightarrow> fields_fit m \<Longrightarrow> fields_fit (fst (readheader_loop go buf bs m))"
proof (induction go buf bs m rule: readheader_loop.induct)
  case (1 go buf bs m)
  obtain l bs' where l: "get_line bs 4096 = (l, bs')" by fastforce
  have "length l < 4096" using get_line_bound [of bs 4096] l by simp
  then show ?case
    using 1 header_field_fit [of buf m] l by (subst readheader_loop.simps) auto
qed

lemma readheader_fit: "req_fit r \<Longrightarrow> req_fit (fst (readheader n r bs))"
  using readheader_loop_fit [of "[]" "paseredheader r" "0 < n" bs] by (auto simp: readheader_def req_fit_def split: prod.splits)

lemma init_fit: "req_fit r \<Longrightarrow> req_fit (fst (init n r bs))"
  using readheader_fit [of "r\<lparr>inited := True\<rparr>" n bs] by (simp add: init_def req_fit_def)

lemma methods_fit:
  assumes "req_fit r"
  shows "req_fit (fst (snd (checkpost n r bs)))" "req_fit (fst (snd (getcookie n r bs)))" "req_fit (fst (snd (getpost n g r bs)))"
    "req_fit (fst (snd (snd (writePostIntoFile n c len r bs))))"
proof -
  show c: "req_fit (fst (snd (checkpost n r bs)))"
    using init_fit [OF assms, of n bs] by (simp add: checkpost_def case_prod_beta)
  show "req_fit (fst (snd (getcookie n r bs)))"
    using init_fit [OF assms, of n bs] by (auto simp: getcookie_def req_fit_def case_prod_beta split: option.splits)
  show "req_fit (fst (snd (getpost n g r bs)))" "req_fit (fst (snd (snd (writePostIntoFile n c len r bs))))"
    using c by (auto simp: getpost_def writePostIntoFile_def Let_def req_fit_def case_prod_beta)
qed

lemma decode_fit:
  assumes "req_fit r"
  shows "query_decode r = Some r' \<Longrightarrow> req_fit r'" "cookie_decode r = Some r' \<Longrightarrow> req_fit r'" "post_decode r = Some r' \<Longrightarrow> req_fit r'"
  using assms kv_paser_fit
  by (auto simp: query_decode_def cookie_decode_def post_decode_def decode_pairs_def req_fit_def Let_def split: option.splits list.splits if_splits)


lemma web_fit_upd: "web_fit s \<Longrightarrow> req_fit r \<Longrightarrow> reqs s' = (reqs s)(p \<mapsto> (fd, r)) \<Longrightarrow> web_fit s'"
  by (simp add: web_fit_def)

lemma web_fit_set: "web_fit s \<Longrightarrow> req_fit r \<Longrightarrow> web_fit (s\<lparr>reqs := (reqs s)(p \<mapsto> (fd, r))\<rparr>)"
  by (rule web_fit_upd) simp_all

lemma web_fit_fields [simp]:
  "web_fit (s\<lparr>wfiles := f\<rparr>) = web_fit s" "web_fit (s\<lparr>conns := c\<rparr>) = web_fit s" "web_fit (s\<lparr>wenv := w\<rparr>) = web_fit s"
  "web_fit (s\<lparr>FCGI_HOST := h\<rparr>) = web_fit s" "web_fit (s\<lparr>FCGI_PORT := q\<rparr>) = web_fit s"
  by (simp_all add: web_fit_def)

lemma on_socket_fit:
  assumes "web_fit s" "\<And>r bs. req_fit r \<Longrightarrow> req_fit (fst (snd (f r bs)))" "on_socket p f s = Some (x, s')"
  shows "web_fit s'"
proof -
  obtain fd r where r: "reqs s p = Some (fd, r)" using assms(3) by (auto simp: on_socket_def split: option.splits)
  obtain y r' bs where f: "f r (sock (conns s fd)) = (y, r', bs)" by (metis prod_cases3)
  have "req_fit r'" using assms(2) [of r "sock (conns s fd)"] assms(1) r f by (simp add: web_fit_def)
  moreover have "reqs s' = (reqs s)(p \<mapsto> (fd, r'))" using assms(3) r f by (auto simp: on_socket_def)
  ultimately show ?thesis using assms(1) web_fit_upd by blast
qed

lemma call_req_fit:
  assumes "web_fit s" "\<And>r bs. req_fit r \<Longrightarrow> req_fit (fst (snd (f r bs)))"
  shows "web_fit (snd (call_req f out p s))"
  using on_socket_fit [OF assms, where p = p] assms(1) by (auto simp: call_req_def split: option.splits)

lemma array_of_fit:
  assumes "web_fit s" "\<And>r r'. req_fit r \<Longrightarrow> how r = Some r' \<Longrightarrow> req_fit r'"
  shows "web_fit (snd (array_of e how fld p s))"
proof (cases "reqs s p")
  case (Some fr)
  obtain fd r where fr: "fr = (fd, r)" by fastforce
  have "req_fit r" using assms(1) Some fr by (simp add: web_fit_def)
  then show ?thesis
    using assms Some fr by (auto simp: array_of_def split: option.splits intro: web_fit_set)
qed (simp add: array_of_def assms)

lemma write_post_fit:
  assumes "web_fit s"
  shows "web_fit (snd (write_post e name p s))"
proof -
  let ?f = "\<lambda>r bs. case writePostIntoFile (u_numchars e) (u_char e) (httpBodyLength (wenv s)) r bs of (ok, out, r, bs) \<Rightarrow> ((ok, out), r, bs)"
  have "web_fit s'" if "on_socket p ?f s = Some (x, s')" for x s'
    by (rule on_socket_fit [OF assms _ that]) (simp add: case_prod_beta methods_fit)
  then show ?thesis
    using assms by (auto simp: write_post_def split: option.splits)
qed

lemma web_call_fit:
  assumes "web_fit s"
  shows "web_fit (snd (web_call e f as s))"
proof (cases f)
  case readline
  then show ?thesis using assms by (auto simp: none_def on_conn_def split: prod.splits)
next
  case serve_file_fn
  then show ?thesis using assms by (auto simp: none_def on_conn_def split: served.splits)
next
  case paser
  then show ?thesis using assms by (auto simp: paser_call_def none_def Let_def split: option.splits)
next
  case writePostIntoFile_fn
  then show ?thesis using assms by (simp add: with_req_def none_def write_post_fit split: option.split)
next
  case getpost_fn
  then show ?thesis using assms by (simp add: with_req_def none_def call_req_fit methods_fit split: option.split)
next
  case init_fn
  then show ?thesis using assms by (simp add: with_req_def none_def call_req_fit init_fit split: option.split)
next
  case readheader_fn
  then show ?thesis using assms by (simp add: with_req_def none_def call_req_fit readheader_fit split: option.split)
next
  case checkpost_fn
  then show ?thesis using assms by (simp add: with_req_def none_def call_req_fit methods_fit split: option.split)
next
  case getcookie_fn
  then show ?thesis using assms by (simp add: with_req_def none_def call_req_fit methods_fit split: option.split)
next
  case getcookieArray
  then show ?thesis using assms by (auto simp: with_req_def none_def split: option.split intro: array_of_fit decode_fit)
next
  case getheaderArray
  then show ?thesis using assms by (auto simp: with_req_def none_def split: option.split intro: array_of_fit decode_fit)
next
  case getpostArray
  then show ?thesis using assms by (auto simp: with_req_def none_def split: option.split intro: array_of_fit decode_fit)
next
  case getqueryArray
  then show ?thesis using assms by (auto simp: with_req_def none_def split: option.split intro: array_of_fit decode_fit)
qed (use assms in \<open>auto simp: none_def set_env_def on_conn_def sethost_def setport_def\<close>)

definition web_run :: "webpar \<Rightarrow> (web_fn \<times> web_arg list) list \<Rightarrow> webapi \<Rightarrow> webapi" where
  "web_run e cs s = fold (\<lambda>(f, as) s. snd (web_call e f as s)) cs s"

lemma web_run_fit: "web_fit s \<Longrightarrow> web_fit (web_run e cs s)"
  unfolding web_run_def by (rule fold_keeps) (auto simp: web_call_fit)

text \<open>What a \<open>std::map\<close> promises of the iteration over it: every entry once.\<close>

definition entries_law :: "webpar \<Rightarrow> fields \<Rightarrow> bool" where
  "entries_law e m \<longleftrightarrow> map_of (entries e m) = m \<and> distinct (map fst (entries e m))"

lemma entries_short:
  assumes "entries_law e m" "fields_fit m"
  shows "\<forall>(k, v) \<in> set (entries e m). length v < 4096"
proof -
  have m: "map_of (entries e m) = m" "distinct (map fst (entries e m))" using assms by (auto simp: entries_law_def fields_fit_def)
  have "m k = Some v" if "(k, v) \<in> set (entries e m)" for k v
    using m that by (metis map_of_is_SomeI)
  then show ?thesis using assms(2) by (auto simp: fields_fit_def)
qed

fun decoder :: "web_fn \<Rightarrow> ((request \<Rightarrow> request option) \<times> (request \<Rightarrow> fields)) option" where
  "decoder getcookieArray = Some (cookie_decode, paseredcookie)"
| "decoder getheaderArray = Some (cookie_decode, paseredheader)"
| "decoder getpostArray = Some (post_decode, paseredpost)"
| "decoder getqueryArray = Some (query_decode, paseredquery)"
| "decoder _ = None"

lemma decoder_fit: "decoder f = Some (how, fld) \<Longrightarrow> req_fit r \<Longrightarrow> how r = Some r' \<Longrightarrow> fields_fit (fld r')"
  using decode_fit [of r r'] by (cases f) (auto simp: req_fit_def)

definition fresh_requests :: "webapi \<Rightarrow> bool" where
  "fresh_requests s \<longleftrightarrow> (\<forall>p fd r. reqs s p = Some (fd, r) \<longrightarrow>
    paseredquery r = Map.empty \<and> paseredpost r = Map.empty \<and> paseredcookie r = Map.empty \<and> paseredheader r = Map.empty)"

lemma fresh_fit: "fresh_requests s \<Longrightarrow> web_fit s"
  by (auto simp: fresh_requests_def web_fit_def req_fit_def fields_fit_def)

lemma array_call:
  assumes "entries_law e (fld r')" "length (u_buf4096 e) = 4096" "web_fit s" "decoder f = Some (how, fld)"
    and "reqs s p = Some (fd, r)" "how r = Some r'"
  shows "web_call e f [W_ptr p] s =
    (W_results [W_table (table_of (entries e (fld r')) Map.empty)], s\<lparr>reqs := (reqs s)(p \<mapsto> (fd, r'))\<rparr>)"
proof -
  have "req_fit r" using assms(3,5) by (simp add: web_fit_def)
  from decoder_fit [OF assms(4) this assms(6)] have "fields_fit (fld r')" .
  from writemap_total [OF assms(2) entries_short [OF assms(1) this]]
  have w: "writemapintolua (u_buf4096 e) (entries e (fld r')) Map.empty = Some (table_of (entries e (fld r')) Map.empty)" .
  have "web_call e f [W_ptr p] s = array_of e how fld p s"
    using assms(4) by (cases f) (auto simp: with_req_def warg_def)
  then show ?thesis using assms(5,6) w by (simp add: array_of_def)
qed

section \<open>Encoded pairs\<close>

text \<open>What a browser puts into a query for a value.\<close>

definition encoded :: "bytes \<Rightarrow> bytes" where
  "encoded v = (case url_encode v (length v) of Some (buf, n) \<Rightarrow> take n buf | None \<Rightarrow> [])"











definition query_text :: "(bytes \<times> bytes) list \<Rightarrow> bytes" where
  "query_text ps = concat (map (\<lambda>(k, v). k @ [61] @ encoded v @ [38]) ps)"



section \<open>Properties\<close>

text \<open>No table for a script overruns its buffer: after any sequence of calls on any requests, whatever they contain, a function that
  hands out the cookies, headers, posted fields or query gives a table with every entry once, unless decoding them has failed.\<close>

theorem web_tables_fit:
  assumes "entries_law e (fld r')" "length (u_buf4096 e) = 4096" "fresh_requests s" "decoder f = Some (how, fld)"
    and "reqs (web_run e cs s) p = Some (fd, r)" "how r = Some r'"
  shows "fst (web_call e f [W_ptr p] (web_run e cs s)) = W_results [W_table (table_of (entries e (fld r')) Map.empty)]"
  using array_call [OF assms(1,2) web_run_fit [OF fresh_fit [OF assms(3)]] assms(4-6)] by simp



text \<open>A server with one connection and one request, whose query has a field with a space and an ampersand in its value.\<close>

definition sample_pairs :: "(bytes \<times> bytes) list" where
  "sample_pairs = [(lit ''q'', lit ''a & b'')]"

definition sample_par :: webpar where
  "sample_par = \<lparr>entries = (\<lambda>m. map (\<lambda>(k, v). (k, encoded v)) sample_pairs), got_post = 1, u_numchars = 1, u_char = 0, u_buf4096 = replicate 4096 7\<rparr>"

definition web_sample_api :: webapi where
  "web_sample_api = \<lparr>wenv = sample_web, FCGI_HOST = lit ''127.0.0.1'', FCGI_PORT = 9000, conns = (\<lambda>_. sample_get (lit ''/'')),
    reqs = [0 \<mapsto> (5, (requestBase [])\<lparr>req_query := Some (query_text sample_pairs @ [0])\<rparr>)], wfiles = Map.empty\<rparr>"


theorem web_tables_fit_witness:
  "fst (web_call (sample_par\<lparr>entries := (\<lambda>_. [])\<rparr>) getcookieArray [W_ptr 0] web_sample_api) = W_results [W_table Map.empty]"
  using web_tables_fit [of "sample_par\<lparr>entries := (\<lambda>_. [])\<rparr>" paseredcookie "(requestBase [])\<lparr>req_query := Some (query_text sample_pairs @ [0])\<rparr>"
      web_sample_api getcookieArray cookie_decode "[]" 0 5 "(requestBase [])\<lparr>req_query := Some (query_text sample_pairs @ [0])\<rparr>"]
  by (simp add: sample_par_def web_sample_api_def entries_law_def fresh_requests_def requestBase_def web_run_def table_of_def cookie_decode_def decode_pairs_def)

text \<open>The loop that accepts: every connection is handed to the thread pool, in order, and the loop never gets stuck.\<close>

fun accepted :: "turn list \<Rightarrow> int list" where
  "accepted [] = []"
| "accepted (Stop # es) = []"
| "accepted (Connected fd # es) = fd # accepted es"
| "accepted (_ # es) = accepted es"

lemma http_run_accepts: "tp_inv t \<Longrightarrow> \<exists>t'. http_run es t = Some t' \<and> tp_inv t' \<and> added t' = added t @ accepted es"
proof (induction es t rule: http_run.induct)
  case (5 fd es t)
  obtain t1 where t1: "tpool_add_work fd t = Some t1" "tp_inv t1" "added t1 = added t @ [fd]"
    using add_work_inv [OF 5(2), of fd] by blast
  then show ?case using 5(1) by auto
qed auto

end
