(* ===== verification/Keys.thy ===== *)
theory Keys
  imports Registration
begin

text \<open>
  The classes \<open>Signer\<close> and \<open>Key\<close> of \<^verbatim>\<open>core/key.hpp\<close>.  A \<open>Signer\<close> is one element of the chain the server checks signatures with, a \<open>Key\<close>
  is one side of a key exchange.

  OpenSSL is the record \<open>ec\<close> over private keys and points of the curve; \<open>generate i\<close> is the private key of the \<open>i\<close>-th call for a
  new key pair.  \<open>point\<close> in both classes is a pointer into the key pair, taken when the pair was made; what it shows after the public
  key was replaced, OpenSSL does not say, and \<open>stale\<close> of the old and the new point stands for it.  A null key and a read behind
  the end of a string are faults (\<open>None\<close>).
\<close>

record ('n, 'p) ec =
  generate :: "nat \<Rightarrow> 'n"
  public_of :: "'n \<Rightarrow> 'p"
  point2oct :: "'p \<Rightarrow> bytes"
  oct2point :: "bytes \<Rightarrow> 'p option"
  infinity :: 'p
  stale :: "'p \<Rightarrow> 'p \<Rightarrow> 'p"
  bn2hex :: "'n \<Rightarrow> bytes"
  hex2bn :: "bytes \<Rightarrow> 'n"
  ECDSA_sign :: "'n \<Rightarrow> bytes \<Rightarrow> bytes option"
  ECDSA_verify :: "'p \<Rightarrow> bytes \<Rightarrow> bytes \<Rightarrow> u32 \<Rightarrow> bool"
  ECDH_compute_key :: "'n \<Rightarrow> 'p \<Rightarrow> bytes option"

section \<open>Signers\<close>

record ('n, 'p) Signer =
  pair :: "('n \<times> 'p) option"
  point :: 'p
  pubkey :: bytes
  privkey :: "bytes option"

text \<open>The constructor leaves \<open>point\<close> and \<open>pubkey\<close> as they are in memory.\<close>

definition new_Signer :: "'p \<Rightarrow> bytes \<Rightarrow> ('n, 'p) Signer" where
  "new_Signer q junk = \<lparr>pair = None, point = q, pubkey = junk, privkey = None\<rparr>"

text \<open>\<open>EC_POINT_point2oct\<close> into the array, and the point of 33 bytes; when they are no point, a new point stays at infinity.\<close>

definition put_point :: "('n, 'p) ec \<Rightarrow> 'p \<Rightarrow> bytes \<Rightarrow> bytes" where
  "put_point E q pub = point2oct E q @ drop (length (point2oct E q)) pub"

definition get_point :: "('n, 'p) ec \<Rightarrow> bytes \<Rightarrow> 'p" where
  "get_point E pbk = (case oct2point E (take 33 pbk) of None \<Rightarrow> infinity E | Some q \<Rightarrow> q)"

definition signer_init :: "('n, 'p) ec \<Rightarrow> nat \<times> ('n, 'p) Signer \<Rightarrow> bool \<times> nat \<times> ('n, 'p) Signer" where
  "signer_init E = (\<lambda>(i, s).
    if pair s \<noteq> None then (False, i, s)
    else
      (let n = generate E i; q = public_of E n
       in (point2oct E q \<noteq> [], i + 1,
           s\<lparr>pair := Some (n, q), point := q, privkey := Some (bn2hex E n), pubkey := put_point E q (pubkey s)\<rparr>)))"

definition updatekeystr :: "('n, 'p) ec \<Rightarrow> ('n, 'p) Signer \<Rightarrow> ('n, 'p) Signer" where
  "updatekeystr E s = s\<lparr>pubkey := put_point E (point s) (pubkey s), privkey := map_option (\<lambda>(n, q). bn2hex E n) (pair s)\<rparr>"

definition need_pair :: "('n, 'p) ec \<Rightarrow> nat \<times> ('n, 'p) Signer \<Rightarrow> nat \<times> ('n, 'p) Signer" where
  "need_pair E x = (if pair (snd x) = None then snd (signer_init E x) else x)"

definition setpublickey_point :: "('n, 'p) ec \<Rightarrow> 'p \<Rightarrow> nat \<times> ('n, 'p) Signer \<Rightarrow> nat \<times> ('n, 'p) Signer" where
  "setpublickey_point E q x =
    (case need_pair E x of (i, s) \<Rightarrow>
      (i, updatekeystr E (s\<lparr>pair := map_option (\<lambda>(n, p). (n, q)) (pair s), point := stale E (point s) q\<rparr>)))"

definition setprivatekey_bn :: "('n, 'p) ec \<Rightarrow> 'n \<Rightarrow> nat \<times> ('n, 'p) Signer \<Rightarrow> nat \<times> ('n, 'p) Signer" where
  "setprivatekey_bn E n x =
    (case need_pair E x of (i, s) \<Rightarrow> (i, updatekeystr E (s\<lparr>pair := map_option (\<lambda>(m, p). (n, p)) (pair s)\<rparr>)))"

text \<open>\<open>setpublickey\<close> of a string reads 33 bytes from it, its terminator among them.\<close>

definition setpublickey :: "('n, 'p) ec \<Rightarrow> bytes \<Rightarrow> nat \<times> ('n, 'p) Signer \<Rightarrow> (nat \<times> ('n, 'p) Signer) option" where
  "setpublickey E pbk x =
    (if length (pbk @ [0]) < 33 then None else Some (setpublickey_point E (get_point E (pbk @ [0])) (need_pair E x)))"

definition setprivatekey :: "('n, 'p) ec \<Rightarrow> bytes \<Rightarrow> nat \<times> ('n, 'p) Signer \<Rightarrow> nat \<times> ('n, 'p) Signer" where
  "setprivatekey E pvk x = setprivatekey_bn E (hex2bn E (cstr pvk)) (need_pair E x)"

definition signer_restore :: "('n, 'p) ec \<Rightarrow> bytes \<Rightarrow> bytes \<Rightarrow> nat \<times> ('n, 'p) Signer \<Rightarrow> (nat \<times> ('n, 'p) Signer) option" where
  "signer_restore E pvk pbk x = setpublickey E pbk (setprivatekey E pvk (snd (signer_init E x)))"

definition signer_public :: "('n, 'p) ec \<Rightarrow> bytes \<Rightarrow> nat \<times> ('n, 'p) Signer \<Rightarrow> (nat \<times> ('n, 'p) Signer) option" where
  "signer_public E pbk x = setpublickey E pbk (snd (signer_init E x))"

definition signer_sign :: "('n, 'p) ec \<Rightarrow> bytes \<Rightarrow> ('n, 'p) Signer \<Rightarrow> bytes option option" where
  "signer_sign E bs s = map_option (\<lambda>(n, q). ECDSA_sign E n bs) (pair s)"

text \<open>\<open>check\<close> goes through the chain and looks at the first 20 bytes, whatever the length is.\<close>

primrec chain_check :: "('n, 'p) ec \<Rightarrow> bytes \<Rightarrow> nat \<Rightarrow> bytes \<Rightarrow> u32 \<Rightarrow> ('n, 'p) Signer list \<Rightarrow> bool option" where
  "chain_check E bs datalen signature sig_len [] = Some False"
| "chain_check E bs datalen signature sig_len (s # more_signers) =
    (case pair s of
      None \<Rightarrow> None
    | Some (n, q) \<Rightarrow>
        if ECDSA_verify E q (take 20 bs) signature sig_len then Some True else chain_check E bs datalen signature sig_len more_signers)"

text \<open>\<open>add\<close>: a new signer behind the first.\<close>

definition chain_add :: "('n, 'p) ec \<Rightarrow> 'p \<Rightarrow> bytes \<Rightarrow> bytes \<Rightarrow> nat \<times> ('n, 'p) Signer list \<Rightarrow> (nat \<times> ('n, 'p) Signer list) option" where
  "chain_add E q junk pbk = (\<lambda>(i, chain).
    map_option (\<lambda>(i, s). (i, take 1 chain @ s # drop 1 chain)) (signer_public E pbk (i, new_Signer q junk)))"

primrec chain_add_all :: "('n, 'p) ec \<Rightarrow> 'p \<Rightarrow> bytes \<Rightarrow> bytes list \<Rightarrow> nat \<times> ('n, 'p) Signer list \<Rightarrow> (nat \<times> ('n, 'p) Signer list) option" where
  "chain_add_all E q junk [] x = Some x"
| "chain_add_all E q junk (pbk # pbks) x = Option.bind (chain_add E q junk pbk x) (chain_add_all E q junk pbks)"

section \<open>Key exchange\<close>

text \<open>\<open>buf\<close> is the struct \<open>netSendkey\<close>: \<open>siglen\<close>, \<open>sign\<close> and \<open>pubkey\<close> at 0, 4 and 1028.\<close>

record ('n, 'p) Key =
  ecdh :: "('n \<times> 'p) option"
  buf :: bytes
  own :: bytes
  shared :: bytes
  len :: int

definition new_Key :: "bytes \<Rightarrow> bytes \<Rightarrow> bytes \<Rightarrow> int \<Rightarrow> ('n, 'p) Key" where
  "new_Key b junk junk' l = \<lparr>ecdh = None, buf = b, own = junk, shared = junk', len = l\<rparr>"

definition key_init :: "('n, 'p) ec \<Rightarrow> nat \<times> ('n, 'p) Key \<Rightarrow> bool \<times> nat \<times> ('n, 'p) Key" where
  "key_init E = (\<lambda>(i, k).
    let n = generate E i; q = public_of E n; l = int (length (point2oct E q))
    in (l \<noteq> 0, i + 1, k\<lparr>ecdh := Some (n, q), own := put_point E q (own k), len := l\<rparr>))"

text \<open>\<open>ECDH_compute_key\<close> stores at most 33 bytes; its failure is -1, which is not the 0 that \<open>computekey\<close> tests.  The variant with
  \<open>out\<close> stores there.\<close>

definition compute_into :: "('n, 'p) ec \<Rightarrow> bytes \<Rightarrow> bytes \<Rightarrow> ('n, 'p) Key \<Rightarrow> (bool \<times> bytes \<times> ('n, 'p) Key) option" where
  "compute_into E pubkey2 out k =
    (case ecdh k of
      None \<Rightarrow> None
    | Some (n, q) \<Rightarrow>
        (case ECDH_compute_key E n (get_point E pubkey2) of
          None \<Rightarrow> Some (True, out, k\<lparr>len := -1\<rparr>)
        | Some x \<Rightarrow>
            (let x = take 33 x in Some (x \<noteq> [], x @ drop (length x) out, k\<lparr>len := int (length x)\<rparr>))))"

definition computekey :: "('n, 'p) ec \<Rightarrow> bytes \<Rightarrow> ('n, 'p) Key \<Rightarrow> (bool \<times> ('n, 'p) Key) option" where
  "computekey E pubkey2 k = map_option (\<lambda>(b, x, k). (b, k\<lparr>shared := x\<rparr>)) (compute_into E pubkey2 (shared k) k)"

definition initbuf :: "('n, 'p) ec \<Rightarrow> nat \<times> ('n, 'p) Key \<Rightarrow> nat \<times> ('n, 'p) Key" where
  "initbuf E x = (case snd (key_init E x) of (i, k) \<Rightarrow> (i, k\<lparr>buf := set_field 1028 (take 33 (own k)) (buf k)\<rparr>))"


definition checksign :: "('n, 'p) ec \<Rightarrow> ('n, 'p) Signer list \<Rightarrow> ('n, 'p) Key \<Rightarrow> bool option" where
  "checksign E chain k =
    (let l = ntohl_bytes (field 0 4 (buf k))
     in if 1024 < l then Some False else chain_check E (field 1028 33 (buf k)) 33 (field 4 1024 (buf k)) l chain)"

text \<open>\<open>sign\<close>: when \<open>ECDSA_sign\<close> fails, the length is what the stack held.\<close>

definition key_sign :: "('n, 'p) ec \<Rightarrow> u32 \<Rightarrow> ('n, 'p) Signer list \<Rightarrow> ('n, 'p) Key \<Rightarrow> ('n, 'p) Key option" where
  "key_sign E junk chain k =
    (case chain of
      [] \<Rightarrow> None
    | s # _ \<Rightarrow>
        (case signer_sign E (field 1028 33 (buf k)) s of
          None \<Rightarrow> None
        | Some None \<Rightarrow> Some (k\<lparr>buf := set_field 0 (htonl_bytes junk) (buf k)\<rparr>)
        | Some (Some g) \<Rightarrow>
            Some (k\<lparr>buf := set_field 0 (htonl_bytes (word_of_nat (length g))) (set_field 4 g (buf k))\<rparr>)))"

section \<open>Chains\<close>

text \<open>What one signer accepts; the chain is the list of these tests, with which certificates are checked.\<close>

definition accepts :: "('n, 'p) ec \<Rightarrow> ('n, 'p) Signer \<Rightarrow> signer" where
  "accepts E s d signature sig_len \<longleftrightarrow> (case pair s of None \<Rightarrow> False | Some (n, q) \<Rightarrow> ECDSA_verify E q d signature sig_len)"

lemma chain_check_refines:
  "\<forall>s \<in> set chain. pair s \<noteq> None \<Longrightarrow>
    chain_check E bs datalen signature sig_len chain = Some (signer_check (map (accepts E) chain) bs datalen signature sig_len)"
  by (induction chain) (auto simp: accepts_def)

lemma signer_check_iff: "signer_check ks bs datalen signature sig_len \<longleftrightarrow> (\<exists>k \<in> set ks. k (take 20 bs) signature sig_len)"
  by (induction ks) auto

text \<open>What each operation makes of the key pair.\<close>

lemma init_known: "pair (snd x) \<noteq> None \<Longrightarrow> need_pair E x = x" "pair (snd (snd (signer_init E x))) \<noteq> None"
  by (cases x, auto simp: need_pair_def signer_init_def Let_def)+

lemma setpublic_pair:
  "pair (snd x) = Some (n, p) \<Longrightarrow> setpublickey E pbk x = Some (i, s) \<Longrightarrow> pair s = Some (n, get_point E (pbk @ [0]))"
  by (cases x) (auto simp: setpublickey_def setpublickey_point_def need_pair_def updatekeystr_def split: if_splits)

lemma setprivate_pair:
  "pair (snd x) = Some (n, p) \<Longrightarrow> pair (snd (setprivatekey E pvk x)) = Some (hex2bn E (cstr pvk), p)"
  by (cases x) (auto simp: setprivatekey_def setprivatekey_bn_def need_pair_def updatekeystr_def)

lemma public_pair:
  assumes "signer_public E pbk x = Some (i, s)"
  shows "\<exists>n. pair s = Some (n, get_point E (pbk @ [0]))"
proof -
  obtain n p where "pair (snd (snd (signer_init E x))) = Some (n, p)" using init_known(2) [of E x] by auto
  from setpublic_pair [OF this] assms show ?thesis by (auto simp: signer_public_def)
qed

lemma chain_add_effect:
  assumes "chain_add E q junk pbk (i, chain) = Some (i', chain')" "chain \<noteq> []"
  shows "\<exists>s n. pair s = Some (n, get_point E (pbk @ [0])) \<and> chain' = hd chain # s # tl chain"
proof -
  from assms(1) obtain s where s: "signer_public E pbk (i, new_Signer q junk) = Some (i', s)" "chain' = take 1 chain @ s # drop 1 chain"
    by (auto simp: chain_add_def)
  have "chain' = hd chain # s # tl chain" using s(2) assms(2) by (cases chain) auto
  then show ?thesis using public_pair [OF s(1)] by blast
qed

definition verifiers :: "('n, 'p) ec \<Rightarrow> ('n, 'p) Signer list \<Rightarrow> 'p set" where
  "verifiers E chain = {q. \<exists>s \<in> set chain. \<exists>n. pair s = Some (n, q)}"

lemma chain_add_all_effect:
  assumes "chain_add_all E q junk pbks (i, chain) = Some (i', chain')" "chain \<noteq> []" "\<forall>s \<in> set chain. pair s \<noteq> None"
  shows "hd chain' = hd chain \<and> chain' \<noteq> [] \<and> (\<forall>s \<in> set chain'. pair s \<noteq> None) \<and>
    verifiers E chain' = verifiers E chain \<union> (\<lambda>pbk. get_point E (pbk @ [0])) ` set pbks"
  using assms
proof (induction pbks arbitrary: i chain)
  case (Cons pbk pbks)
  then obtain i1 chain1 where c: "chain_add E q junk pbk (i, chain) = Some (i1, chain1)"
    "chain_add_all E q junk pbks (i1, chain1) = Some (i', chain')"
    by (auto simp: Option.bind_eq_Some_conv)
  obtain s n where s: "pair s = Some (n, get_point E (pbk @ [0]))" "chain1 = hd chain # s # tl chain"
    using chain_add_effect [OF c(1) Cons.prems(2)] by blast
  have m: "set chain1 = insert s (set chain)" using s(2) Cons.prems(2) by (cases chain) auto
  have "verifiers E chain1 = insert (get_point E (pbk @ [0])) (verifiers E chain)"
    unfolding verifiers_def m using s(1) by auto
  moreover have "chain1 \<noteq> []" "\<forall>s \<in> set chain1. pair s \<noteq> None" using s m Cons.prems(3) by auto
  note Cons.IH [OF c(2) this]
  ultimately show ?case using s(2) by (simp add: insert_commute Un_insert_left Un_insert_right del: not_None_eq)
qed simp

text \<open>
  \<open>updatekey\<close> and the server that answers it pass the struct itself where its public key is meant.  On a fresh packet the first 33 bytes of the
  struct are zero, so the secret of the server is the same for every key pair of the client.
\<close>

lemma initbuf_start: "initbuf E (i, new_Key (replicate 1064 0) u v l) = (i', k) \<Longrightarrow> field 0 33 (buf k) = replicate 33 0"
  by (auto simp: initbuf_def key_init_def Let_def new_Key_def set_field_def field_def)

lemma peer_key_not_read:
  assumes "initbuf E (i, new_Key (replicate 1064 0) u v l) = (i', k)" "initbuf E (j, new_Key (replicate 1064 0) u' v' l') = (j', k')"
  shows "computekey E (field 0 33 (buf k)) server_key = computekey E (field 0 33 (buf k')) server_key"
  by (simp only: initbuf_start [OF assms(1)] initbuf_start [OF assms(2)])

section \<open>What is promised of the curve\<close>

text \<open>Both sides of a key exchange get the same secret, of 32 bytes; a compressed point has 33 bytes; texts are read back.\<close>

definition curve_ok :: "('n, 'p) ec \<Rightarrow> bool" where
  "curve_ok E \<longleftrightarrow>
    (\<forall>m n. ECDH_compute_key E m (public_of E n) = ECDH_compute_key E n (public_of E m)) \<and>
    (\<forall>m n. \<exists>x. ECDH_compute_key E m (public_of E n) = Some x \<and> length x = 32) \<and>
    (\<forall>n. length (point2oct E (public_of E n)) = 33 \<and> oct2point E (point2oct E (public_of E n)) = Some (public_of E n)) \<and>
    (\<forall>n. hex2bn E (bn2hex E n) = n \<and> 0 \<notin> set (bn2hex E n))"

section \<open>Properties\<close>

text \<open>C30. Adding keys extends trust by exactly these keys: from an initialised chain, after any number of additions, a signature is accepted when one of the
  old signers or one of the added keys verifies it on the first 20 bytes, and never otherwise; the signer the server signs with
  stays the first.\<close>

theorem added_keys_trusted:
  assumes "chain_add_all E q junk pbks (i, chain) = Some (i', chain')" "chain \<noteq> []" "\<forall>s \<in> set chain. pair s \<noteq> None"
  shows "hd chain' = hd chain \<and> chain_check E bs datalen signature sig_len chain' =
    Some ((\<exists>s \<in> set chain. accepts E s (take 20 bs) signature sig_len) \<or>
      (\<exists>pbk \<in> set pbks. ECDSA_verify E (get_point E (pbk @ [0])) (take 20 bs) signature sig_len))"
proof -
  note e = chain_add_all_effect [OF assms]
  have acc: "(\<exists>s \<in> set c. accepts E s d signature sig_len) \<longleftrightarrow> (\<exists>q \<in> verifiers E c. ECDSA_verify E q d signature sig_len)" for c d
    unfolding verifiers_def accepts_def by (fastforce split: option.splits)
  show ?thesis
    using e chain_check_refines [of chain' E bs datalen signature sig_len]
    by (simp add: signer_check_iff acc bex_Un del: not_None_eq)
qed


text \<open>A signer survives a restart: restored from its private key and its public key as they were handed out, it has the same key pair and so signs
  and accepts the same.\<close>

theorem signer_restored:
  assumes "curve_ok E" "pair s0 = None" "signer_init E (i, s0) = (ok, i', s)" "take 33 pbk = take 33 (pubkey s)" "32 < length pbk"
    and "pair s1 = None" "signer_restore E (the (privkey s)) pbk (j, s1) = Some (j', s')"
  shows "pair s' = pair s \<and> signer_sign E bs s' = signer_sign E bs s \<and> accepts E s' = accepts E s"
proof -
  let ?n = "generate E i"
  have oct: "length (point2oct E (public_of E ?n)) = 33" using assms(1) by (simp add: curve_ok_def)
  have s: "pair s = Some (?n, public_of E ?n)" "privkey s = Some (bn2hex E ?n)" "take 33 (pubkey s) = point2oct E (public_of E ?n)"
    using assms(2,3) oct by (auto simp: signer_init_def Let_def put_point_def)
  have g: "get_point E (pbk @ [0]) = public_of E ?n"
    using assms(1,4,5) s(3) by (simp add: get_point_def curve_ok_def)
  have "cstr (bn2hex E ?n) = bn2hex E ?n" unfolding cstr_def takeWhile_eq_all_conv using assms(1) by (auto simp: curve_ok_def)
  then have h: "hex2bn E (cstr (bn2hex E ?n)) = ?n" using assms(1) by (simp add: curve_ok_def)
  obtain n p where "pair (snd (snd (signer_init E (j, s1)))) = Some (n, p)" using init_known(2) [of E "(j, s1)"] by auto
  from setprivate_pair [OF this, of E "the (privkey s)"] assms(7) have "pair s' = Some (?n, public_of E ?n)"
    using setpublic_pair s(2) g h by (fastforce simp: signer_restore_def)
  then show ?thesis using s(1) by (simp add: signer_sign_def accepts_def fun_eq_iff)
qed

text \<open>A group of bytes under multiplication in the place of the curve.\<close>

definition byte_curve :: "(u8, u8) ec" where
  "byte_curve = \<lparr>generate = (\<lambda>i. word_of_nat (i + 3)), public_of = (\<lambda>n. n), point2oct = (\<lambda>q. q # replicate 32 1),
    oct2point = (\<lambda>bs. case bs of [] \<Rightarrow> None | q # _ \<Rightarrow> Some q), infinity = 0, stale = (\<lambda>old q. old),
    bn2hex = (\<lambda>n. if n = 0 then [1] else [2, n]), hex2bn = (\<lambda>bs. if bs = [1] then 0 else bs ! 1),
    ECDSA_sign = (\<lambda>n bs. Some (n # bs)), ECDSA_verify = (\<lambda>q bs g l. g = q # bs), ECDH_compute_key = (\<lambda>m q. Some (replicate 32 (m * q)))\<rparr>"

lemma byte_curve_ok: "curve_ok byte_curve"
  by (simp add: curve_ok_def byte_curve_def mult.commute)

definition first_signer :: "(u8, u8) Signer" where
  "first_signer = \<lparr>pair = Some (9, 9), point = 9, pubkey = 9 # replicate 32 1, privkey = Some [2, 9]\<rparr>"

theorem added_keys_trusted_witness:
  "\<exists>i chain. chain_add_all byte_curve 0 (replicate 33 5) [7 # replicate 32 1] (0, [first_signer]) = Some (i, chain) \<and> hd chain = first_signer \<and>
    chain_check byte_curve (replicate 24 4) 24 (7 # replicate 20 4) 21 chain = Some True \<and>
    chain_check byte_curve (replicate 24 4) 24 (8 # replicate 20 4) 21 chain = Some False"
proof -
  obtain i chain where c: "chain_add_all byte_curve 0 (replicate 33 5) [7 # replicate 32 1] (0, [first_signer]) = Some (i, chain)"
    by (simp add: chain_add_def signer_public_def setpublickey_def) (metis surj_pair)
  have q: "get_point byte_curve ((7 # replicate 32 1) @ [0]) = 7" by (simp add: get_point_def byte_curve_def)
  have p: "\<forall>s \<in> set [first_signer]. pair s \<noteq> None" by (simp add: first_signer_def)
  note r = added_keys_trusted [OF c _ p, of "replicate 24 4" 24 _ 21]
  show ?thesis
    using c r [of "7 # replicate 20 4"] r [of "8 # replicate 20 4"] q
    by (simp add: accepts_def first_signer_def) (simp add: byte_curve_def)
qed


theorem signer_restored_witness:
  "\<exists>i s j s'. signer_init byte_curve (0, new_Signer 0 (replicate 33 5)) = (True, i, s) \<and>
    signer_restore byte_curve (the (privkey s)) (pubkey s) (7, new_Signer 0 (replicate 33 6)) = Some (j, s') \<and> pair s' = pair s"
proof -
  obtain i s where s: "signer_init byte_curve (0, new_Signer 0 (replicate 33 5)) = (True, i, s)" "length (pubkey s) = 33"
    by (simp add: signer_init_def new_Signer_def Let_def put_point_def byte_curve_def)
  then obtain j s' where r: "signer_restore byte_curve (the (privkey s)) (pubkey s) (7, new_Signer 0 (replicate 33 6)) = Some (j, s')"
    by (simp add: signer_restore_def setpublickey_def) (metis surj_pair)
  have "pair (new_Signer 0 (replicate 33 5) :: (u8, u8) Signer) = None" "pair (new_Signer 0 (replicate 33 6) :: (u8, u8) Signer) = None"
    by (simp_all add: new_Signer_def)
  from signer_restored [OF byte_curve_ok this(1) s(1) refl _ this(2) r] s r show ?thesis by auto
qed

end
