(* ===== verification/Hashapi.thy ===== *)
theory Hashapi
  imports YsDB
begin

text \<open>
  The table \<open>Hash\<close> that \<open>luaopen_ysfunc\<close> of \<^verbatim>\<open>core/func.hpp\<close> gives to scripts.  What Lua makes of numbers and strings, and MD5, are parameters.
\<close>

datatype 'a hash_arg = H_nil | H_str bytes | H_num 'a
datatype 'a hash_out = HI u32 | HS bytes | HN 'a

record 'a hash_env =
  number_text :: "'a \<Rightarrow> bytes"
  text_number :: "bytes \<Rightarrow> 'a option"
  md5String :: "bytes \<Rightarrow> bytes"

definition harg :: "'a hash_arg list \<Rightarrow> nat \<Rightarrow> 'a hash_arg" where
  "harg as n = (if n \<noteq> 0 \<and> n \<le> length as then as ! (n - 1) else H_nil)"

text \<open>\<open>lua_tostring\<close> and \<open>lua_tonumber\<close>, with the tests \<open>lua_isstring\<close> and \<open>lua_isnumber\<close> before them.\<close>

fun h_string :: "'a hash_env \<Rightarrow> 'a hash_arg \<Rightarrow> bytes option" where
  "h_string e H_nil = None"
| "h_string e (H_str s) = Some s"
| "h_string e (H_num d) = Some (number_text e d)"

fun h_number :: "'a hash_env \<Rightarrow> 'a hash_arg \<Rightarrow> 'a option" where
  "h_number e H_nil = None"
| "h_number e (H_str s) = text_number e s"
| "h_number e (H_num d) = Some d"

definition lua_geohash_encode :: "'a :: linordered_field hash_env \<Rightarrow> 'a hash_arg list \<Rightarrow> 'a hash_out list" where
  "lua_geohash_encode e as =
    (case (h_number e (harg as 1), h_number e (harg as 2), h_number e (harg as 3), h_number e (harg as 4)) of
      (Some a, Some b, Some c, Some l) \<Rightarrow> [HS (cstr (GeoHash 64 l (vec a b c) (vec 0 0 0)))]
    | _ \<Rightarrow> [])"

text \<open>The second argument is read twice: as the length and as the hash.\<close>

definition lua_geohash_decode :: "'a :: linordered_field hash_env \<Rightarrow> 'a hash_arg list \<Rightarrow> 'a hash_out list" where
  "lua_geohash_decode e as =
    (case (h_string e (harg as 1), h_number e (harg as 2), h_string e (harg as 2)) of
      (Some _, Some l, Some s) \<Rightarrow> (let v = snd (GeoHashDecode l s) in [HN (vx v), HN (vy v), HN (vz v)])
    | _ \<Rightarrow> [])"

definition lua_md5 :: "'a hash_env \<Rightarrow> 'a hash_arg list \<Rightarrow> 'a hash_out list" where
  "lua_md5 e as = (case h_string e (harg as 1) of None \<Rightarrow> [] | Some s \<Rightarrow> [HS (cstr (md5String e (cstr s)))])"

datatype hash_fn =
    RSHash_fn | PJWHash_fn | JSHash_fn | ELFHash_fn | BKDRHash_fn | SDBMHash_fn | DJBHash_fn | DEKHash_fn | BPHash_fn | FNVHash_fn
  | APHash_fn | md5_fn | GeohashEncode_fn | GeohashDecode_fn

definition int_hash :: "(bytes \<Rightarrow> nat \<Rightarrow> u32) \<Rightarrow> 'a hash_env \<Rightarrow> 'a hash_arg list \<Rightarrow> 'a hash_out list" where
  "int_hash H e as = (case lua_hash H (h_string e (harg as 1)) of None \<Rightarrow> [] | Some h \<Rightarrow> [HI h])"

fun hash_call :: "'a :: linordered_field hash_env \<Rightarrow> hash_fn \<Rightarrow> 'a hash_arg list \<Rightarrow> 'a hash_out list" where
  "hash_call e RSHash_fn as = int_hash RSHash e as"
| "hash_call e PJWHash_fn as = int_hash PJWHash e as"
| "hash_call e JSHash_fn as = int_hash JSHash e as"
| "hash_call e ELFHash_fn as = int_hash ELFHash e as"
| "hash_call e BKDRHash_fn as = int_hash BKDRHash e as"
| "hash_call e SDBMHash_fn as = int_hash SDBMHash e as"
| "hash_call e DJBHash_fn as = int_hash DJBHash e as"
| "hash_call e DEKHash_fn as = int_hash DEKHash e as"
| "hash_call e BPHash_fn as = int_hash BPHash e as"
| "hash_call e FNVHash_fn as = int_hash FNVHash e as"
| "hash_call e APHash_fn as = int_hash APHash e as"
| "hash_call e md5_fn as = lua_md5 e as"
| "hash_call e GeohashEncode_fn as = lua_geohash_encode e as"
| "hash_call e GeohashDecode_fn as = lua_geohash_decode e as"

text \<open>No text of a number begins with a letter from \<open>a\<close> to \<open>h\<close>, and neither does a string that Lua takes for a number.\<close>

definition number_texts :: "'a hash_env \<Rightarrow> bool" where
  "number_texts e \<longleftrightarrow> (\<forall>s d. s = number_text e d \<or> text_number e s = Some d \<longrightarrow> cbyte s 0 < 97 \<or> 104 < cbyte s 0)"

lemma decode_number: "cbyte s 0 < 97 \<or> 104 < cbyte s 0 \<Longrightarrow> snd (GeoHashDecode l s) = vec 0 0 0"
  by (cases s) (auto simp: GeoHashDecode_def geo_move_def cbyte_def)

text \<open>So a script can not decode a geohash: whatever it asks for, the answer is nothing or the origin.\<close>

lemma geohash_decode_origin:
  fixes e :: "'a :: linordered_field hash_env"
  assumes "number_texts e"
  shows "hash_call e GeohashDecode_fn as \<in> {[], [HN 0, HN 0, HN 0]}"
proof (cases "h_number e (harg as 2)")
  case (Some d)
  have "snd (GeoHashDecode l s) = vec 0 0 0" if "h_string e (harg as 2) = Some s" for l :: 'a and s
    by (rule decode_number) (use Some that assms in \<open>cases "harg as 2"; auto simp: number_texts_def\<close>)
  then show ?thesis by (auto simp: lua_geohash_decode_def vec_def Let_def split: option.splits)
qed (simp add: lua_geohash_decode_def split: option.splits)

text \<open>Encoding gives a text of 64 letters, which fits the array of 65.\<close>

lemma GeoHash_Suc: "\<exists>c l' z'. c \<noteq> 0 \<and> GeoHash (Suc n) l p z = c # GeoHash n l' p z'"
  by (cases "vx p > vx z"; cases "vy p > vy z"; cases "vz p > vz z"; fastforce)

lemma GeoHash_text: "\<exists>cs. GeoHash n l p z = cs @ [0] \<and> length cs = n \<and> 0 \<notin> set cs"
proof (induction n arbitrary: l z)
  case (Suc n)
  obtain c l' z' where c: "c \<noteq> 0" "GeoHash (Suc n) l p z = c # GeoHash n l' p z'" using GeoHash_Suc by blast
  obtain cs where "GeoHash n l' p z' = cs @ [0]" "length cs = n" "0 \<notin> set cs" using Suc by blast
  then show ?case using c by (intro exI [of _ "c # cs"]) simp
qed simp

lemma geohash_encode_text:
  fixes e :: "'a :: linordered_field hash_env"
  assumes "hash_call e GeohashEncode_fn as = [HS s]"
  shows "length s = 64"
proof -
  obtain l :: 'a and p where s: "s = cstr (GeoHash 64 l p (vec 0 0 0))"
    using assms unfolding hash_call.simps lua_geohash_encode_def by (auto split: option.splits)
  obtain cs where cs: "GeoHash 64 l p (vec 0 0 0) = cs @ [0]" "length cs = 64" "0 \<notin> set cs" using GeoHash_text by blast
  have "takeWhile (\<lambda>c. c \<noteq> 0) (cs @ [0]) = cs" using cs(3) by (subst takeWhile_append2) auto
  then show ?thesis using s cs by (simp add: cstr_def)
qed

end
