(* ===== verification/Spec2Isabelle.thy ===== *)
theory Spec2Isabelle
  imports Answers Gfmt Aes Cjson_Roundtrip Base64 Func Crypt Classes Accounts Pools Connection_Props Client_Props Webserver Template Sta Scriptqueue Livestream Luaapi Automanager Serverloop Screenlock Langsolver Scriptworker Launcher Webapi Keys Hashapi
begin

text \<open>
  A verification of YRSSF, a peer-to-peer system for teaching: servers that keep accounts and
  files, clients that log in to a parent server, a broadcast of screen and sound, a web server, and Lua scripts on all
  sides.  File names are relative to \<^verbatim>\<open>src/core\<close>, or to \<^verbatim>\<open>src\<close> for those in \<^verbatim>\<open>live\<close>,
  \<^verbatim>\<open>lock\<close> and \<^verbatim>\<open>launcher\<close>.

  \<^bold>\<open>The parts and how they interact.\<close>  A packet arrives in a buffer of the request pool (\<^verbatim>\<open>server.hpp\<close>), a thread of
  the thread pool (\<^verbatim>\<open>threadpool.hpp\<close>) takes it and calls \<open>ysConnection::run\<close> (\<^verbatim>\<open>ysconnection.hpp\<close>).  The handler decrypts the packet
  (\<^verbatim>\<open>crypt.hpp\<close> over \<^verbatim>\<open>aes/aes.c\<close>), checks password and session number (\<^verbatim>\<open>ysdb.hpp\<close>), and executes the request on the
  database, the files (\<^verbatim>\<open>filecache.hpp\<close>) or a Lua script, whose state comes from a pool (\<^verbatim>\<open>luapool.hpp\<close>) and which
  sees JSON through \<^verbatim>\<open>lua-cjson\<close>.  A client (\<^verbatim>\<open>client.hpp\<close>) builds such packets and waits for answers.  The main program
  (\<^verbatim>\<open>main.cpp\<close>) offers client, database, text filters, statistics (\<^verbatim>\<open>sta.hpp\<close>) and switches to scripts and runs two maintenance threads: one
  forgets session numbers in the database, one gives buffers of the request pool back.  Other scripts wait in a queue
  (\<^verbatim>\<open>scriptqueue.hpp\<close>) or run in the thread pool (\<^verbatim>\<open>scriptworker.hpp\<close>); all of them can segment words (\<^verbatim>\<open>languagesolver.hpp\<close>), behind a
  lock for readers and writers (\<^verbatim>\<open>rwmutex.hpp\<close>).

  Beside this the program has a web server (\<^verbatim>\<open>httpd.hpp\<close> with parser, file types, templates and a FastCGI client, \<^verbatim>\<open>webserver.hpp\<close> and
  \<^verbatim>\<open>websocket.hpp\<close>), and a broadcast: \<^verbatim>\<open>live.hpp\<close> cuts the screen and the sound into packets, \<open>Client::live\<close> sends them
  through the parent, \<open>Client::liveclient\<close> takes them and a pipe carries them to the viewer (\<^verbatim>\<open>live/main.cpp\<close>) or a WebSocket to
  browsers.  The screen lock (\<^verbatim>\<open>lock\<close>) is a program of its own; launcher and daemon (\<^verbatim>\<open>launcher\<close>) start all of these
  again when they are gone.

  \<^bold>\<open>The theories.\<close>
  \<^item> \<open>Prelude\<close>: machine words, byte strings, runs of stores, rule collections.
  \<^item> \<open>Aes\<close>: \<^verbatim>\<open>aes/aes.c\<close> function by function on the static state.  Decryption inverts encryption for one block and
    for CBC on whole blocks; a ragged length leaves the buffer.
  \<^item> \<open>Strbuf\<close>, \<open>Fpconv\<close>: \<^verbatim>\<open>strbuf.c\<close> and \<^verbatim>\<open>fpconv.c\<close>.  A buffer is its allocation and its length, a store outside
    is a failure.  The locale \<open>text_buffer\<close> is what the encoder needs of a buffer.  \<open>Gfmt\<close> is the printing of \<^verbatim>\<open>g_fmt.c\<close>, which
    a reader of numbers inverts; the digits come from \<open>dtoa\<close>.
  \<^item> \<open>Cjson\<close>, \<open>Cjson_Encode\<close>, \<open>Cjson_Decode\<close>, \<open>Cjson_Decode_Props\<close>, \<open>Cjson_Roundtrip\<close>: \<^verbatim>\<open>lua_cjson.c\<close>.  Configuration, encoder over a heap of
    tables, lexer and parser.  The encoder refines a specification of the text; the decoder ends on every input
    with a value or an error and stays inside its buffers.  The parser's recursion is on a number of nesting levels,
    \<open>decode_fuel\<close>, which is the length of the text and two: every level consumes a character.  The two sides are joined by trees: what a value
    denotes is encoded to one text, and decoding the text gives a value that denotes it.
  \<^item> \<open>Base64\<close>, \<open>Func\<close>: \<^verbatim>\<open>base64.hpp\<close> and \<^verbatim>\<open>func.hpp\<close>.  \<open>Hashapi\<close> is its table of hashes for scripts.
  \<^item> \<open>Crypt\<close>: \<^verbatim>\<open>nint.hpp\<close>, the packet structs of \<^verbatim>\<open>classes.hpp\<close> as byte arrays, and \<^verbatim>\<open>crypt.hpp\<close>.  The locale
    \<open>block_cipher\<close> is interpreted on AES.  A packet survives encryption, also when the receiver takes a query for a
    longer packet.
  \<^item> \<open>Classes\<close>, \<open>YsDB\<close>: addresses with their order, request codes, and the database over the contract \<open>kv_store\<close>
    of LevelDB.  \<open>db_steps\<close> are the states its operations reach.
  \<^item> \<open>Registration\<close>: certificates, \<open>netReg\<close> of \<^verbatim>\<open>ysdb.hpp\<close>, with the chain of signers as a list of tests.
  \<^item> \<open>Keys\<close>: the classes \<open>Signer\<close> and \<open>Key\<close> of \<^verbatim>\<open>key.hpp\<close> over a record of what OpenSSL gives.  A chain of signers is the list of
    tests of \<open>Registration\<close>; two sides that exchange the struct of \<open>initbuf\<close> derive one secret, and \<open>updatekey\<close> does not do so.
  \<^item> \<open>Pools\<close>: the three free lists, over an explicit store, as interpretations of one locale \<open>free_list\<close>, and the work
    queue with its steps.  \<open>last_member\<close> walks the queue with the number of allocated cells as a bound, which a chain
    without repetition can not exceed.
  \<^item> \<open>FileCache\<close>: \<^verbatim>\<open>cache.hpp\<close> and \<^verbatim>\<open>filecache.hpp\<close>.
  \<^item> \<open>Connection\<close>, \<open>Connection_Props\<close>: the handler.  \<open>run_steps\<close> reduces each request to operations of the
    database, \<open>server_reach\<close> are the states of a running server; the properties are about every such state.
  \<^item> \<open>Client\<close>, \<open>Client_Props\<close>: the asking side.  The events of the network are a list, so each loop ends;
    \<open>download\<close> has the number of events as a bound, which is enough because every answer consumes one.  The daemon of
    \<^verbatim>\<open>daemon.hpp\<close> that reports to the parent is here too.
  \<^item> \<open>Answers\<close>: the sizes of all packets the handler sends, by the kind of the request.
  \<^item> \<open>Accounts\<close>: the abstract specification of the database and its refinement by \<open>YsDB\<close>, operation by operation.
  \<^item> \<open>Serverloop\<close>: \<^verbatim>\<open>server.hpp\<close> as steps of the receiving thread and the workers, over \<open>Pools\<close> and \<open>Connection\<close>.  In every
    interleaving each packet is handled once or waits in one buffer, and the connection is in a state of \<open>server_reach\<close>.
  \<^item> \<open>Http_Request\<close>, \<open>Fastcgi\<close>, \<open>Httpd\<close>: \<^verbatim>\<open>httpdpaser.hpp\<close>, \<^verbatim>\<open>httpdfastcgi.hpp\<close>, \<^verbatim>\<open>httpd.hpp\<close> and \<^verbatim>\<open>httpdmime.hpp\<close>.  The loops that
    read headers are interpretations of the locale \<open>header_loop\<close>; loops that may wait for ever are partial functions, and
    the properties say when they return.  What a request reads, which files it can reach, and that it is closed once.
  \<^item> \<open>Webapi\<close>: the functions these files offer to scripts and the loop that accepts connections.  Tables fit the array they are decoded in,
    and a query that was encoded reaches the script as it was meant.
  \<^item> \<open>Websocket\<close>, \<open>Webserver\<close>, \<open>Template\<close>: \<^verbatim>\<open>websocket.hpp\<close>, \<^verbatim>\<open>webserver.hpp\<close>, \<^verbatim>\<open>httpdtemplate.hpp\<close>.
  \<^item> \<open>Sta\<close>, \<open>Scriptqueue\<close>: \<^verbatim>\<open>sta.hpp\<close> over the real numbers, and \<^verbatim>\<open>scriptqueue.hpp\<close> with its threads interleaved.
  \<^item> \<open>Scriptworker\<close>: \<^verbatim>\<open>scriptworker.hpp\<close> and \<^verbatim>\<open>luapool.hpp\<close> over \<open>Pools\<close>, as steps of the workers.  Scripts that run at the same time have
    states of their own.
  \<^item> \<open>Rwmutex\<close>, \<open>Langsolver\<close>: \<^verbatim>\<open>rwmutex.hpp\<close> as interpretation of the locale \<open>rw_lock\<close>, and \<^verbatim>\<open>languagesolver.hpp\<close> on it.  The locale gives
    that holders for writing are alone; every interleaving of the calls is a sequence of whole calls, and none is stuck.
  \<^item> \<open>Picture\<close>, \<open>Viewer\<close>, \<open>Livestream\<close>: the sender of \<^verbatim>\<open>live.hpp\<close>, the viewer of \<^verbatim>\<open>live/main.cpp\<close> and what is between.  The
    viewer draws the picture the sender saw, plays sound in order, and takes every packet once; the switches are a step
    relation.
  \<^item> \<open>Textfilter\<close>, \<open>Luaapi\<close>, \<open>Automanager\<close>: \<^verbatim>\<open>main.cpp\<close>.  The filters against readers of the languages they are for; the functions of a
    script as one function \<open>call\<close> on the state of the program, with the search in the data against a filter of
    all entries; the maintenance threads with the exact condition under which they end.
  \<^item> \<open>Screenlock\<close>: \<^verbatim>\<open>lock/main.cpp\<close>, \<^verbatim>\<open>lock/hook.cpp\<close> and their lists.
  \<^item> \<open>Launcher\<close>: \<^verbatim>\<open>launcher/launcher.cpp\<close>, \<^verbatim>\<open>daemon.cpp\<close> and \<^verbatim>\<open>common.hpp\<close> on the numbers of processes, up to the bound \<open>pid_max\<close>
    of the system, with processes started and killed at any time.

  \<^bold>\<open>Conventions.\<close>  A variable the code reads before it writes it is an argument with any value.  A C++ exception, a
  fault and a wait for a mutex that is never released are values of \<open>outcome\<close>.  Code that is not part of
  the repository (OpenSSL, the C library, the script) enters as parameters.  Where the code is wrong the model is as
  wrong, and a theorem says what follows.

  \<^bold>\<open>Not modelled.\<close>  Operations that are calls of a system or library and nothing more: opening sockets, stores and devices, SQL queries,
  name lookup, the arithmetic of OpenSSL, JPEG compression, compression with zlib and shell commands.  The two forks that make a
  process a daemon are one new process.  \<open>send_client\<close> of the FastCGI client prints a buffer into itself, which C leaves undefined.  The
  vendored SQLite, LevelDB, Lua, zlib, cppjieba, noVNC and \<open>dtoa\<close> are used through their contracts.  Interleavings inside one request
  are left out: each locked section is taken as atomic, which \<open>Langsolver\<close> shows for its lock.
\<close>

end
